(* ===== verification/Prelude.thy ===== *)
theory Prelude
  imports
    Complex_Main
    "HOL-Library.AList"
    "HOL-Library.Multiset"
    "HOL-Library.Char_ord"
    "HOL-Library.List_Lexorder"
begin

section \<open>Prelude: exceptions, results, ordered dictionaries\<close>

text \<open>
  What every component of the benchmark harness shares: the exceptions the Python code
  raises and catches, results of fallible functions as sums, Python dictionaries as
  association lists in insertion order, and the lemma collections of the development.
\<close>

named_theorems str_simps \<open>evaluation and rewriting of string operations\<close>
named_theorems dict_simps \<open>lookup and update laws of dictionaries\<close>
named_theorems res_simps \<open>laws of the result combinators\<close>

subsection \<open>Exceptions\<close>

text \<open>
  One datatype for the exceptions the harness mentions. The string is the message as far as
  the code builds it; the text of messages made by the interpreter itself is abbreviated.
\<close>

datatype exn =
    TypeError string
  | ValueError string
  | OverflowError string
  | KeyError string
  | IndexError string
  | AttributeError string
  | AssertionError string
  | StopIteration
  | OSError string
  | FileNotFoundError string
  | JSONDecodeError string
  | EOFError string
  | KeyboardInterrupt
  | SystemExit int
  | NameError string
  | ZeroDivisionError string
  | SSHException string
  | GroupException string
  | SubprocessError string
  | XmlParseError string
  | LogParseError string
  | ConfigError string
  | SettingsError string
  | ManifestError string
  | NetemError string
  | ExecutionError string
  | FabricError string
  | PlainException string
  | BenchError string exn

text \<open>The class hierarchy, as far as an \<open>except\<close> clause of the code depends on it.\<close>

fun is_OSError :: "exn \<Rightarrow> bool" where
  "is_OSError (OSError _) = True"
| "is_OSError (FileNotFoundError _) = True"
| "is_OSError _ = False"

fun is_ValueError :: "exn \<Rightarrow> bool" where
  "is_ValueError (ValueError _) = True"
| "is_ValueError (JSONDecodeError _) = True"
| "is_ValueError _ = False"

fun is_TypeError :: "exn \<Rightarrow> bool" where
  "is_TypeError (TypeError _) = True"
| "is_TypeError _ = False"

fun is_GroupException :: "exn \<Rightarrow> bool" where
  "is_GroupException (GroupException _) = True"
| "is_GroupException _ = False"

text \<open>\<open>except Exception\<close> catches everything but \<open>KeyboardInterrupt\<close> and \<open>SystemExit\<close>.\<close>

definition is_Exception :: "exn \<Rightarrow> bool" where
  "is_Exception e \<longleftrightarrow> (case e of KeyboardInterrupt \<Rightarrow> False | SystemExit _ \<Rightarrow> False | _ \<Rightarrow> True)"

text \<open>\<open>type(e).__name__\<close> and \<open>str(e)\<close>.\<close>

fun exn_name :: "exn \<Rightarrow> string" where
  "exn_name (TypeError _) = ''TypeError''"
| "exn_name (ValueError _) = ''ValueError''"
| "exn_name (OverflowError _) = ''OverflowError''"
| "exn_name (KeyError _) = ''KeyError''"
| "exn_name (IndexError _) = ''IndexError''"
| "exn_name (AttributeError _) = ''AttributeError''"
| "exn_name (AssertionError _) = ''AssertionError''"
| "exn_name StopIteration = ''StopIteration''"
| "exn_name (OSError _) = ''OSError''"
| "exn_name (FileNotFoundError _) = ''FileNotFoundError''"
| "exn_name (JSONDecodeError _) = ''JSONDecodeError''"
| "exn_name (EOFError _) = ''EOFError''"
| "exn_name KeyboardInterrupt = ''KeyboardInterrupt''"
| "exn_name (SystemExit _) = ''SystemExit''"
| "exn_name (NameError _) = ''NameError''"
| "exn_name (ZeroDivisionError _) = ''ZeroDivisionError''"
| "exn_name (SSHException _) = ''SSHException''"
| "exn_name (GroupException _) = ''GroupException''"
| "exn_name (SubprocessError _) = ''CalledProcessError''"
| "exn_name (XmlParseError _) = ''ParseError''"
| "exn_name (LogParseError _) = ''ParseError''"
| "exn_name (ConfigError _) = ''ConfigError''"
| "exn_name (SettingsError _) = ''SettingsError''"
| "exn_name (ManifestError _) = ''ManifestError''"
| "exn_name (NetemError _) = ''NetemError''"
| "exn_name (ExecutionError _) = ''ExecutionError''"
| "exn_name (FabricError _) = ''FabricError''"
| "exn_name (PlainException _) = ''Exception''"
| "exn_name (BenchError _ _) = ''BenchError''"

definition hex_digit :: "nat \<Rightarrow> char" where
  "hex_digit n = char_of (if n < 10 then 48 + n else 87 + n)"

text \<open>\<open>repr(s)\<close> of a string of 8-bit characters.\<close>

definition repr_char :: "char \<Rightarrow> char \<Rightarrow> string" where
  "repr_char q c =
     (let n = of_char c :: nat in
      if c = q \<or> c = CHR 0x5C then [CHR 0x5C, c]
      else if n = 10 then [CHR 0x5C, CHR ''n'']
      else if n = 13 then [CHR 0x5C, CHR ''r'']
      else if n = 9 then [CHR 0x5C, CHR ''t'']
      else if n < 32 \<or> (127 \<le> n \<and> n \<le> 160) \<or> n = 173
        then [CHR 0x5C, CHR ''x'', hex_digit (n div 16), hex_digit (n mod 16)]
      else [c])"

definition py_repr :: "string \<Rightarrow> string" where
  "py_repr s =
     (let q = (if CHR 0x27 \<in> set s \<and> CHR 0x22 \<notin> set s then CHR 0x22 else CHR 0x27)
      in q # concat (map (repr_char q) s) @ [q])"

text \<open>The string of a \<open>KeyError\<close> is the \<open>repr\<close> of its key.\<close>

fun exn_msg :: "exn \<Rightarrow> string" where
  "exn_msg (TypeError s) = s"
| "exn_msg (ValueError s) = s"
| "exn_msg (OverflowError s) = s"
| "exn_msg (KeyError s) = py_repr s"
| "exn_msg (IndexError s) = s"
| "exn_msg (AttributeError s) = s"
| "exn_msg (AssertionError s) = s"
| "exn_msg StopIteration = []"
| "exn_msg (OSError s) = s"
| "exn_msg (FileNotFoundError s) = s"
| "exn_msg (JSONDecodeError s) = s"
| "exn_msg (EOFError s) = s"
| "exn_msg KeyboardInterrupt = []"
| "exn_msg (SystemExit n) = []"
| "exn_msg (NameError s) = s"
| "exn_msg (ZeroDivisionError s) = s"
| "exn_msg (SSHException s) = s"
| "exn_msg (GroupException s) = s"
| "exn_msg (SubprocessError s) = s"
| "exn_msg (XmlParseError s) = s"
| "exn_msg (LogParseError s) = s"
| "exn_msg (ConfigError s) = s"
| "exn_msg (SettingsError s) = s"
| "exn_msg (ManifestError s) = s"
| "exn_msg (NetemError s) = s"
| "exn_msg (ExecutionError s) = s"
| "exn_msg (FabricError s) = s"
| "exn_msg (PlainException s) = s"
| "exn_msg (BenchError s _) = s"

subsection \<open>Results of fallible pure functions\<close>

type_synonym 'a res = "exn + 'a"

definition bindR :: "'a res \<Rightarrow> ('a \<Rightarrow> 'b res) \<Rightarrow> 'b res" where
  "bindR r f = (case r of Inl e \<Rightarrow> Inl e | Inr x \<Rightarrow> f x)"

text \<open>\<open>try: r except E as e: raise h(e)\<close>, for the exceptions in \<open>E\<close>.\<close>

definition catchR :: "'a res \<Rightarrow> (exn \<Rightarrow> bool) \<Rightarrow> (exn \<Rightarrow> 'a res) \<Rightarrow> 'a res" where
  "catchR r is_e h = (case r of Inl e \<Rightarrow> if is_e e then h e else Inl e | Inr x \<Rightarrow> Inr x)"

text \<open>A list comprehension whose element expression may raise.\<close>

fun mapR :: "('a \<Rightarrow> 'b res) \<Rightarrow> 'a list \<Rightarrow> 'b list res" where
  "mapR f [] = Inr []"
| "mapR f (x # xs) = bindR (f x) (\<lambda>y. bindR (mapR f xs) (\<lambda>ys. Inr (y # ys)))"

text \<open>A loop over a list whose body may raise.\<close>

fun foldR :: "('s \<Rightarrow> 'a \<Rightarrow> 's res) \<Rightarrow> 's \<Rightarrow> 'a list \<Rightarrow> 's res" where
  "foldR f s [] = Inr s"
| "foldR f s (x # xs) = bindR (f s x) (\<lambda>s'. foldR f s' xs)"

text \<open>\<open>xs[i]\<close> for a non-negative index.\<close>

definition py_index :: "'a list \<Rightarrow> nat \<Rightarrow> 'a res" where
  "py_index xs i = (if i < length xs then Inr (xs ! i) else Inl (IndexError ''list index out of range''))"

lemma bindR_simps [simp, res_simps]:
  "bindR (Inl e) f = Inl e"
  "bindR (Inr x) f = f x"
  by (simp_all add: bindR_def)

lemma bindR_Inr_iff [res_simps]: "bindR r f = Inr y \<longleftrightarrow> (\<exists>x. r = Inr x \<and> f x = Inr y)"
  by (cases r) auto

lemma bindR_Inl_iff [res_simps]:
  "bindR r f = Inl e \<longleftrightarrow> r = Inl e \<or> (\<exists>x. r = Inr x \<and> f x = Inl e)"
  by (cases r) auto

lemma catchR_Inr [simp]: "catchR (Inr x) p h = Inr x"
  by (simp add: catchR_def)

lemma catchR_Inl [simp]: "catchR (Inl e) p h = (if p e then h e else Inl e)"
  by (simp add: catchR_def)

lemma catchR_Inr_iff:
  assumes "\<And>e. \<exists>e'. h e = Inl e'"
  shows "catchR r p h = Inr x \<longleftrightarrow> r = Inr x"
proof (cases r)
  case (Inl e)
  obtain e' where "h e = Inl e'" using assms by blast
  with Inl show ?thesis by simp
qed simp

lemma foldR_append: "foldR f s (xs @ ys) = bindR (foldR f s xs) (\<lambda>s'. foldR f s' ys)"
  by (induction xs arbitrary: s) (auto simp: bindR_def split: sum.splits)

lemma foldR_invariant:
  assumes "\<And>s x s'. x \<in> set xs \<Longrightarrow> I s \<Longrightarrow> f s x = Inr s' \<Longrightarrow> I s'"
    and "I s" and "foldR f s xs = Inr s'"
  shows "I s'"
  using assms
proof (induction xs arbitrary: s)
  case (Cons x xs)
  from Cons.prems(3) obtain t where t: "f s x = Inr t" "foldR f t xs = Inr s'"
    by (auto simp: bindR_Inr_iff)
  have "I t" using Cons.prems(1) [OF _ Cons.prems(2) t(1)] by simp
  then show ?case using Cons.IH [OF _ _ t(2)] Cons.prems(1) by (meson list.set_intros(2))
qed simp

lemma mapR_Inr_iff: "mapR f xs = Inr ys \<longleftrightarrow> map f xs = map Inr ys"
  by (induction xs arbitrary: ys) (auto simp: bindR_Inr_iff map_eq_Cons_conv Cons_eq_map_conv)

lemma mapR_length: "mapR f xs = Inr ys \<Longrightarrow> length ys = length xs"
  unfolding mapR_Inr_iff by (metis length_map)

lemma mapR_total: "(\<And>x. x \<in> set xs \<Longrightarrow> f x = Inr (g x)) \<Longrightarrow> mapR f xs = Inr (map g xs)"
  by (simp add: mapR_Inr_iff)

subsection \<open>Dictionaries in insertion order\<close>

text \<open>
  A Python \<open>dict\<close> keeps its keys in insertion order; assigning to a present key keeps its
  place. \<^const>\<open>AList.update\<close> does exactly this on association lists.
\<close>

type_synonym ('k, 'v) dict = "('k \<times> 'v) list"

abbreviation dict_get :: "('k, 'v) dict \<Rightarrow> 'k \<Rightarrow> 'v option" where
  "dict_get \<equiv> map_of"

abbreviation dict_set :: "'k \<Rightarrow> 'v \<Rightarrow> ('k, 'v) dict \<Rightarrow> ('k, 'v) dict" where
  "dict_set \<equiv> AList.update"

abbreviation dict_keys :: "('k, 'v) dict \<Rightarrow> 'k list" where
  "dict_keys d \<equiv> map fst d"

text \<open>\<open>d.get(k, v)\<close> and \<open>d.setdefault(k, v)\<close>.\<close>

definition dict_get_or :: "('k, 'v) dict \<Rightarrow> 'k \<Rightarrow> 'v \<Rightarrow> 'v" where
  "dict_get_or d k v = (case dict_get d k of None \<Rightarrow> v | Some w \<Rightarrow> w)"

definition dict_setdefault :: "'k \<Rightarrow> 'v \<Rightarrow> ('k, 'v) dict \<Rightarrow> ('k, 'v) dict" where
  "dict_setdefault k v d = (case dict_get d k of None \<Rightarrow> dict_set k v d | Some _ \<Rightarrow> d)"

text \<open>\<open>d.update(items)\<close>, and \<open>{k: v for ...}\<close> when it starts from the empty dictionary.\<close>

definition dict_update :: "('k \<times> 'v) list \<Rightarrow> ('k, 'v) dict \<Rightarrow> ('k, 'v) dict" where
  "dict_update kvs d = fold (\<lambda>(k, v). dict_set k v) kvs d"

lemma dict_get_set [simp, dict_simps]:
  "dict_get (dict_set k v d) k' = (if k' = k then Some v else dict_get d k')"
  by (simp add: update_conv')

lemma dict_keys_set [dict_simps]:
  "dict_keys (dict_set k v d) = (if k \<in> set (dict_keys d) then dict_keys d else dict_keys d @ [k])"
  by (simp add: update_keys)

lemma dict_get_in_keys: "k \<in> set (dict_keys d) \<longleftrightarrow> dict_get d k \<noteq> None"
  by (metis map_of_eq_None_iff set_map)

subsection \<open>The dictionary interface\<close>

text \<open>
  What the clients of a dictionary rely on: lookup after an assignment, and the order of
  the keys. Everything a loop of assignments does follows from these three laws.
\<close>

locale dictionary =
  fixes lookup :: "'d \<Rightarrow> 'k \<Rightarrow> 'v option"
    and assign :: "'k \<Rightarrow> 'v \<Rightarrow> 'd \<Rightarrow> 'd"
    and keys :: "'d \<Rightarrow> 'k list"
  assumes lookup_assign: "lookup (assign k v d) k' = (if k' = k then Some v else lookup d k')"
    and keys_assign: "keys (assign k v d) = (if k \<in> set (keys d) then keys d else keys d @ [k])"
    and keys_lookup: "k \<in> set (keys d) \<longleftrightarrow> lookup d k \<noteq> None"
begin

lemma lookup_fold_assign:
  "lookup (fold (\<lambda>(k, v). assign k v) kvs d) k =
     (case map_of (rev kvs) k of None \<Rightarrow> lookup d k | Some v \<Rightarrow> Some v)"
  by (induction kvs arbitrary: d)
    (auto simp: lookup_assign map_add_def split: option.splits)

lemma keys_fold_assign:
  "set (keys (fold (\<lambda>(k, v). assign k v) kvs d)) = set (keys d) \<union> fst ` set kvs"
proof (induction kvs arbitrary: d)
  case (Cons kv kvs)
  obtain k v where "kv = (k, v)" by (cases kv)
  with Cons.IH [of "assign k v d"] show ?case by (auto simp: keys_assign [of k v d] split: if_splits)
qed simp

lemma distinct_fold_assign:
  "distinct (keys d) \<Longrightarrow> distinct (keys (fold (\<lambda>(k, v). assign k v) kvs d))"
  by (induction kvs arbitrary: d) (auto simp: keys_assign)

lemma keys_fold_assign_present:
  "fst ` set kvs \<subseteq> set (keys d) \<Longrightarrow> keys (fold (\<lambda>(k, v). assign k v) kvs d) = keys d"
  by (induction kvs arbitrary: d) (auto simp: keys_assign)

end

interpretation al: dictionary map_of AList.update "map fst"
  by unfold_locales (simp_all only: dict_get_set dict_keys_set dict_get_in_keys)

lemmas dict_update_simps [dict_simps] =
  al.lookup_fold_assign [folded dict_update_def] al.keys_fold_assign [folded dict_update_def]

lemma dict_get_update:
  "dict_get (dict_update kvs d) k =
     (case map_of (rev kvs) k of None \<Rightarrow> dict_get d k | Some v \<Rightarrow> Some v)"
  by (simp add: dict_update_def al.lookup_fold_assign)

lemma dict_keys_update_present:
  "fst ` set kvs \<subseteq> set (dict_keys d) \<Longrightarrow> dict_keys (dict_update kvs d) = dict_keys d"
  by (simp add: dict_update_def al.keys_fold_assign_present)

lemma dict_keys_update_set:
  "set (dict_keys (dict_update kvs d)) = set (dict_keys d) \<union> fst ` set kvs"
  unfolding dict_update_def by (rule al.keys_fold_assign)

lemma dict_update_Nil [simp]: "dict_update [] d = d"
  by (simp add: dict_update_def)

lemma dict_update_Cons [simp]:
  "dict_update ((k, v) # kvs) d = dict_update kvs (dict_set k v d)"
  by (simp add: dict_update_def)

lemma dict_update_distinct:
  "distinct (dict_keys d) \<Longrightarrow> distinct (dict_keys (dict_update kvs d))"
  by (simp add: dict_update_def al.distinct_fold_assign)

lemma dict_set_id: "dict_get d k = Some v \<Longrightarrow> dict_set k v d = d"
  by (induction d) auto

lemma dict_get_setdefault [dict_simps]:
  "dict_get (dict_setdefault k v d) k' =
     (if k' = k \<and> dict_get d k = None then Some v else dict_get d k')"
  by (auto simp: dict_setdefault_def split: option.splits)

lemma dict_keys_setdefault [dict_simps]:
  "dict_keys (dict_setdefault k v d) =
     (if k \<in> set (dict_keys d) then dict_keys d else dict_keys d @ [k])"
proof (cases "dict_get d k")
  case None
  then show ?thesis by (simp add: dict_setdefault_def dict_keys_set)
next
  case (Some w)
  then have "k \<in> set (dict_keys d)" unfolding dict_get_in_keys by simp
  with Some show ?thesis by (simp add: dict_setdefault_def)
qed

subsection \<open>Lists\<close>

text \<open>\<open>enumerate(xs)\<close>, with Python's order of the pair.\<close>

definition enum :: "'a list \<Rightarrow> (nat \<times> 'a) list" where
  "enum xs = List.enumerate 0 xs"

lemma length_enum [simp]: "length (enum xs) = length xs"
  by (simp add: enum_def)

lemma map_snd_enum [simp]: "map snd (enum xs) = xs"
  by (simp add: enum_def)

lemma map_fst_enum [simp]: "map fst (enum xs) = [0..<length xs]"
  by (simp add: enum_def)

lemma nth_enum [simp]: "i < length xs \<Longrightarrow> enum xs ! i = (i, xs ! i)"
  by (simp add: enum_def nth_enumerate_eq)

lemma set_enum: "(i, x) \<in> set (enum xs) \<longleftrightarrow> i < length xs \<and> xs ! i = x"
  by (simp add: enum_def in_set_enumerate_eq)

lemma distinct_map_injI: "distinct xs \<Longrightarrow> (\<And>x y. f x = f y \<Longrightarrow> x = y) \<Longrightarrow> distinct (map f xs)"
  by (simp add: distinct_map inj_on_def)

lemma sum_list_map_add:
  "sum_list (map (\<lambda>x. f x + g x) xs) = sum_list (map f xs) + (sum_list (map g xs) :: 'a :: comm_monoid_add)"
  by (induction xs) (simp_all add: ac_simps)

end
