(* ===== verification/PyStr.thy ===== *)
theory PyStr
  imports Prelude
begin

section \<open>Python strings, numbers and values\<close>

text \<open>
  The string methods, conversions and formats of Python that the harness uses, on ASCII
  strings: \<open>split\<close>, \<open>strip\<close>, \<open>join\<close>, \<open>in\<close>, \<open>startswith\<close>, \<open>lower\<close>, \<open>int()\<close>, \<open>float()\<close>,
  \<open>str()\<close>, \<open>round()\<close> and the fixed-point formats. A finite float is the rational number it
  denotes; rounding to binary64 is not modelled. NaN and the infinities are kept, because
  validation code compares them.
\<close>

subsection \<open>Characters\<close>

definition is_space :: "char \<Rightarrow> bool" where
  "is_space c \<longleftrightarrow> c \<in> {CHR 0x09, CHR 0x0A, CHR 0x0B, CHR 0x0C, CHR 0x0D,
     CHR 0x1C, CHR 0x1D, CHR 0x1E, CHR 0x1F, CHR '' ''}"

definition is_digit :: "char \<Rightarrow> bool" where
  "is_digit c \<longleftrightarrow> c \<in> set ''0123456789''"

definition digit_val :: "char \<Rightarrow> nat" where
  "digit_val c = of_char c - 48"

definition digit_char :: "nat \<Rightarrow> char" where
  "digit_char d = ''0123456789'' ! d"

definition lower_char :: "char \<Rightarrow> char" where
  "lower_char c = (if 65 \<le> (of_char c :: nat) \<and> (of_char c :: nat) \<le> 90
     then char_of (of_char c + 32 :: nat) else c)"

lemma digit_cases: "d < 10 \<Longrightarrow> d \<in> {0, 1, 2, 3, 4, 5, 6, 7, 8, 9 :: nat}"
  by auto

lemma digit_char_props:
  assumes "d < 10"
  shows "digit_val (digit_char d) = d" and "is_digit (digit_char d)"
  using digit_cases [OF assms] by (auto simp: digit_val_def digit_char_def is_digit_def)

lemma is_digit_not_space: "is_digit c \<Longrightarrow> \<not> is_space c"
  by (auto simp: is_digit_def is_space_def)

lemma is_digit_neq:
  "is_digit c \<Longrightarrow> c \<noteq> CHR ''-''" "is_digit c \<Longrightarrow> c \<noteq> CHR ''+''" "is_digit c \<Longrightarrow> c \<noteq> CHR ''_''"
  "is_digit c \<Longrightarrow> c \<noteq> CHR '':''" "is_digit c \<Longrightarrow> c \<noteq> CHR '' ''" "is_digit c \<Longrightarrow> c \<noteq> CHR ''/''"
  "is_digit c \<Longrightarrow> c \<noteq> CHR 0x27" "is_digit c \<Longrightarrow> c \<noteq> CHR ''.''" "is_digit c \<Longrightarrow> c \<noteq> CHR '',''"
  by (auto simp: is_digit_def)

subsection \<open>Splitting, joining, stripping\<close>

fun split_by :: "(char \<Rightarrow> bool) \<Rightarrow> string \<Rightarrow> string list" where
  "split_by p [] = [[]]"
| "split_by p (x # xs) =
     (if p x then [] # split_by p xs
      else (case split_by p xs of [] \<Rightarrow> [[x]] | w # ws \<Rightarrow> (x # w) # ws))"

text \<open>\<open>s.split(c)\<close> for a one-character separator, and \<open>s.split()\<close>.\<close>

definition py_split :: "char \<Rightarrow> string \<Rightarrow> string list" where
  "py_split c s = split_by (\<lambda>x. x = c) s"

definition py_words :: "string \<Rightarrow> string list" where
  "py_words s = filter (\<lambda>w. w \<noteq> []) (split_by is_space s)"

fun py_join :: "string \<Rightarrow> string list \<Rightarrow> string" where
  "py_join sep [] = []"
| "py_join sep [x] = x"
| "py_join sep (x # y # ys) = x @ sep @ py_join sep (y # ys)"

definition py_lstrip :: "string \<Rightarrow> string" where
  "py_lstrip s = dropWhile is_space s"

definition py_rstrip :: "string \<Rightarrow> string" where
  "py_rstrip s = rev (dropWhile is_space (rev s))"

definition py_strip :: "string \<Rightarrow> string" where
  "py_strip s = py_rstrip (py_lstrip s)"

definition py_lower :: "string \<Rightarrow> string" where
  "py_lower s = map lower_char s"

definition starts_with :: "string \<Rightarrow> string \<Rightarrow> bool" where
  "starts_with p s \<longleftrightarrow> take (length p) s = p"

fun py_in :: "string \<Rightarrow> string \<Rightarrow> bool" where
  "py_in sub [] = (sub = [])"
| "py_in sub (c # cs) = (starts_with sub (c # cs) \<or> py_in sub cs)"

text \<open>\<open>s.partition(c)\<close> without the separator: what is before the first \<open>c\<close> and what is after.\<close>

definition py_partition :: "char \<Rightarrow> string \<Rightarrow> string \<times> string" where
  "py_partition c s = (takeWhile (\<lambda>x. x \<noteq> c) s, drop 1 (dropWhile (\<lambda>x. x \<noteq> c) s))"

definition LF :: char where
  "LF = CHR 0x0A"

definition CR :: char where
  "CR = CHR 0x0D"

text \<open>Universal newlines.\<close>

fun translate_newlines :: "string \<Rightarrow> string" where
  "translate_newlines [] = []"
| "translate_newlines [c] = [if c = CR then LF else c]"
| "translate_newlines (c # d # cs) =
     (if c = CR then (if d = LF then LF # translate_newlines cs else LF # translate_newlines (d # cs))
      else c # translate_newlines (d # cs))"

text \<open>
  Iteration over a text file, whose reader has translated the newlines, splits at newlines;
  \<open>s.splitlines()\<close> splits at every line boundary of ASCII, a carriage return and a newline counting
  as one. A final boundary ends the last line and does not start another.
\<close>

fun drop_last_empty :: "string list \<Rightarrow> string list" where
  "drop_last_empty [] = []"
| "drop_last_empty [w] = (if w = [] then [] else [w])"
| "drop_last_empty (w # v # ws) = w # drop_last_empty (v # ws)"

definition text_lines :: "string \<Rightarrow> string list" where
  "text_lines s = drop_last_empty (py_split (CHR 0x0A) s)"

definition is_line_break :: "char \<Rightarrow> bool" where
  "is_line_break c \<longleftrightarrow> c \<in> {CHR 0x0A, CHR 0x0B, CHR 0x0C, CHR 0x0D, CHR 0x1C, CHR 0x1D, CHR 0x1E}"

definition py_splitlines :: "string \<Rightarrow> string list" where
  "py_splitlines s = drop_last_empty (split_by is_line_break (translate_newlines s))"

lemma split_by_not_Nil [simp]: "split_by p s \<noteq> []"
  by (induction s) (auto split: list.splits)

lemma py_split_not_Nil [simp]: "py_split c s \<noteq> []"
  by (simp add: py_split_def)

lemma split_by_none: "(\<And>x. x \<in> set s \<Longrightarrow> \<not> p x) \<Longrightarrow> split_by p s = [s]"
  by (induction s) auto

lemma split_by_sep: "p c \<Longrightarrow> split_by p (a @ c # b) = split_by p a @ split_by p b"
  by (induction a) (auto split: list.splits)

lemma split_by_append:
  assumes "\<And>x. x \<in> set s \<Longrightarrow> \<not> p x" and "p c"
  shows "split_by p (s @ c # t) = s # split_by p t"
  using assms by (induction s) auto

lemma split_by_subset: "w \<in> set (split_by p s) \<Longrightarrow> set w \<subseteq> set s"
proof (induction s arbitrary: w)
  case (Cons a s)
  obtain v vs where v: "split_by p s = v # vs" by (cases "split_by p s") auto
  from Cons.IH [of v] Cons.IH [of w] Cons.prems v show ?case by (auto split: if_splits)
qed simp

lemma split_by_no_sep: "w \<in> set (split_by p s) \<Longrightarrow> x \<in> set w \<Longrightarrow> \<not> p x"
proof (induction s arbitrary: w)
  case (Cons a s)
  obtain v vs where v: "split_by p s = v # vs" by (cases "split_by p s") auto
  from Cons.IH [of v] Cons.IH [of w] Cons.prems v show ?case by (auto split: if_splits)
qed simp

lemma py_split_join:
  assumes "\<And>w. w \<in> set ws \<Longrightarrow> c \<notin> set w" and "ws \<noteq> []"
  shows "py_split c (py_join [c] ws) = ws"
  using assms
proof (induction "[c]" ws rule: py_join.induct)
  case (2 x)
  then show ?case by (auto simp: py_split_def intro: split_by_none)
next
  case (3 x y ys)
  then have "split_by (\<lambda>x. x = c) (x @ c # py_join [c] (y # ys)) = x # (y # ys)"
    by (subst split_by_append) (auto simp: py_split_def)
  then show ?case by (simp add: py_split_def)
qed simp

lemma py_join_split: "py_join [c] (py_split c s) = s"
proof (induction s)
  case Nil
  then show ?case by (simp add: py_split_def)
next
  case (Cons x xs)
  obtain w ws where w: "split_by (\<lambda>x. x = c) xs = w # ws"
    by (cases "split_by (\<lambda>x. x = c) xs") auto
  with Cons.IH have "py_join [c] (w # ws) = xs" by (simp add: py_split_def)
  with w show ?case by (cases ws) (auto simp: py_split_def)
qed

lemma py_join_Cons: "ws \<noteq> [] \<Longrightarrow> py_join sep (w # ws) = w @ sep @ py_join sep ws"
  by (cases ws) auto

lemma py_words_no_space: "w \<in> set (py_words s) \<Longrightarrow> w \<noteq> [] \<and> (\<forall>c \<in> set w. \<not> is_space c)"
  by (auto simp: py_words_def dest: split_by_no_sep)

lemma py_words_join:
  assumes "\<And>w. w \<in> set ws \<Longrightarrow> w \<noteq> [] \<and> (\<forall>c \<in> set w. \<not> is_space c)"
  shows "py_words (py_join '' '' ws) = ws"
  using assms
proof (induction "'' ''" ws rule: py_join.induct)
  case 1
  then show ?case by (simp add: py_words_def)
next
  case (2 x)
  then have "split_by is_space x = [x]" by (intro split_by_none) auto
  with 2 show ?case by (auto simp: py_words_def)
next
  case (3 x y ys)
  have "split_by is_space (x @ CHR '' '' # py_join '' '' (y # ys)) = x # split_by is_space (py_join '' '' (y # ys))"
    by (rule split_by_append) (use 3(2) in \<open>auto simp: is_space_def\<close>)
  with 3 show ?case by (auto simp: py_words_def)
qed

lemma py_strip_id: "s \<noteq> [] \<Longrightarrow> \<not> is_space (hd s) \<Longrightarrow> \<not> is_space (last s) \<Longrightarrow> py_strip s = s"
proof -
  assume a: "s \<noteq> []" "\<not> is_space (hd s)" "\<not> is_space (last s)"
  then have "dropWhile is_space s = s" by (simp add: dropWhile_eq_self_iff)
  moreover have "dropWhile is_space (rev s) = rev s"
    using a by (simp add: dropWhile_eq_self_iff hd_rev)
  ultimately show ?thesis by (simp add: py_strip_def py_lstrip_def py_rstrip_def)
qed

lemma starts_with_append [simp]: "starts_with p (p @ s)"
  by (simp add: starts_with_def)

lemma starts_with_iff: "starts_with p s \<longleftrightarrow> (\<exists>t. s = p @ t)"
  by (auto simp: starts_with_def) (metis append_take_drop_id)

lemma py_in_append: "py_in sub (a @ sub @ b)"
proof (induction a)
  case Nil
  have "starts_with sub (sub @ b)" by simp
  then show ?case by (cases "sub @ b") auto
qed simp

lemma py_in_split: "py_in sub s \<Longrightarrow> \<exists>a b. s = a @ sub @ b"
proof (induction s)
  case (Cons c cs)
  show ?case
  proof (cases "starts_with sub (c # cs)")
    case True
    then obtain t where "c # cs = [] @ sub @ t" by (auto simp: starts_with_iff)
    then show ?thesis by blast
  next
    case False
    with Cons obtain a b where "cs = a @ sub @ b" by auto
    then have "c # cs = (c # a) @ sub @ b" by simp
    then show ?thesis by blast
  qed
qed simp

lemma py_in_iff: "py_in sub s \<longleftrightarrow> (\<exists>a b. s = a @ sub @ b)"
  using py_in_append py_in_split by blast

subsection \<open>Integers in decimal\<close>

fun show_nat :: "nat \<Rightarrow> string" where
  "show_nat n = (if n < 10 then [digit_char n] else show_nat (n div 10) @ [digit_char (n mod 10)])"

declare show_nat.simps [simp del]

definition show_int :: "int \<Rightarrow> string" where
  "show_int i = (if i < 0 then CHR ''-'' # show_nat (nat (- i)) else show_nat (nat i))"

text \<open>
  \<open>int(s)\<close>: surrounding space is ignored, one sign is allowed, and single underscores may
  stand between digits.
\<close>

fun parse_digits :: "nat \<Rightarrow> bool \<Rightarrow> string \<Rightarrow> nat option" where
  "parse_digits n prev [] = (if prev then Some n else None)"
| "parse_digits n prev (c # cs) =
     (if is_digit c then parse_digits (10 * n + digit_val c) True cs
      else if c = CHR ''_'' \<and> prev then parse_digits n False cs
      else None)"

definition parse_signed :: "string \<Rightarrow> int option" where
  "parse_signed t =
     (case t of
        [] \<Rightarrow> None
      | c # r \<Rightarrow>
          if c = CHR ''-'' then map_option (\<lambda>n. - int n) (parse_digits 0 False r)
          else if c = CHR ''+'' then map_option int (parse_digits 0 False r)
          else map_option int (parse_digits 0 False t))"

definition int_of_string :: "string \<Rightarrow> int option" where
  "int_of_string s = parse_signed (py_strip s)"

lemma show_nat_digits: "c \<in> set (show_nat n) \<Longrightarrow> is_digit c"
proof (induction n rule: show_nat.induct)
  case (1 n)
  then show ?case
    by (subst (asm) show_nat.simps) (auto split: if_splits intro: digit_char_props)
qed

lemma show_nat_not_Nil [simp]: "show_nat n \<noteq> []"
  by (subst show_nat.simps) simp

lemma parse_digits_append:
  "(\<forall>c \<in> set xs. is_digit c) \<Longrightarrow> xs \<noteq> [] \<Longrightarrow>
     parse_digits n prev (xs @ ys) = parse_digits (foldl (\<lambda>a c. 10 * a + digit_val c) n xs) True ys"
proof (induction xs arbitrary: n prev)
  case (Cons x xs)
  then show ?case by (cases "xs = []") auto
qed simp

lemma parse_show_nat_aux:
  "foldl (\<lambda>a c. 10 * a + digit_val c) 0 (show_nat n) = n"
proof (induction n rule: show_nat.induct)
  case (1 n)
  then show ?case
    by (subst show_nat.simps) (auto simp: digit_char_props)
qed

lemma parse_show_nat: "parse_digits 0 prev (show_nat n) = Some n"
  using parse_digits_append [of "show_nat n" 0 prev "[]"]
  by (auto simp: parse_show_nat_aux dest: show_nat_digits)

lemma show_nat_hd_last: "is_digit (hd (show_nat n))" "is_digit (last (show_nat n))"
  by (auto intro: show_nat_digits [of _ n])

lemma show_int_cases:
  "show_int i = (if i < 0 then CHR ''-'' # show_nat (nat (- i)) else show_nat (nat i))"
  by (simp add: show_int_def)

lemma int_of_show_int: "int_of_string (show_int i) = Some i"
proof -
  have minus: "\<not> is_space (CHR ''-'')" by (simp add: is_space_def)
  have hd: "\<not> is_space (hd (show_int i))" and last: "\<not> is_space (last (show_int i))"
    and ne: "show_int i \<noteq> []"
    using minus show_nat_hd_last is_digit_not_space by (auto simp: show_int_def)
  have strip: "py_strip (show_int i) = show_int i"
    using ne hd last by (rule py_strip_id)
  obtain c r where cr: "show_nat (nat i) = c # r" "is_digit c"
    using show_nat_hd_last(1) [of "nat i"] by (cases "show_nat (nat i)") auto
  show ?thesis
  proof (cases "i < 0")
    case True
    then show ?thesis
      unfolding int_of_string_def strip by (simp add: parse_signed_def show_int_def parse_show_nat)
  next
    case False
    then show ?thesis
      unfolding int_of_string_def strip
      using cr is_digit_neq parse_show_nat [of False "nat i"]
      by (auto simp: parse_signed_def show_int_def)
  qed
qed

text \<open>
  The print/parse contract of a decimal format, and what follows from it: the printer never
  maps two values to one string.
\<close>

locale print_parse =
  fixes print :: "'a \<Rightarrow> string" and parse :: "string \<Rightarrow> 'a option"
  assumes parse_print: "parse (print x) = Some x"
begin

lemma print_inject: "print x = print y \<longleftrightarrow> x = y"
  by (metis parse_print option.inject)

lemma map_print_inject: "map print xs = map print ys \<longleftrightarrow> xs = ys"
  by (metis (mono_tags) inj_map_eq_map injI print_inject)

lemma distinct_map_print: "distinct (map print xs) = distinct xs"
  by (simp add: distinct_map inj_on_def print_inject)

end

interpretation pint: print_parse show_int int_of_string
  by unfold_locales (rule int_of_show_int)

interpretation pnat: print_parse show_nat "parse_digits 0 False"
  by unfold_locales (rule parse_show_nat)

lemma show_nat_no_char: "\<not> is_digit c \<Longrightarrow> c \<notin> set (show_nat n)"
  by (auto dest: show_nat_digits)

lemma takeWhile_digits_show_nat:
  "\<not> is_digit c \<Longrightarrow> takeWhile is_digit (show_nat n @ c # t) = show_nat n"
  by (subst takeWhile_append2) (auto dest: show_nat_digits)

text \<open>Numbers printed in front of a non-digit can be read back, whatever follows.\<close>

lemma show_nat_append_eq:
  assumes "\<not> is_digit c" and "show_nat n @ c # s = show_nat m @ c # t"
  shows "n = m \<and> s = t"
proof -
  have "takeWhile is_digit (show_nat n @ c # s) = takeWhile is_digit (show_nat m @ c # t)"
    using assms(2) by simp
  then have "show_nat n = show_nat m"
    using assms(1) by (simp add: takeWhile_digits_show_nat)
  then show ?thesis using assms(2) by (simp add: pnat.print_inject)
qed

subsection \<open>Floats\<close>

datatype pyfloat = Fin rat | PInf | NInf | NaN

fun pf_lt :: "pyfloat \<Rightarrow> pyfloat \<Rightarrow> bool" where
  "pf_lt (Fin a) (Fin b) = (a < b)"
| "pf_lt (Fin a) PInf = True"
| "pf_lt NInf (Fin b) = True"
| "pf_lt NInf PInf = True"
| "pf_lt _ _ = False"

fun pf_eq :: "pyfloat \<Rightarrow> pyfloat \<Rightarrow> bool" where
  "pf_eq (Fin a) (Fin b) = (a = b)"
| "pf_eq PInf PInf = True"
| "pf_eq NInf NInf = True"
| "pf_eq _ _ = False"

definition pf_le :: "pyfloat \<Rightarrow> pyfloat \<Rightarrow> bool" where
  "pf_le a b \<longleftrightarrow> pf_lt a b \<or> pf_eq a b"

fun pf_add :: "pyfloat \<Rightarrow> pyfloat \<Rightarrow> pyfloat" where
  "pf_add (Fin a) (Fin b) = Fin (a + b)"
| "pf_add NaN _ = NaN"
| "pf_add _ NaN = NaN"
| "pf_add PInf NInf = NaN"
| "pf_add NInf PInf = NaN"
| "pf_add PInf _ = PInf"
| "pf_add _ PInf = PInf"
| "pf_add NInf _ = NInf"
| "pf_add _ NInf = NInf"

definition pf_of_int :: "int \<Rightarrow> pyfloat" where
  "pf_of_int i = Fin (of_int i)"

text \<open>A finite float is truthy unless it is zero; infinities and NaN are truthy.\<close>

definition pf_truthy :: "pyfloat \<Rightarrow> bool" where
  "pf_truthy x \<longleftrightarrow> x \<noteq> Fin 0"

lemma pf_le_Fin [simp]: "pf_le (Fin a) (Fin b) \<longleftrightarrow> a \<le> b"
  by (auto simp: pf_le_def)

lemma pf_le_finite: "pf_le (Fin a) x \<Longrightarrow> pf_lt x (Fin b) \<Longrightarrow> \<exists>r. x = Fin r \<and> a \<le> r \<and> r < b"
  by (cases x) (auto simp: pf_le_def)

lemma pf_lt_finite: "pf_lt (Fin a) x \<Longrightarrow> pf_lt x (Fin b) \<Longrightarrow> \<exists>r. x = Fin r \<and> a < r \<and> r < b"
  by (cases x) auto

lemma pf_le_le_finite: "pf_le (Fin a) x \<Longrightarrow> pf_le x (Fin b) \<Longrightarrow> \<exists>r. x = Fin r \<and> a \<le> r \<and> r \<le> b"
  by (cases x) (auto simp: pf_le_def)

text \<open>\<open>float(s)\<close>: sign, \<open>inf\<close>/\<open>infinity\<close>/\<open>nan\<close> in any case, or decimal digits with an optional
  point and exponent.\<close>

definition pow10 :: "int \<Rightarrow> rat" where
  "pow10 e = (if 0 \<le> e then 10 ^ nat e else 1 / 10 ^ nat (- e))"

definition parse_mantissa :: "string \<Rightarrow> rat option" where
  "parse_mantissa m =
     (let (ip, fp) = py_partition (CHR ''.'') m in
      if ip = [] \<and> fp = [] then None
      else case (if ip = [] then Some 0 else parse_digits 0 False ip) of
        None \<Rightarrow> None
      | Some i \<Rightarrow>
          (case (if fp = [] then Some 0 else parse_digits 0 False fp) of
             None \<Rightarrow> None
           | Some f \<Rightarrow> Some (of_nat i + of_nat f / 10 ^ length (filter is_digit fp))))"

definition parse_unsigned_float :: "string \<Rightarrow> pyfloat option" where
  "parse_unsigned_float u =
     (if u = ''inf'' \<or> u = ''infinity'' then Some PInf
      else if u = ''nan'' then Some NaN
      else if CHR ''e'' \<in> set u then
        (let (m, e) = py_partition (CHR ''e'') u in
         case parse_mantissa m of
           None \<Rightarrow> None
         | Some x \<Rightarrow> map_option (\<lambda>k. Fin (x * pow10 k)) (parse_signed e))
      else map_option Fin (parse_mantissa u))"

fun pf_neg :: "pyfloat \<Rightarrow> pyfloat" where
  "pf_neg (Fin a) = Fin (- a)"
| "pf_neg PInf = NInf"
| "pf_neg NInf = PInf"
| "pf_neg NaN = NaN"

definition float_of_string :: "string \<Rightarrow> pyfloat option" where
  "float_of_string s =
     (case py_lower (py_strip s) of
        [] \<Rightarrow> None
      | c # r \<Rightarrow>
          if c = CHR ''-'' then map_option pf_neg (parse_unsigned_float r)
          else if c = CHR ''+'' then parse_unsigned_float r
          else parse_unsigned_float (c # r))"

text \<open>\<open>round(x, d)\<close> rounds half to even.\<close>

definition round_half_even :: "rat \<Rightarrow> int" where
  "round_half_even x =
     (let f = \<lfloor>x\<rfloor>; r = x - of_int f in
      if r < 1 / 2 then f else if r > 1 / 2 then f + 1
      else if even f then f else f + 1)"

definition py_round :: "rat \<Rightarrow> nat \<Rightarrow> rat" where
  "py_round x d = of_int (round_half_even (x * 10 ^ d)) / 10 ^ d"

text \<open>\<open>f'{x:.df}'\<close>.\<close>

definition pad_left :: "nat \<Rightarrow> char \<Rightarrow> string \<Rightarrow> string" where
  "pad_left w c s = replicate (w - length s) c @ s"

definition fmt_fixed :: "nat \<Rightarrow> rat \<Rightarrow> string" where
  "fmt_fixed d x =
     (let n = round_half_even (\<bar>x\<bar> * 10 ^ d); q = nat n div 10 ^ d; r = nat n mod 10 ^ d in
      (if x < 0 then ''-'' else []) @ show_nat q @
      (if d = 0 then [] else CHR ''.'' # pad_left d (CHR ''0'') (show_nat r)))"

text \<open>
  \<open>repr\<close> of a float: the shortest decimal, in exponent notation below \<open>1e-4\<close> and from \<open>1e16\<close>
  on. At most 17 digits after the point are produced.
\<close>

fun dec_places :: "nat \<Rightarrow> nat \<Rightarrow> rat \<Rightarrow> nat" where
  "dec_places 0 k x = k"
| "dec_places (Suc fuel) k x = (if of_int \<lfloor>x\<rfloor> = x then k else dec_places fuel (Suc k) (10 * x))"

fun dec_exp :: "nat \<Rightarrow> int \<Rightarrow> rat \<Rightarrow> int" where
  "dec_exp 0 e x = e"
| "dec_exp (Suc fuel) e x =
     (if x \<ge> 10 then dec_exp fuel (e + 1) (x / 10)
      else if x < 1 then dec_exp fuel (e - 1) (x * 10) else e)"

definition show_pos_rat :: "rat \<Rightarrow> string" where
  "show_pos_rat x =
     (if x = 0 \<or> (1 / 10000 \<le> x \<and> x < 10 ^ 16) then
        fmt_fixed (max 1 (dec_places 17 0 x)) x
      else
        let e = dec_exp 400 0 x; m = x / pow10 e; k = dec_places 17 0 m in
        fmt_fixed k m @ ''e'' @ (if e < 0 then ''-'' else ''+'') @
          pad_left 2 (CHR ''0'') (show_nat (nat \<bar>e\<bar>)))"

fun show_float :: "pyfloat \<Rightarrow> string" where
  "show_float PInf = ''inf''"
| "show_float NInf = ''-inf''"
| "show_float NaN = ''nan''"
| "show_float (Fin x) = (if x < 0 then ''-'' else []) @ show_pos_rat \<bar>x\<bar>"

subsection \<open>Dynamically typed values\<close>

datatype pyval = PNone | PBool bool | PInt int | PFloat pyfloat | PStr string

fun py_truthy :: "pyval \<Rightarrow> bool" where
  "py_truthy PNone = False"
| "py_truthy (PBool b) = b"
| "py_truthy (PInt i) = (i \<noteq> 0)"
| "py_truthy (PFloat x) = pf_truthy x"
| "py_truthy (PStr s) = (s \<noteq> [])"

text \<open>\<open>a or b\<close>.\<close>

definition py_or :: "pyval \<Rightarrow> pyval \<Rightarrow> pyval" where
  "py_or a b = (if py_truthy a then a else b)"

definition trunc_rat :: "rat \<Rightarrow> int" where
  "trunc_rat x = (if x < 0 then \<lceil>x\<rceil> else \<lfloor>x\<rfloor>)"

fun py_int :: "pyval \<Rightarrow> int res" where
  "py_int PNone = Inl (TypeError ''int() argument must not be NoneType'')"
| "py_int (PBool b) = Inr (if b then 1 else 0)"
| "py_int (PInt i) = Inr i"
| "py_int (PFloat (Fin x)) = Inr (trunc_rat x)"
| "py_int (PFloat PInf) = Inl (OverflowError ''cannot convert float infinity to integer'')"
| "py_int (PFloat NInf) = Inl (OverflowError ''cannot convert float infinity to integer'')"
| "py_int (PFloat NaN) = Inl (ValueError ''cannot convert float NaN to integer'')"
| "py_int (PStr s) =
     (case int_of_string s of
        None \<Rightarrow> Inl (ValueError (''invalid literal for int() with base 10: '' @ s))
      | Some i \<Rightarrow> Inr i)"

fun py_float :: "pyval \<Rightarrow> pyfloat res" where
  "py_float PNone = Inl (TypeError ''float() argument must not be NoneType'')"
| "py_float (PBool b) = Inr (Fin (if b then 1 else 0))"
| "py_float (PInt i) = Inr (pf_of_int i)"
| "py_float (PFloat x) = Inr x"
| "py_float (PStr s) =
     (case float_of_string s of
        None \<Rightarrow> Inl (ValueError (''could not convert string to float: '' @ s))
      | Some x \<Rightarrow> Inr x)"

fun py_str :: "pyval \<Rightarrow> string" where
  "py_str PNone = ''None''"
| "py_str (PBool b) = (if b then ''True'' else ''False'')"
| "py_str (PInt i) = show_int i"
| "py_str (PFloat x) = show_float x"
| "py_str (PStr s) = s"

subsection \<open>JSON documents\<close>

text \<open>
  The value \<open>json.load\<close> returns. Objects keep the order of their members. Subscripting by a
  string raises \<open>KeyError\<close> on an object without the key and \<open>TypeError\<close> on anything else.
\<close>

datatype jval = JNull | JBool bool | JInt int | JFloat pyfloat | JStr string
  | JList "jval list" | JObj "(string \<times> jval) list"

fun jget :: "jval \<Rightarrow> string \<Rightarrow> jval res" where
  "jget (JObj ms) k = (case map_of ms k of None \<Rightarrow> Inl (KeyError k) | Some v \<Rightarrow> Inr v)"
| "jget _ k = Inl (TypeError ''indices must be integers'')"

text \<open>\<open>csv.DictWriter\<close> writes \<open>str(v)\<close>, and nothing for \<open>None\<close>.\<close>

fun csv_cell :: "jval \<Rightarrow> string" where
  "csv_cell JNull = []"
| "csv_cell (JBool b) = (if b then ''True'' else ''False'')"
| "csv_cell (JInt i) = show_int i"
| "csv_cell (JFloat x) = show_float x"
| "csv_cell (JStr s) = s"
| "csv_cell (JList xs) = ''[...]''"
| "csv_cell (JObj ms) = ''{...}''"

lemma py_int_show_int [simp]: "py_int (PStr (show_int i)) = Inr i"
  by (simp add: int_of_show_int)

lemma py_int_str_int: "py_int (PStr (py_str (PInt i))) = py_int (PInt i)"
  by (simp add: int_of_show_int)

lemma show_int_not_Nil [simp]: "show_int i \<noteq> []"
  by (simp add: show_int_def)

lemma round_half_even_of_int [simp]: "round_half_even (of_int i) = i"
  by (simp add: round_half_even_def)

lemma round_half_even_mono: "x \<le> y \<Longrightarrow> round_half_even x \<le> round_half_even y"
proof -
  assume le: "x \<le> y"
  then have f: "\<lfloor>x\<rfloor> \<le> \<lfloor>y\<rfloor>" by (rule floor_mono)
  show ?thesis
  proof (cases "\<lfloor>x\<rfloor> = \<lfloor>y\<rfloor>")
    case True
    with le show ?thesis by (auto simp: round_half_even_def Let_def)
  next
    case False
    with f show ?thesis by (auto simp: round_half_even_def Let_def)
  qed
qed

lemma round_half_even_close: "\<bar>of_int (round_half_even x) - x\<bar> \<le> 1 / 2"
proof -
  have "of_int \<lfloor>x\<rfloor> \<le> x" "x < of_int \<lfloor>x\<rfloor> + 1" by linarith+
  then show ?thesis by (auto simp: round_half_even_def Let_def abs_le_iff)
qed

lemma py_round_mono: "x \<le> y \<Longrightarrow> py_round x d \<le> py_round y d"
  by (simp add: py_round_def divide_right_mono round_half_even_mono)

lemma py_round_nonneg: "0 \<le> x \<Longrightarrow> 0 \<le> py_round x d"
  using py_round_mono [of 0 x d] round_half_even_of_int [of 0] by (simp add: py_round_def)

end
