(* ===== verification/Netem.thy ===== *)
theory Netem
  imports PyStr
begin

section \<open>Network latency injection (benchmark/benchmark/netem.py)\<close>

text \<open>
  The pairwise delays, the \<open>tc\<close> commands each replica host runs, and the parsing of
  \<open>ip route get\<close> and \<open>ping\<close> output. A small interpreter of the \<open>tc\<close> commands (qdisc prio,
  netem, u32 filters, as documented in tc(8)) gives the delay a host adds to its packets
  towards an address; the main lemma says that the commands realise the pairwise maximum.
\<close>

subsection \<open>Pairwise delays\<close>

fun pair_items :: "(nat, int) dict \<Rightarrow> nat list \<Rightarrow> ((nat \<times> nat) \<times> int) list" where
  "pair_items lats [] = []"
| "pair_items lats (a # rest) =
     [((a, b), max (dict_get_or lats a 0) (dict_get_or lats b 0)).
        b \<leftarrow> rest, 0 < max (dict_get_or lats a 0) (dict_get_or lats b 0)]
     @ pair_items lats rest"

definition compute_pairwise_delays :: "(nat, int) dict \<Rightarrow> (nat \<times> nat, int) dict" where
  "compute_pairwise_delays lats = dict_update (pair_items lats (sort (dict_keys lats))) []"

lemma pair_items_keys:
  "((a, b), d) \<in> set (pair_items lats idxs) \<Longrightarrow>
     a \<in> set idxs \<and> b \<in> set idxs \<and> d = max (dict_get_or lats a 0) (dict_get_or lats b 0) \<and> 0 < d"
  by (induction idxs) auto

lemma pair_items_less:
  "sorted_wrt (<) idxs \<Longrightarrow> ((a, b), d) \<in> set (pair_items lats idxs) \<Longrightarrow> a < b"
  by (induction idxs) auto

lemma pair_items_complete:
  assumes "sorted_wrt (<) idxs" "a \<in> set idxs" "b \<in> set idxs" "a < b"
    and "0 < max (dict_get_or lats a 0) (dict_get_or lats b 0)"
  shows "((a, b), max (dict_get_or lats a 0) (dict_get_or lats b 0)) \<in> set (pair_items lats idxs)"
  using assms by (induction idxs) auto

lemma pair_items_functional:
  "((a, b), d) \<in> set (pair_items lats idxs) \<Longrightarrow> ((a, b), d') \<in> set (pair_items lats idxs) \<Longrightarrow> d = d'"
  by (auto dest!: pair_items_keys)

lemma map_of_functional:
  assumes "\<And>v'. (k, v') \<in> set kvs \<Longrightarrow> v' = v" and "(k, v) \<in> set kvs"
  shows "map_of kvs k = Some v"
  using assms by (metis map_of_SomeD weak_map_of_SomeI)

lemma sorted_dict_keys: "distinct (dict_keys d) \<Longrightarrow> sorted_wrt (<) (sort (dict_keys d))"
  by (simp add: strict_sorted_iff)

lemma pairwise_get_Some:
  assumes d: "distinct (dict_keys lats)"
    and ab: "a \<in> set (dict_keys lats)" "b \<in> set (dict_keys lats)" "a < b"
    and pos: "0 < max (dict_get_or lats a 0) (dict_get_or lats b 0)"
  shows "dict_get (compute_pairwise_delays lats) (a, b) =
    Some (max (dict_get_or lats a 0) (dict_get_or lats b 0))"
proof -
  define kvs where "kvs = pair_items lats (sort (dict_keys lats))"
  define m where "m = max (dict_get_or lats a 0) (dict_get_or lats b 0)"
  have mem: "((a, b), m) \<in> set (rev kvs)"
    unfolding kvs_def m_def set_rev
    by (rule pair_items_complete [OF sorted_dict_keys [OF d]]) (simp_all only: set_sort ab pos)
  have uniq: "v = m" if "((a, b), v) \<in> set (rev kvs)" for v
    using pair_items_keys [OF that [unfolded set_rev kvs_def]] by (simp only: m_def)
  have "map_of (rev kvs) (a, b) = Some m"
    using uniq mem by (rule map_of_functional)
  then show ?thesis
    by (simp only: compute_pairwise_delays_def dict_get_update kvs_def m_def option.case)
qed

lemma pairwise_get_SomeD:
  assumes d: "distinct (dict_keys lats)"
    and g: "dict_get (compute_pairwise_delays lats) (a, b) = Some v"
  shows "a \<in> set (dict_keys lats) \<and> b \<in> set (dict_keys lats) \<and> a < b \<and> 0 < v \<and>
    v = max (dict_get_or lats a 0) (dict_get_or lats b 0)"
proof -
  define kvs where "kvs = pair_items lats (sort (dict_keys lats))"
  have "map_of (rev kvs) (a, b) = Some v"
    using g by (cases "map_of (rev kvs) (a, b)")
      (simp_all add: compute_pairwise_delays_def dict_get_update kvs_def)
  then have mem: "((a, b), v) \<in> set kvs" by (auto dest: map_of_SomeD)
  show ?thesis
    using pair_items_keys [OF mem [unfolded kvs_def]]
      pair_items_less [OF sorted_dict_keys [OF d] mem [unfolded kvs_def]] by simp
qed

subsection \<open>The outbound interface\<close>

text \<open>\<open>for token, nxt in zip(tokens, tokens[1:])\<close>: the token after the first \<open>dev\<close>.\<close>

fun after_dev :: "string list \<Rightarrow> string option" where
  "after_dev (t # n # ts) = (if t = ''dev'' then Some n else after_dev (n # ts))"
| "after_dev _ = None"

definition route_get_command :: "string \<Rightarrow> string" where
  "route_get_command peer_ip = ''ip route get '' @ peer_ip"

definition discover_iface :: "string \<Rightarrow> string \<Rightarrow> string \<times> string \<Rightarrow> string res" where
  "discover_iface host peer_ip out =
     (case after_dev (py_words (fst out)) of
        Some nxt \<Rightarrow> Inr nxt
      | None \<Rightarrow> Inl (NetemError (''could not determine outbound interface on '' @ host @
          '' toward '' @ peer_ip @ '': '' @ py_repr (fst out) @ '' '' @ py_repr (snd out))))"

lemma after_dev_token: "after_dev ts = Some n \<Longrightarrow> n \<in> set ts"
  by (induction ts rule: after_dev.induct) (auto split: if_splits)

lemma after_dev_skip: "''dev'' \<notin> set ts \<Longrightarrow> after_dev (ts @ ''dev'' # n # us) = Some n"
proof (induction ts)
  case (Cons t ts)
  then show ?case by (cases ts) auto
qed simp

lemma discover_iface_no_space:
  "discover_iface h p out = Inr i \<Longrightarrow> i \<noteq> [] \<and> (\<forall>c \<in> set i. \<not> is_space c)"
  by (auto simp: discover_iface_def split: option.splits dest!: after_dev_token py_words_no_space)

subsection \<open>Traffic-control commands\<close>

definition teardown_command :: "string \<Rightarrow> string" where
  "teardown_command iface = ''sudo tc qdisc del dev '' @ iface @ '' root 2>/dev/null; true''"

definition check_clean_command :: "string \<Rightarrow> string" where
  "check_clean_command iface = ''tc qdisc show dev '' @ iface"

definition my_peers ::
  "nat \<Rightarrow> (nat, string) dict \<Rightarrow> (nat \<times> nat, int) dict \<Rightarrow> (nat, int) dict" where
  "my_peers my_idx peer_ips delays =
     fold (\<lambda>((a, b), d) acc.
        if a = my_idx \<and> b \<in> set (dict_keys peer_ips) then dict_set b d acc
        else if b = my_idx \<and> a \<in> set (dict_keys peer_ips) then dict_set a d acc
        else acc) delays []"

definition prio_command :: "string \<Rightarrow> nat \<Rightarrow> string" where
  "prio_command iface n_bands =
     ''sudo tc qdisc add dev '' @ iface @ '' root handle 1: prio bands '' @ show_nat n_bands @
     '' priomap '' @ py_join '' '' (replicate 16 (show_nat (n_bands - 1)))"

definition netem_command :: "string \<Rightarrow> nat \<Rightarrow> int \<Rightarrow> string" where
  "netem_command iface band delay =
     ''sudo tc qdisc add dev '' @ iface @ '' parent 1:'' @ show_nat band @
     '' handle '' @ show_nat band @ ''0: netem delay '' @ show_int delay @ ''ms''"

definition filter_command :: "string \<Rightarrow> string \<Rightarrow> nat \<Rightarrow> string" where
  "filter_command iface ip band =
     ''sudo tc filter add dev '' @ iface @ '' parent 1:0 protocol ip u32 match ip dst '' @ ip @
     ''/32 flowid 1:'' @ show_nat band"

fun band_commands :: "string \<Rightarrow> (nat, string) dict \<Rightarrow> nat \<Rightarrow> (nat \<times> int) list \<Rightarrow> string list" where
  "band_commands iface peer_ips band [] = []"
| "band_commands iface peer_ips band ((peer, delay) # rest) =
     netem_command iface band delay
     # filter_command iface (dict_get_or peer_ips peer []) band
     # band_commands iface peer_ips (Suc band) rest"

definition setup_commands ::
  "nat \<Rightarrow> (nat, string) dict \<Rightarrow> (nat \<times> nat, int) dict \<Rightarrow> string \<Rightarrow> string list" where
  "setup_commands my_idx peer_ips delays iface =
     (let peers = my_peers my_idx peer_ips delays; n_bands = length peers + 1 in
      if peers = [] then []
      else [teardown_command iface, prio_command iface n_bands]
        @ band_commands iface peer_ips 1 (sort_key fst peers)
        @ [netem_command iface n_bands 0])"

subsection \<open>What the commands do: an interpreter of \<open>tc\<close>\<close>

text \<open>
  The state of one interface: the number of bands and the priority map of the root \<open>prio\<close>
  qdisc, the netem delay below each class, and the u32 filters in order. A packet goes to the
  class of the first filter that matches its destination, and otherwise to the band the
  priority map gives for its type of service, here 0. Classes without a netem qdisc, and
  interfaces without a root qdisc, add no delay.
\<close>

record tc =
  root_prio :: "(nat \<times> nat list) option"
  class_delay :: "(string, int) dict"
  u32 :: "(string \<times> string) list"

definition tc_cleared :: tc where
  "tc_cleared = \<lparr>root_prio = None, class_delay = [], u32 = []\<rparr>"

definition nat_of_token :: "string \<Rightarrow> nat" where
  "nat_of_token t = (case parse_digits 0 False t of None \<Rightarrow> 0 | Some n \<Rightarrow> n)"

definition ms_of_token :: "string \<Rightarrow> int" where
  "ms_of_token t = (case int_of_string (take (length t - 2) t) of None \<Rightarrow> 0 | Some n \<Rightarrow> n)"

definition tc_exec :: "string \<Rightarrow> tc \<Rightarrow> tc" where
  "tc_exec line st =
     (let ts = py_words line in
      if ts ! 3 = ''del'' then tc_cleared
      else if ts ! 2 = ''filter'' then st\<lparr>u32 := u32 st @ [(ts ! 14, ts ! 16)]\<rparr>
      else if ts ! 6 = ''root'' then
        st\<lparr>root_prio := Some (nat_of_token (ts ! 11), map nat_of_token (drop 13 ts))\<rparr>
      else st\<lparr>class_delay := dict_set (ts ! 7) (ms_of_token (ts ! 12)) (class_delay st)\<rparr>)"

definition class_id :: "nat \<Rightarrow> string" where
  "class_id band = ''1:'' @ show_nat band"

definition egress_delay :: "tc \<Rightarrow> string \<Rightarrow> int" where
  "egress_delay st ip =
     (case root_prio st of
        None \<Rightarrow> 0
      | Some (bands, pm) \<Rightarrow>
          (case map_of (u32 st) (ip @ ''/32'') of
             Some cls \<Rightarrow> dict_get_or (class_delay st) cls 0
           | None \<Rightarrow> dict_get_or (class_delay st) (class_id (pm ! 0 + 1)) 0))"

definition token_ok :: "string \<Rightarrow> bool" where
  "token_ok t \<longleftrightarrow> t \<noteq> [] \<and> (\<forall>c \<in> set t. \<not> is_space c)"

lemma token_ok_show [simp]: "token_ok (show_nat n)"
  by (auto simp: token_ok_def dest: show_nat_digits is_digit_not_space)

lemma token_ok_show_int [simp]: "token_ok (show_int i)"
proof -
  have "\<not> is_space (CHR ''-'')" by (simp add: is_space_def)
  then show ?thesis
    by (auto simp: token_ok_def show_int_def dest: show_nat_digits is_digit_not_space)
qed

lemma token_ok_append: "token_ok a \<Longrightarrow> (\<forall>c \<in> set b. \<not> is_space c) \<Longrightarrow> token_ok (a @ b)"
  by (auto simp: token_ok_def)

lemma token_ok_prepend: "token_ok b \<Longrightarrow> (\<forall>c \<in> set a. \<not> is_space c) \<Longrightarrow> token_ok (a @ b)"
  by (auto simp: token_ok_def)

lemma token_ok_Cons: "token_ok b \<Longrightarrow> \<not> is_space c \<Longrightarrow> token_ok (c # b)"
  by (auto simp: token_ok_def)

lemma token_ok_simps [simp]:
  "token_ok [] = False"
  "token_ok [c] = (\<not> is_space c)"
  "token_ok (c # d # cs) = (\<not> is_space c \<and> token_ok (d # cs))"
  by (auto simp: token_ok_def)

lemma words_of_tokens: "\<forall>t \<in> set ts. token_ok t \<Longrightarrow> py_words (py_join '' '' ts) = ts"
  by (rule py_words_join) (auto simp: token_ok_def)

lemma teardown_words:
  "token_ok iface \<Longrightarrow> py_words (teardown_command iface) =
     [''sudo'', ''tc'', ''qdisc'', ''del'', ''dev'', iface, ''root'', ''2>/dev/null;'', ''true'']"
  using words_of_tokens [of "[''sudo'', ''tc'', ''qdisc'', ''del'', ''dev'', iface, ''root'',
     ''2>/dev/null;'', ''true'']"]
  by (simp add: teardown_command_def is_space_def)

lemma prio_command_join:
  assumes "ws \<noteq> []"
  shows "''sudo tc qdisc add dev '' @ iface @ '' root handle 1: prio bands '' @ n @ '' priomap '' @
      py_join '' '' ws =
    py_join '' '' ([''sudo'', ''tc'', ''qdisc'', ''add'', ''dev'', iface, ''root'', ''handle'', ''1:'',
      ''prio'', ''bands'', n, ''priomap''] @ ws)"
proof -
  obtain y ys where "ws = y # ys" using assms by (meson neq_Nil_conv)
  then show ?thesis by simp
qed

lemma prio_words:
  assumes "token_ok iface"
  shows "py_words (prio_command iface n) =
     [''sudo'', ''tc'', ''qdisc'', ''add'', ''dev'', iface, ''root'', ''handle'', ''1:'',
      ''prio'', ''bands'', show_nat n, ''priomap''] @ replicate 16 (show_nat (n - 1))"
proof -
  define ws where "ws = replicate 16 (show_nat (n - 1))"
  have ne: "ws \<noteq> []" and ok: "\<forall>t \<in> set ws. token_ok t" by (auto simp: ws_def)
  show ?thesis
    unfolding prio_command_def ws_def [symmetric] prio_command_join [OF ne]
    by (rule words_of_tokens) (use assms ok in \<open>simp add: is_space_def\<close>)
qed

lemma netem_words:
  assumes "token_ok iface"
  shows "py_words (netem_command iface b d) =
     [''sudo'', ''tc'', ''qdisc'', ''add'', ''dev'', iface, ''parent'', class_id b, ''handle'',
      show_nat b @ ''0:'', ''netem'', ''delay'', show_int d @ ''ms'']"
proof -
  let ?ts = "[''sudo'', ''tc'', ''qdisc'', ''add'', ''dev'', iface, ''parent'', class_id b,
      ''handle'', show_nat b @ ''0:'', ''netem'', ''delay'', show_int d @ ''ms'']"
  have "netem_command iface b d = py_join '' '' ?ts"
    by (simp add: netem_command_def class_id_def)
  moreover have "token_ok (class_id b)"
    unfolding class_id_def by (rule token_ok_prepend) (simp_all add: is_space_def)
  moreover have "token_ok (show_nat b @ ''0:'')" "token_ok (show_int d @ ''ms'')"
    by (rule token_ok_append; simp add: is_space_def)+
  ultimately show ?thesis
    using assms words_of_tokens [of ?ts] by (simp add: is_space_def)
qed

lemma filter_words:
  assumes "token_ok iface" "token_ok ip"
  shows "py_words (filter_command iface ip b) =
     [''sudo'', ''tc'', ''filter'', ''add'', ''dev'', iface, ''parent'', ''1:0'', ''protocol'', ''ip'',
      ''u32'', ''match'', ''ip'', ''dst'', ip @ ''/32'', ''flowid'', class_id b]"
proof -
  let ?ts = "[''sudo'', ''tc'', ''filter'', ''add'', ''dev'', iface, ''parent'', ''1:0'', ''protocol'',
      ''ip'', ''u32'', ''match'', ''ip'', ''dst'', ip @ ''/32'', ''flowid'', class_id b]"
  have "filter_command iface ip b = py_join '' '' ?ts"
    by (simp add: filter_command_def class_id_def)
  moreover have "token_ok (class_id b)"
    unfolding class_id_def by (rule token_ok_prepend) (simp_all add: is_space_def)
  moreover have "token_ok (ip @ ''/32'')"
    by (rule token_ok_append [OF assms(2)]) (simp add: is_space_def)
  ultimately show ?thesis
    using assms words_of_tokens [of ?ts] by (simp add: is_space_def)
qed

lemma nat_of_token_show [simp]: "nat_of_token (show_nat n) = n"
  by (simp add: nat_of_token_def parse_show_nat)

lemma ms_of_token_show [simp]: "ms_of_token (show_int d @ ''ms'') = d"
  by (simp add: ms_of_token_def int_of_show_int)

lemma tc_exec_simps:
  "token_ok iface \<Longrightarrow> tc_exec (teardown_command iface) st = tc_cleared"
  "token_ok iface \<Longrightarrow> tc_exec (prio_command iface n) st = st\<lparr>root_prio := Some (n, replicate 16 (n - 1))\<rparr>"
  "token_ok iface \<Longrightarrow> tc_exec (netem_command iface b d) st =
     st\<lparr>class_delay := dict_set (class_id b) d (class_delay st)\<rparr>"
  "token_ok iface \<Longrightarrow> token_ok ip \<Longrightarrow> tc_exec (filter_command iface ip b) st =
     st\<lparr>u32 := u32 st @ [(ip @ ''/32'', class_id b)]\<rparr>"
  by (simp_all add: tc_exec_def teardown_words prio_words netem_words filter_words)

definition tc_run :: "string list \<Rightarrow> tc \<Rightarrow> tc" where
  "tc_run cmds st = fold tc_exec cmds st"

lemma class_id_inject [simp]: "class_id a = class_id b \<longleftrightarrow> a = b"
  by (simp add: class_id_def pnat.print_inject)

text \<open>The bands of a list of delayed peers: the filters and the class delays they add.\<close>

fun band_filters :: "(nat, string) dict \<Rightarrow> nat \<Rightarrow> (nat \<times> int) list \<Rightarrow> (string \<times> string) list" where
  "band_filters peer_ips k [] = []"
| "band_filters peer_ips k ((p, d) # ps) =
     (dict_get_or peer_ips p [] @ ''/32'', class_id k) # band_filters peer_ips (Suc k) ps"

fun band_classes :: "nat \<Rightarrow> (nat \<times> int) list \<Rightarrow> (string \<times> int) list" where
  "band_classes k [] = []"
| "band_classes k ((p, d) # ps) = (class_id k, d) # band_classes (Suc k) ps"

lemma tc_run_bands:
  assumes "token_ok iface" "\<forall>(p, d) \<in> set ps. token_ok (dict_get_or peer_ips p [])"
  shows "tc_run (band_commands iface peer_ips k ps) st =
    st\<lparr>class_delay := dict_update (band_classes k ps) (class_delay st),
       u32 := u32 st @ band_filters peer_ips k ps\<rparr>"
  using assms(2)
proof (induction ps arbitrary: k st)
  case Nil
  then show ?case by (simp add: tc_run_def)
next
  case (Cons pd ps)
  obtain p d where pd: "pd = (p, d)" by (cases pd)
  have "tc_run (band_commands iface peer_ips k (pd # ps)) st =
    tc_run (band_commands iface peer_ips (Suc k) ps)
      (st\<lparr>class_delay := dict_set (class_id k) d (class_delay st),
          u32 := u32 st @ [(dict_get_or peer_ips p [] @ ''/32'', class_id k)]\<rparr>)"
    using assms(1) Cons.prems by (simp add: tc_run_def tc_exec_simps pd)
  also have "\<dots> = st\<lparr>class_delay := dict_update (band_classes k (pd # ps)) (class_delay st),
       u32 := u32 st @ band_filters peer_ips k (pd # ps)\<rparr>"
    by (subst Cons.IH) (use Cons.prems pd in auto)
  finally show ?case .
qed

lemma band_classes_mem: "(c, d) \<in> set (band_classes k ps) \<Longrightarrow> \<exists>b. c = class_id b \<and> k \<le> b \<and> b < k + length ps"
proof (induction k ps rule: band_classes.induct)
  case (2 k p d' ps)
  then show ?case by (auto dest!: "2.IH" intro: less_imp_le)
qed simp

lemma band_classes_distinct: "distinct (map fst (band_classes k ps))"
proof (induction k ps rule: band_classes.induct)
  case (2 k p d ps)
  have "class_id k \<notin> fst ` set (band_classes (Suc k) ps)"
    by (auto dest!: band_classes_mem)
  with 2 show ?case by simp
qed simp

lemma band_lookup:
  assumes "(p, d) \<in> set ps" "distinct (map fst ps)"
    and "inj_on (\<lambda>q. dict_get_or peer_ips q []) (set (map fst ps))"
  shows "\<exists>b. map_of (band_filters peer_ips k ps) (dict_get_or peer_ips p [] @ ''/32'') = Some (class_id b)
     \<and> (class_id b, d) \<in> set (band_classes k ps)"
  using assms
proof (induction k ps rule: band_classes.induct)
  case (2 k q e ps)
  show ?case
  proof (cases "q = p")
    case True
    with 2(2,3) have "e = d" by force
    with True show ?thesis by auto
  next
    case False
    then have mem: "(p, d) \<in> set ps" using 2(2) by auto
    have "p \<in> set (map fst ((q, e) # ps))" "q \<in> set (map fst ((q, e) # ps))"
      using mem by force+
    then have "dict_get_or peer_ips q [] \<noteq> dict_get_or peer_ips p []"
      using 2(4) False by (meson inj_onD)
    moreover have "\<exists>b. map_of (band_filters peer_ips (Suc k) ps) (dict_get_or peer_ips p [] @ ''/32'')
        = Some (class_id b) \<and> (class_id b, d) \<in> set (band_classes (Suc k) ps)"
      using 2(3,4) by (intro "2.IH" mem) (auto simp: inj_on_def)
    ultimately show ?thesis by auto
  qed
qed simp

lemma band_filters_other:
  "(\<forall>(p, d) \<in> set ps. dict_get_or peer_ips p [] \<noteq> ip) \<Longrightarrow>
     map_of (band_filters peer_ips k ps) (ip @ ''/32'') = None"
  by (induction k ps rule: band_classes.induct) auto

subsection \<open>The delayed peers of a replica\<close>

text \<open>The assignment an item of the pairwise dictionary contributes, if it touches this host.\<close>

definition peer_item :: "nat \<Rightarrow> (nat, string) dict \<Rightarrow> (nat \<times> nat) \<times> int \<Rightarrow> (nat \<times> int) list" where
  "peer_item my_idx peer_ips = (\<lambda>((a, b), d).
     if a = my_idx \<and> b \<in> set (dict_keys peer_ips) then [(b, d)]
     else if b = my_idx \<and> a \<in> set (dict_keys peer_ips) then [(a, d)] else [])"

lemma my_peers_update:
  "my_peers my_idx peer_ips delays =
     dict_update (concat (map (peer_item my_idx peer_ips) delays)) []"
proof -
  have "fold (\<lambda>((a, b), d) acc.
        if a = my_idx \<and> b \<in> set (dict_keys peer_ips) then dict_set b d acc
        else if b = my_idx \<and> a \<in> set (dict_keys peer_ips) then dict_set a d acc
        else acc) delays acc =
      dict_update (concat (map (peer_item my_idx peer_ips) delays)) acc" for acc
    by (induction delays arbitrary: acc) (auto simp: peer_item_def dict_update_def)
  then show ?thesis by (simp add: my_peers_def)
qed

lemma pairwise_distinct: "distinct (dict_keys (compute_pairwise_delays lats))"
  by (simp add: compute_pairwise_delays_def dict_update_distinct)

text \<open>The delay the pairwise rule gives to the link between two replicas.\<close>

definition link_delay :: "(nat, int) dict \<Rightarrow> nat \<Rightarrow> nat \<Rightarrow> int" where
  "link_delay lats a b =
     (if a \<in> set (dict_keys lats) \<and> b \<in> set (dict_keys lats)
      then max 0 (max (dict_get_or lats a 0) (dict_get_or lats b 0)) else 0)"

lemma link_delay_sym: "link_delay lats a b = link_delay lats b a"
  by (simp add: link_delay_def max.commute)

lemma link_delay_pos:
  "0 < link_delay lats a b \<Longrightarrow> a \<in> set (dict_keys lats) \<and> b \<in> set (dict_keys lats) \<and>
     link_delay lats a b = max (dict_get_or lats a 0) (dict_get_or lats b 0)"
  by (simp add: link_delay_def max_def split: if_splits)

lemma link_delay_nonneg [simp]: "0 \<le> link_delay lats a b"
  by (simp add: link_delay_def)

lemma pairwise_mem:
  assumes d: "distinct (dict_keys lats)"
  shows "((a, b), v) \<in> set (compute_pairwise_delays lats) \<longleftrightarrow>
    a < b \<and> 0 < v \<and> v = link_delay lats a b" (is "?mem \<longleftrightarrow> ?rhs")
proof
  assume ?mem
  then have "dict_get (compute_pairwise_delays lats) (a, b) = Some v"
    by (simp add: map_of_eq_Some_iff pairwise_distinct)
  then show ?rhs
    using pairwise_get_SomeD [OF d] by (simp add: link_delay_def)
next
  assume r: ?rhs
  then have "dict_get (compute_pairwise_delays lats) (a, b) = Some v"
    using link_delay_pos [of lats a b] pairwise_get_Some [OF d, of a b] by metis
  then show ?mem by (rule map_of_SomeD)
qed

lemma peer_item_mem:
  assumes "my \<notin> set (dict_keys peer_ips)"
  shows "(p, v) \<in> set (concat (map (peer_item my peer_ips) items)) \<longleftrightarrow>
    p \<in> set (dict_keys peer_ips) \<and> (((my, p), v) \<in> set items \<or> ((p, my), v) \<in> set items)"
proof (induction items)
  case (Cons it items)
  obtain a b v' where it: "it = ((a, b), v')" by (metis surj_pair)
  have "(p, v) \<in> set (peer_item my peer_ips it) \<longleftrightarrow>
      p \<in> set (dict_keys peer_ips) \<and> (((my, p), v) = it \<or> ((p, my), v) = it)"
    using assms by (auto simp only: it peer_item_def split: if_splits prod.splits)
      (auto split: if_splits)
  with Cons.IH show ?case by (simp only: concat.simps list.map set_append Un_iff list.set insert_iff) blast
qed simp

lemma my_peers_item:
  assumes d: "distinct (dict_keys lats)" and my: "my \<notin> set (dict_keys peer_ips)"
  shows "(p, v) \<in> set (concat (map (peer_item my peer_ips) (compute_pairwise_delays lats))) \<longleftrightarrow>
    p \<in> set (dict_keys peer_ips) \<and> 0 < v \<and> v = link_delay lats my p"
  unfolding peer_item_mem [OF my] pairwise_mem [OF d] link_delay_sym [of lats p my]
  using my by (metis linorder_neqE_nat)

lemma my_peers_get:
  assumes d: "distinct (dict_keys lats)" and my: "my \<notin> set (dict_keys peer_ips)"
  shows "dict_get (my_peers my peer_ips (compute_pairwise_delays lats)) p =
    (if p \<in> set (dict_keys peer_ips) \<and> 0 < link_delay lats my p
     then Some (link_delay lats my p) else None)"
proof -
  define kvs where "kvs = concat (map (peer_item my peer_ips) (compute_pairwise_delays lats))"
  note item = my_peers_item [OF d my, folded kvs_def]
  have get: "dict_get (my_peers my peer_ips (compute_pairwise_delays lats)) p = map_of (rev kvs) p"
    unfolding my_peers_update kvs_def [symmetric] dict_get_update
    by (cases "map_of (rev kvs) p") simp_all
  show ?thesis
  proof (cases "p \<in> set (dict_keys peer_ips) \<and> 0 < link_delay lats my p")
    case True
    then have "map_of (rev kvs) p = Some (link_delay lats my p)"
      by (intro map_of_functional) (simp_all only: set_rev item simp_thms)
    with True get show ?thesis by (simp only: if_True simp_thms)
  next
    case False
    have "map_of (rev kvs) p = None"
    proof (rule ccontr)
      assume "map_of (rev kvs) p \<noteq> None"
      then obtain v where "(p, v) \<in> set kvs" by (auto dest: map_of_SomeD)
      with False show False unfolding item by blast
    qed
    with get have "dict_get (my_peers my peer_ips (compute_pairwise_delays lats)) p = None" by simp
    then show ?thesis unfolding if_not_P [OF False] .
  qed
qed

lemma my_peers_distinct: "distinct (dict_keys (my_peers my peer_ips delays))"
  by (simp add: my_peers_update dict_update_distinct)

subsection \<open>The commands realise the pairwise rule\<close>

text \<open>
  Peers whose addresses are distinct printable tokens, as the manifest gives them.
\<close>

definition peers_ok :: "(nat, string) dict \<Rightarrow> bool" where
  "peers_ok peer_ips \<longleftrightarrow> distinct (dict_keys peer_ips) \<and> distinct (map snd peer_ips)
     \<and> (\<forall>ip \<in> set (map snd peer_ips). token_ok ip)"

lemma peers_ok_get: "peers_ok peer_ips \<Longrightarrow> (p, ip) \<in> set peer_ips \<Longrightarrow> dict_get_or peer_ips p [] = ip"
  by (simp add: peers_ok_def dict_get_or_def)

lemma peers_ok_inj:
  assumes "peers_ok peer_ips"
  shows "inj_on (\<lambda>q. dict_get_or peer_ips q []) (set (dict_keys peer_ips))"
proof (rule inj_onI)
  fix p q
  assume "p \<in> set (dict_keys peer_ips)" "q \<in> set (dict_keys peer_ips)"
    and eq: "dict_get_or peer_ips p [] = dict_get_or peer_ips q []"
  then obtain a b where "(p, a) \<in> set peer_ips" "(q, b) \<in> set peer_ips" by auto
  moreover from this eq assms have "a = b" by (simp add: peers_ok_get)
  ultimately show "p = q"
    using assms by (metis peers_ok_def distinct_map inj_on_def prod.inject snd_conv)
qed

lemma setup_state:
  assumes iface: "token_ok iface" and ok: "peers_ok peer_ips"
    and sub: "set (dict_keys ps) \<subseteq> set (dict_keys peer_ips)"
  shows "tc_run ([teardown_command iface, prio_command iface (length ps + 1)]
        @ band_commands iface peer_ips 1 ps @ [netem_command iface (length ps + 1) 0]) st =
    \<lparr>root_prio = Some (length ps + 1, replicate 16 (length ps)),
     class_delay = dict_set (class_id (length ps + 1)) 0 (dict_update (band_classes 1 ps) []),
     u32 = band_filters peer_ips 1 ps\<rparr>"
proof -
  have tok: "\<forall>(p, d) \<in> set ps. token_ok (dict_get_or peer_ips p [])"
  proof clarify
    fix p d assume "(p, d) \<in> set ps"
    then have "p \<in> set (dict_keys peer_ips)" using sub by force
    then obtain ip where "(p, ip) \<in> set peer_ips" by auto
    with ok show "token_ok (dict_get_or peer_ips p [])"
      by (auto simp: peers_ok_get) (force simp: peers_ok_def)
  qed
  have split: "tc_run (xs @ ys) s = tc_run ys (tc_run xs s)" for xs ys s
    by (simp add: tc_run_def)
  show ?thesis
    unfolding split tc_run_bands [OF iface tok]
    by (simp add: tc_run_def tc_exec_simps iface tc_cleared_def del: replicate.simps)
qed

text \<open>The peers in band order, and the interface after the commands.\<close>

definition sorted_peers :: "nat \<Rightarrow> (nat, string) dict \<Rightarrow> (nat, int) dict \<Rightarrow> (nat \<times> int) list" where
  "sorted_peers my peer_ips lats = sort_key fst (my_peers my peer_ips (compute_pairwise_delays lats))"

definition shaped :: "(nat, string) dict \<Rightarrow> (nat \<times> int) list \<Rightarrow> tc" where
  "shaped peer_ips ps =
     (if ps = [] then tc_cleared else
      \<lparr>root_prio = Some (length ps + 1, replicate 16 (length ps)),
       class_delay = dict_set (class_id (length ps + 1)) 0 (dict_update (band_classes 1 ps) []),
       u32 = band_filters peer_ips 1 ps\<rparr>)"

lemma sorted_peers_distinct: "distinct (dict_keys (sorted_peers my peer_ips lats))"
proof -
  have "mset (dict_keys (sorted_peers my peer_ips lats)) =
      mset (dict_keys (my_peers my peer_ips (compute_pairwise_delays lats)))"
    by (simp add: sorted_peers_def)
  then show ?thesis using my_peers_distinct mset_eq_imp_distinct_iff by metis
qed

lemma sorted_peers_mem:
  assumes "distinct (dict_keys lats)" "my \<notin> set (dict_keys peer_ips)"
  shows "(q, v) \<in> set (sorted_peers my peer_ips lats) \<longleftrightarrow>
      q \<in> set (dict_keys peer_ips) \<and> 0 < v \<and> v = link_delay lats my q"
proof -
  have "(q, v) \<in> set (sorted_peers my peer_ips lats) \<longleftrightarrow>
      dict_get (my_peers my peer_ips (compute_pairwise_delays lats)) q = Some v"
    unfolding sorted_peers_def set_sort map_of_eq_Some_iff [OF my_peers_distinct] ..
  then show ?thesis unfolding my_peers_get [OF assms] by (auto split: if_splits)
qed

lemma sorted_peers_sub:
  assumes "distinct (dict_keys lats)" "my \<notin> set (dict_keys peer_ips)"
  shows "set (dict_keys (sorted_peers my peer_ips lats)) \<subseteq> set (dict_keys peer_ips)"
proof
  fix q assume "q \<in> set (dict_keys (sorted_peers my peer_ips lats))"
  then obtain v where "(q, v) \<in> set (sorted_peers my peer_ips lats)" by auto
  then show "q \<in> set (dict_keys peer_ips)" unfolding sorted_peers_mem [OF assms] by blast
qed

lemma setup_shaped:
  assumes "token_ok iface" "peers_ok peer_ips"
    and "distinct (dict_keys lats)" "my \<notin> set (dict_keys peer_ips)"
  shows "tc_run (setup_commands my peer_ips (compute_pairwise_delays lats) iface) tc_cleared =
    shaped peer_ips (sorted_peers my peer_ips lats)"
proof -
  have sub: "set (dict_keys (sorted_peers my peer_ips lats)) \<subseteq> set (dict_keys peer_ips)"
    by (rule sorted_peers_sub [OF assms(3,4)])
  have len: "length (my_peers my peer_ips (compute_pairwise_delays lats)) =
      length (sorted_peers my peer_ips lats)" by (simp add: sorted_peers_def)
  have emp: "my_peers my peer_ips (compute_pairwise_delays lats) = [] \<longleftrightarrow>
      sorted_peers my peer_ips lats = []" using len by (metis length_0_conv)
  show ?thesis
  proof (cases "sorted_peers my peer_ips lats = []")
    case True
    with emp show ?thesis by (simp add: setup_commands_def shaped_def tc_run_def)
  next
    case False
    then show ?thesis
      using setup_state [OF assms(1,2) sub, of tc_cleared] emp
      unfolding setup_commands_def Let_def len sorted_peers_def [symmetric] shaped_def
      by (simp only: if_False)
  qed
qed

lemma shaped_default:
  "map_of (band_filters peer_ips 1 ps) (ip @ ''/32'') = None \<Longrightarrow> egress_delay (shaped peer_ips ps) ip = 0"
  by (cases "ps = []") (simp_all add: shaped_def egress_delay_def tc_cleared_def dict_get_or_def)

lemma shaped_band:
  assumes m: "(p, v) \<in> set ps" and dist: "distinct (map fst ps)"
    and inj: "inj_on (\<lambda>q. dict_get_or peer_ips q []) (set (map fst ps))"
  shows "egress_delay (shaped peer_ips ps) (dict_get_or peer_ips p []) = v"
proof -
  obtain b where b: "map_of (band_filters peer_ips 1 ps) (dict_get_or peer_ips p [] @ ''/32'') = Some (class_id b)"
    "(class_id b, v) \<in> set (band_classes 1 ps)"
    using band_lookup [OF m dist inj, of 1] by blast
  have lt: "b < 1 + length ps" using band_classes_mem [OF b(2)] by auto
  have "distinct (map fst (rev (band_classes 1 ps)))"
    using band_classes_distinct [of 1 ps] unfolding rev_map [symmetric] by simp
  then have "map_of (rev (band_classes 1 ps)) (class_id b) = Some v"
    using b(2) by (simp add: map_of_eq_Some_iff)
  then have cls: "dict_get (dict_set (class_id (length ps + 1)) 0 (dict_update (band_classes 1 ps) []))
      (class_id b) = Some v"
    using lt by (simp add: dict_get_update)
  have ne: "ps \<noteq> []" using m by auto
  show ?thesis
    unfolding egress_delay_def shaped_def if_not_P [OF ne] tc.select_convs option.case prod.case
      b(1) dict_get_or_def [of "dict_set _ _ _"] cls ..
qed

lemma setup_delay:
  assumes "token_ok iface" and ok: "peers_ok peer_ips"
    and d: "distinct (dict_keys lats)" and my: "my \<notin> set (dict_keys peer_ips)"
    and pip: "(p, ip) \<in> set peer_ips"
  shows "egress_delay (tc_run (setup_commands my peer_ips (compute_pairwise_delays lats) iface) tc_cleared) ip
    = link_delay lats my p"
proof -
  define ps where "ps = sorted_peers my peer_ips lats"
  note mem = sorted_peers_mem [OF d my, folded ps_def]
  have ip: "dict_get_or peer_ips p [] = ip" using ok pip by (rule peers_ok_get)
  have pk: "p \<in> set (dict_keys peer_ips)" using pip by force
  have inj: "inj_on (\<lambda>q. dict_get_or peer_ips q []) (set (map fst ps))"
    unfolding ps_def by (rule inj_on_subset [OF peers_ok_inj [OF ok] sorted_peers_sub [OF d my]])
  show ?thesis
    unfolding setup_shaped [OF assms(1-4)] ps_def [symmetric]
  proof (cases "0 < link_delay lats my p")
    case True
    then have "(p, link_delay lats my p) \<in> set ps" unfolding mem using pk by blast
    from shaped_band [OF this _ inj] sorted_peers_distinct
    show "egress_delay (shaped peer_ips ps) ip = link_delay lats my p"
      unfolding ip ps_def by blast
  next
    case False
    have "dict_get_or peer_ips q [] \<noteq> ip" if "(q, v) \<in> set ps" for q v
    proof
      assume "dict_get_or peer_ips q [] = ip"
      then have "q = p"
        using inj_onD [OF peers_ok_inj [OF ok]] that pk ip unfolding mem by metis
      with that False show False unfolding mem by blast
    qed
    then have "egress_delay (shaped peer_ips ps) ip = 0"
      by (intro shaped_default band_filters_other) auto
    with False link_delay_nonneg [of lats my p]
    show "egress_delay (shaped peer_ips ps) ip = link_delay lats my p" by linarith
  qed
qed

lemma pairwise_link:
  assumes "distinct (dict_keys lats)" "i \<noteq> j"
  shows "dict_get_or (compute_pairwise_delays lats) (min i j, max i j) 0 = link_delay lats i j"
proof (cases "dict_get (compute_pairwise_delays lats) (min i j, max i j)")
  case None
  have "\<not> 0 < link_delay lats (min i j) (max i j)"
    using None assms(2) pairwise_mem [OF assms(1), of "min i j" "max i j" "link_delay lats (min i j) (max i j)"]
    by (metis link_delay_nonneg map_of_eq_None_iff fst_conv imageI min_less_iff_disj max_def min_def nat_neq_iff not_le order_less_le)
  then have "link_delay lats (min i j) (max i j) = 0" using link_delay_nonneg by (metis order_le_less)
  then show ?thesis using None link_delay_sym by (simp add: dict_get_or_def min_def max_def split: if_splits)
next
  case (Some v)
  then have "v = link_delay lats (min i j) (max i j)"
    using pairwise_mem [OF assms(1)] map_of_SomeD by metis
  then show ?thesis using Some link_delay_sym by (simp add: dict_get_or_def min_def max_def split: if_splits)
qed





subsection \<open>Round-trip probes\<close>

definition PING_MARK :: string where
  "PING_MARK = ''@@PING''"

text \<open>The count and \<open>interval\<close> are given as they are printed (5 and 0.2 by default).\<close>

definition ping_command :: "string list \<Rightarrow> string \<Rightarrow> string \<Rightarrow> string" where
  "ping_command peer_ips cnt interval =
     (let pings = py_join '' '' (map (\<lambda>ip. ''ping -n -q -c '' @ cnt @ '' -i '' @ interval @ '' -W 2 '' @ ip @
            '' > '' @ [CHR 0x22] @ ''$d/'' @ ip @ [CHR 0x22] @ '' 2>&1 &'') peer_ips);
          dumps = py_join '' '' (map (\<lambda>ip. ''echo '' @ [CHR 0x22] @ PING_MARK @ '' '' @ ip @ [CHR 0x22] @
            ''; cat '' @ [CHR 0x22] @ ''$d/'' @ ip @ [CHR 0x22] @ '';'') peer_ips)
      in ''d=$(mktemp -d); '' @ pings @ '' wait; '' @ dumps @ '' rm -rf '' @ [CHR 0x22] @ ''$d'' @ [CHR 0x22])"

record ping_stats =
  pg_sent :: "int option"
  pg_received :: "int option"
  pg_loss_pct :: "pyfloat option"
  pg_min :: "pyfloat option"
  pg_avg :: "pyfloat option"
  pg_max :: "pyfloat option"
  pg_mdev :: "pyfloat option"

definition no_stats :: ping_stats where
  "no_stats = \<lparr>pg_sent = None, pg_received = None, pg_loss_pct = None,
     pg_min = None, pg_avg = None, pg_max = None, pg_mdev = None\<rparr>"

text \<open>\<open>for k, v in zip(('min', 'avg', 'max', 'mdev'), vals): out[ip][k] = float(v)\<close>.\<close>

definition rtt_field :: "nat \<Rightarrow> pyfloat \<Rightarrow> ping_stats \<Rightarrow> ping_stats" where
  "rtt_field k x st =
     (if k = 0 then st\<lparr>pg_min := Some x\<rparr> else if k = 1 then st\<lparr>pg_avg := Some x\<rparr>
      else if k = 2 then st\<lparr>pg_max := Some x\<rparr> else st\<lparr>pg_mdev := Some x\<rparr>)"

definition set_rtt :: "string list \<Rightarrow> ping_stats \<Rightarrow> ping_stats res" where
  "set_rtt vals st =
     foldR (\<lambda>st (k, v). bindR (py_float (PStr v)) (\<lambda>x. Inr (rtt_field k x st))) st (zip [0..<4] vals)"

definition set_counts :: "string \<Rightarrow> ping_stats \<Rightarrow> ping_stats res" where
  "set_counts line st =
     (let f = map py_strip (py_split (CHR '','') line) in
      bindR (bindR (py_index f 0) (\<lambda>x. bindR (py_index (py_words x) 0) (\<lambda>w. py_int (PStr w)))) (\<lambda>sent.
      bindR (bindR (py_index f 1) (\<lambda>x. bindR (py_index (py_words x) 0) (\<lambda>w. py_int (PStr w)))) (\<lambda>received.
      bindR (case find (py_in ''packet loss'') f of
               None \<Rightarrow> Inl StopIteration
             | Some x \<Rightarrow> bindR (py_index (py_split (CHR ''%'') x) 0) (\<lambda>w. py_float (PStr w))) (\<lambda>loss.
      Inr (st\<lparr>pg_sent := Some sent, pg_received := Some received, pg_loss_pct := Some loss\<rparr>)))))"

definition rtt_values :: "string \<Rightarrow> string list res" where
  "rtt_values line =
     bindR (py_index (py_split (CHR ''='') line) 1) (\<lambda>x.
     bindR (py_index (py_words (py_strip x)) 0) (\<lambda>w. Inr (py_split (CHR ''/'') w)))"

type_synonym ping_state = "(string, ping_stats) dict \<times> string option"

definition ping_line :: "ping_state \<Rightarrow> string \<Rightarrow> ping_state res" where
  "ping_line = (\<lambda>(out, ip) raw.
     let line = py_strip raw in
     if starts_with PING_MARK line then
       bindR (py_index (py_words line) 1) (\<lambda>i. Inr (dict_set i no_stats out, Some i))
     else case ip of
       None \<Rightarrow> Inr (out, None)
     | Some i \<Rightarrow>
         if py_in ''packets transmitted'' line then
           bindR (set_counts line (dict_get_or out i no_stats)) (\<lambda>st. Inr (dict_set i st out, Some i))
         else if starts_with ''rtt '' line \<or> starts_with ''round-trip'' line then
           bindR (rtt_values line) (\<lambda>vals.
           bindR (set_rtt vals (dict_get_or out i no_stats)) (\<lambda>st. Inr (dict_set i st out, Some i)))
         else Inr (out, Some i))"

definition parse_ping :: "string \<Rightarrow> (string, ping_stats) dict res" where
  "parse_ping output = bindR (foldR ping_line ([], None) (py_splitlines output)) (\<lambda>(out, ip). Inr out)"

end
