(* ===== verification/Utils.thy ===== *)
theory Utils
  imports PyStr
begin

section \<open>Paths, progress and error printing (benchmark/benchmark/utils.py)\<close>

text \<open>
  \<open>PathMaker\<close>, \<open>progress_bar\<close> and \<open>Print.error\<close>. \<open>_REPO_ROOT\<close> is derived from the location
  of the module file and is an argument here. The progress bar is a generator that prints
  between its items: it is the list of what it prints and yields, in order.
\<close>

subsection \<open>Paths\<close>

definition path_join :: "string \<Rightarrow> string \<Rightarrow> string" where
  "path_join a b =
     (if starts_with ''/'' b then b
      else if a = [] \<or> last a = CHR ''/'' then a @ b
      else a @ ''/'' @ b)"

definition gen_conf_script :: "string \<Rightarrow> string" where
  "gen_conf_script rt = path_join (path_join rt ''scripts'') ''gen_conf.py''"

definition keygen_bin :: "string \<Rightarrow> string" where
  "keygen_bin rt = path_join rt ''hotstuff-keygen''"

definition tls_keygen_bin :: "string \<Rightarrow> string" where
  "tls_keygen_bin rt = path_join rt ''hotstuff-tls-keygen''"

definition replica_bin :: "string \<Rightarrow> string" where
  "replica_bin rt = path_join (path_join rt ''examples'') ''hotstuff-app''"

definition client_bin :: "string \<Rightarrow> string" where
  "client_bin rt = path_join (path_join rt ''examples'') ''hotstuff-client''"

definition conf_prefix :: string where
  "conf_prefix = ''hotstuff''"

definition main_conf_file :: string where
  "main_conf_file = conf_prefix @ ''.conf''"

definition replica_conf_file :: "nat \<Rightarrow> string" where
  "replica_conf_file i = conf_prefix @ ''-sec'' @ show_nat i @ ''.conf''"

definition nodes_file :: string where
  "nodes_file = ''nodes.txt''"

definition remote_main_conf :: string where
  "remote_main_conf = main_conf_file"

definition remote_replica_conf :: "nat \<Rightarrow> string" where
  "remote_replica_conf i = replica_conf_file i"

definition logs_path :: string where
  "logs_path = ''logs''"

definition results_path :: string where
  "results_path = ''results''"

definition replica_log_file :: "nat \<Rightarrow> string" where
  "replica_log_file i = path_join logs_path (''replica-'' @ show_nat i @ ''.log'')"

definition client_log_file :: "nat \<Rightarrow> string" where
  "client_log_file c = path_join logs_path (''client-'' @ show_nat c @ ''.log'')"

definition failure_file :: "nat \<Rightarrow> string" where
  "failure_file i = path_join logs_path (''failure-replica-'' @ show_nat i @ ''.json'')"

definition compute_file :: "string \<Rightarrow> nat \<Rightarrow> string" where
  "compute_file role i = path_join logs_path (''compute-'' @ role @ ''-'' @ show_nat i @ ''.jsonl'')"

definition run_logs_path :: string where
  "run_logs_path = path_join results_path ''run_logs''"

lemmas path_defs = conf_prefix_def main_conf_file_def replica_conf_file_def logs_path_def
  results_path_def replica_log_file_def client_log_file_def failure_file_def compute_file_def
  run_logs_path_def path_join_def starts_with_def

text \<open>File names of different replicas and clients never collide, nor do the kinds of file.\<close>

lemma dot_not_digit: "\<not> is_digit (CHR ''.'')"
  by (simp add: is_digit_def)

lemma show_nat_dot_inject:
  "show_nat i @ CHR ''.'' # s = show_nat j @ CHR ''.'' # s \<longleftrightarrow> i = j"
  using show_nat_append_eq [OF dot_not_digit] by blast

lemma replica_conf_file_inject [simp]: "replica_conf_file i = replica_conf_file j \<longleftrightarrow> i = j"
  unfolding replica_conf_file_def same_append_eq using show_nat_dot_inject [of i "''conf''" j] by simp

lemma replica_log_file_inject [simp]: "replica_log_file i = replica_log_file j \<longleftrightarrow> i = j"
  using show_nat_dot_inject [of i "''log''" j]
  by (simp add: replica_log_file_def path_join_def starts_with_def logs_path_def)

lemma client_log_file_inject [simp]: "client_log_file i = client_log_file j \<longleftrightarrow> i = j"
  using show_nat_dot_inject [of i "''log''" j]
  by (simp add: client_log_file_def path_join_def starts_with_def logs_path_def)

lemma log_files_disjoint [simp]:
  "replica_log_file i \<noteq> client_log_file j" "client_log_file j \<noteq> replica_log_file i"
  "replica_log_file i \<noteq> failure_file j"
  by (simp_all add: replica_log_file_def client_log_file_def failure_file_def path_join_def
      starts_with_def logs_path_def)

lemma main_conf_not_replica_conf: "replica_conf_file i \<noteq> main_conf_file"
  by (simp add: replica_conf_file_def main_conf_file_def)

subsection \<open>Error printing\<close>

definition OK_GREEN :: string where
  "OK_GREEN = CHR 0x1B # ''[92m''"

definition WARNING :: string where
  "WARNING = CHR 0x1B # ''[93m''"

definition FAIL :: string where
  "FAIL = CHR 0x1B # ''[91m''"

definition END_COLOR :: string where
  "END_COLOR = CHR 0x1B # ''[0m''"

definition BOLD :: string where
  "BOLD = CHR 0x1B # ''[1m''"

text \<open>What \<open>Print.heading\<close>, \<open>info\<close> and \<open>warn\<close> hand to \<open>print\<close>.\<close>

definition print_heading :: "string \<Rightarrow> string" where
  "print_heading message = OK_GREEN @ message @ END_COLOR"

definition print_info :: "string \<Rightarrow> string" where
  "print_info message = message"

definition print_warn :: "string \<Rightarrow> string" where
  "print_warn message = BOLD @ WARNING @ ''WARN'' @ END_COLOR @ '': '' @ message"

text \<open>
  \<open>Print.error\<close>: the loop walks the chain of causes but prints the first cause at every
  level, \<open>e.cause\<close> and not \<open>current_cause\<close>. \<open>type_str\<close> stands for \<open>str(type(x))\<close>. The result is
  the list of strings handed to \<open>print\<close>.
\<close>

definition NL :: string where
  "NL = [CHR 0x0A]"

fun chain_lines :: "exn \<Rightarrow> nat \<Rightarrow> exn \<Rightarrow> string list \<times> nat \<times> exn" where
  "chain_lines first n (BenchError m c) =
     (let (ls, k, rt) = chain_lines first (Suc n) c in
      ((''  '' @ show_nat n @ '': '' @ exn_msg first @ NL) # ls, k, rt))"
| "chain_lines first n e = ([], n, e)"

definition print_error :: "(exn \<Rightarrow> string) \<Rightarrow> exn \<Rightarrow> string list res" where
  "print_error type_str e =
     (case e of
        BenchError m c \<Rightarrow>
          (let (ls, n, rt) = chain_lines c 0 c;
               causes = ls @ [''  '' @ show_nat n @ '': '' @ type_str rt @ NL] @
                 [''  '' @ show_nat (n + 1) @ '': '' @ exn_msg rt @ NL]
           in Inr [NL @ BOLD @ FAIL @ ''ERROR'' @ END_COLOR @ '': '' @ m @ NL,
                   ''Caused by: '' @ NL @ concat causes @ NL])
      | _ \<Rightarrow> Inl (AssertionError []))"

fun cause_depth :: "exn \<Rightarrow> nat" where
  "cause_depth (BenchError m c) = Suc (cause_depth c)"
| "cause_depth e = 0"

fun cause_root :: "exn \<Rightarrow> exn" where
  "cause_root (BenchError m c) = cause_root c"
| "cause_root e = e"

lemma chain_lines_eq:
  "chain_lines first n e =
     (map (\<lambda>i. ''  '' @ show_nat (n + i) @ '': '' @ exn_msg first @ NL) [0..<cause_depth e],
      n + cause_depth e, cause_root e)"
proof (induction first n e rule: chain_lines.induct)
  case (1 first n m c)
  have "[0..<Suc (cause_depth c)] = 0 # map Suc [0..<cause_depth c]"
    by (simp only: map_Suc_upt upt_conv_Cons zero_less_Suc)
  with 1 show ?case by (simp add: comp_def del: upt_Suc)
qed simp_all

text \<open>C21. \<open>Print.error\<close> numbers the chain of causes down to its root, but every intermediate level
  shows the message of the outermost cause: the messages of the causes in between are never printed.\<close>

theorem print_error_levels:
  "print_error type_str (BenchError m c) =
     Inr [NL @ BOLD @ FAIL @ ''ERROR'' @ END_COLOR @ '': '' @ m @ NL,
       ''Caused by: '' @ NL @
       concat (map (\<lambda>i. ''  '' @ show_nat i @ '': '' @ exn_msg c @ NL) [0..<cause_depth c] @
         [''  '' @ show_nat (cause_depth c) @ '': '' @ type_str (cause_root c) @ NL] @
         [''  '' @ show_nat (cause_depth c + 1) @ '': '' @ exn_msg (cause_root c) @ NL]) @ NL]"
  by (simp add: print_error_def chain_lines_eq)

subsection \<open>Progress bar\<close>

datatype 'a progress = Frame string | Yield 'a | Newline

definition draw_bar :: "nat \<Rightarrow> string \<Rightarrow> nat \<Rightarrow> nat \<Rightarrow> string list" where
  "draw_bar len fill tot iteration =
     (let filled = len * iteration div tot in replicate filled fill @ replicate (len - filled) ''-'')"

definition draw :: "string \<Rightarrow> string \<Rightarrow> nat \<Rightarrow> nat \<Rightarrow> string \<Rightarrow> nat \<Rightarrow> nat \<Rightarrow> string" where
  "draw prefix suffix decimals len fill tot iteration =
     (let percent = fmt_fixed decimals (100 * (of_nat iteration / of_nat tot)) in
      CHR 0x0D # prefix @ '' |'' @ concat (draw_bar len fill tot iteration) @ ''| '' @
        percent @ ''% '' @ suffix)"

fun progress_items ::
  "(nat \<Rightarrow> string) \<Rightarrow> nat \<Rightarrow> 'a list \<Rightarrow> 'a progress list" where
  "progress_items dr i [] = []"
| "progress_items dr i (x # xs) = Yield x # Frame (dr (i + 1)) # progress_items dr (i + 1) xs"

definition progress_bar ::
  "string \<Rightarrow> string \<Rightarrow> nat \<Rightarrow> nat \<Rightarrow> string \<Rightarrow> 'a list \<Rightarrow> 'a progress list" where
  "progress_bar prefix suffix decimals len fill xs =
     (let tot = length xs; dr = draw prefix suffix decimals len fill tot in
      if tot = 0 then [] else Frame (dr 0) # progress_items dr 0 xs @ [Newline])"

fun yielded :: "'a progress list \<Rightarrow> 'a list" where
  "yielded [] = []"
| "yielded (Yield x # es) = x # yielded es"
| "yielded (_ # es) = yielded es"

lemma yielded_append [simp]: "yielded (xs @ ys) = yielded xs @ yielded ys"
  by (induction xs rule: yielded.induct) auto

lemma yielded_progress_items [simp]: "yielded (progress_items dr i xs) = xs"
  by (induction xs arbitrary: i) auto

lemma progress_bar_yields: "yielded (progress_bar prefix suffix decimals len fill xs) = xs"
  by (simp add: progress_bar_def Let_def)

lemma draw_bar_length:
  assumes "iteration \<le> tot" "0 < tot"
  shows "length (draw_bar len fill tot iteration) = len"
proof -
  have "len * iteration div tot \<le> len * tot div tot"
    using assms by (intro div_le_mono) simp
  then show ?thesis using assms by (simp add: draw_bar_def Let_def)
qed

lemma draw_bar_full: "0 < tot \<Longrightarrow> draw_bar len fill tot tot = replicate len fill"
  by (simp add: draw_bar_def)

lemma draw_bar_empty: "draw_bar len fill tot 0 = replicate len ''-''"
  by (simp add: draw_bar_def)

end
