(* ===== verification/Commands.thy ===== *)
theory Commands
  imports Utils
begin

section \<open>Shell commands (benchmark/benchmark/commands.py)\<close>

text \<open>
  The shell strings of \<open>CommandMaker\<close>, with \<open>shlex.quote\<close>, and a lexer of POSIX shell
  words for plain commands: blanks separate words, single and double quotes group, and a
  character with a meaning of its own outside quotes makes the line no plain command.
  The interface \<open>shell_quoting\<close> says what a quoting function promises to the lexer.
\<close>

subsection \<open>Quoting\<close>

definition shell_safe_char :: "char \<Rightarrow> bool" where
  "shell_safe_char c \<longleftrightarrow> c \<in> set (''abcdefghijklmnopqrstuvwxyzABCDEFGHIJKLMNOPQRSTUVWXYZ'' @
     ''0123456789_@%+=:,./-'')"

fun escape_quotes :: "string \<Rightarrow> string" where
  "escape_quotes [] = []"
| "escape_quotes (c # cs) =
     (if c = CHR 0x27 then [CHR 0x27, CHR 0x22, CHR 0x27, CHR 0x22, CHR 0x27] else [c]) @ escape_quotes cs"

definition sh_quote :: "string \<Rightarrow> string" where
  "sh_quote s =
     (if s = [] then [CHR 0x27, CHR 0x27]
      else if \<forall>c \<in> set s. shell_safe_char c then s
      else CHR 0x27 # escape_quotes s @ [CHR 0x27])"

subsection \<open>Shell words\<close>

datatype sh_mode = Unquoted | InSingle | InDouble

definition sh_special :: "char \<Rightarrow> bool" where
  "sh_special c \<longleftrightarrow> c \<in> set ''|&;<>()$`*?[]#~{}!'' \<or> c = CHR 0x5C"

definition sh_blank :: "char \<Rightarrow> bool" where
  "sh_blank c \<longleftrightarrow> c = CHR '' '' \<or> c = CHR 0x09 \<or> c = CHR 0x0A"

definition grow :: "string option \<Rightarrow> string \<Rightarrow> string option" where
  "grow cur w = Some ((case cur of None \<Rightarrow> [] | Some v \<Rightarrow> v) @ w)"

fun sh_lex :: "sh_mode \<Rightarrow> string option \<Rightarrow> string \<Rightarrow> string list option" where
  "sh_lex Unquoted cur [] = Some (case cur of None \<Rightarrow> [] | Some w \<Rightarrow> [w])"
| "sh_lex InSingle cur [] = None"
| "sh_lex InDouble cur [] = None"
| "sh_lex Unquoted cur (c # cs) =
     (if sh_blank c then
        (case cur of None \<Rightarrow> sh_lex Unquoted None cs
         | Some w \<Rightarrow> map_option ((#) w) (sh_lex Unquoted None cs))
      else if c = CHR 0x27 then sh_lex InSingle (grow cur []) cs
      else if c = CHR 0x22 then sh_lex InDouble (grow cur []) cs
      else if sh_special c then None
      else sh_lex Unquoted (grow cur [c]) cs)"
| "sh_lex InSingle cur (c # cs) =
     (if c = CHR 0x27 then sh_lex Unquoted cur cs else sh_lex InSingle (grow cur [c]) cs)"
| "sh_lex InDouble cur (c # cs) =
     (if c = CHR 0x22 then sh_lex Unquoted cur cs
      else if c \<in> set ''$`'' \<or> c = CHR 0x5C then None
      else sh_lex InDouble (grow cur [c]) cs)"

definition sh_words :: "string \<Rightarrow> string list option" where
  "sh_words s = sh_lex Unquoted None s"

lemma grow_grow [simp]: "grow (grow cur v) w = grow cur (v @ w)"
  by (auto simp: grow_def split: option.splits)

lemma grow_Some [simp]: "grow (Some v) w = Some (v @ w)"
  by (simp add: grow_def)

lemma safe_char_plain:
  assumes "shell_safe_char c"
  shows "\<not> sh_blank c" "c \<noteq> CHR 0x27" "c \<noteq> CHR 0x22" "\<not> sh_special c"
proof -
  have "\<forall>d \<in> set (''abcdefghijklmnopqrstuvwxyzABCDEFGHIJKLMNOPQRSTUVWXYZ'' @ ''0123456789_@%+=:,./-'').
      \<not> sh_blank d \<and> d \<noteq> CHR 0x27 \<and> d \<noteq> CHR 0x22 \<and> \<not> sh_special d"
    by (simp add: sh_blank_def sh_special_def)
  with assms show "\<not> sh_blank c" "c \<noteq> CHR 0x27" "c \<noteq> CHR 0x22" "\<not> sh_special c"
    unfolding shell_safe_char_def by blast+
qed

lemma sh_blank_simps [simp]:
  "\<not> sh_blank (CHR 0x27)" "\<not> sh_blank (CHR 0x22)" "sh_blank (CHR '' '')"
  by (simp_all add: sh_blank_def)

lemma sh_lex_safe:
  "\<forall>c \<in> set s. shell_safe_char c \<Longrightarrow> s \<noteq> [] \<Longrightarrow>
     sh_lex Unquoted cur (s @ rest) = sh_lex Unquoted (grow cur s) rest"
proof (induction s arbitrary: cur)
  case (Cons c cs)
  then show ?case by (cases "cs = []") (simp_all add: safe_char_plain)
qed simp

lemma sh_lex_single:
  "sh_lex InSingle (Some v) (escape_quotes s @ CHR 0x27 # rest) = sh_lex Unquoted (Some (v @ s)) rest"
  by (induction s arbitrary: v) auto

lemma sh_lex_quote: "sh_lex Unquoted cur (sh_quote s @ rest) = sh_lex Unquoted (grow cur s) rest"
  using sh_lex_single by (auto simp: sh_quote_def sh_lex_safe grow_def)

text \<open>
  What a quoting function promises: the lexer reads the quoted text back as part of the
  current word. The client's lemma: a command built by quoting every argument is read back
  as exactly those arguments.
\<close>

locale shell_quoting =
  fixes quote :: "string \<Rightarrow> string"
  assumes lex_quote: "sh_lex Unquoted cur (quote s @ rest) = sh_lex Unquoted (grow cur s) rest"
begin

lemma words_quote: "sh_words (quote s) = Some [s]"
  using lex_quote [of None s "[]"] by (simp add: sh_words_def grow_def)

lemma words_join_quote: "sh_words (py_join '' '' (map quote args)) = Some args"
proof -
  have "sh_lex Unquoted None (py_join '' '' (map quote args)) = Some args"
  proof (induction args)
    case Nil
    show ?case by simp
  next
    case (Cons a args)
    show ?case
    proof (cases args)
      case Nil
      then show ?thesis using lex_quote [of None a "[]"] by (simp add: grow_def)
    next
      case (Cons b bs)
      then show ?thesis
        using lex_quote [of None a "CHR '' '' # py_join '' '' (map quote args)"]
          \<open>sh_lex Unquoted None (py_join '' '' (map quote args)) = Some args\<close> Cons
        by (simp add: grow_def)
    qed
  qed
  then show ?thesis by (simp add: sh_words_def)
qed

lemma quote_inject: "quote s = quote t \<longleftrightarrow> s = t"
  by (metis words_quote list.inject option.inject)

end

interpretation shq: shell_quoting sh_quote
  by unfold_locales (rule sh_lex_quote)

lemma sh_quote_safe: "s \<noteq> [] \<Longrightarrow> \<forall>c \<in> set s. shell_safe_char c \<Longrightarrow> sh_quote s = s"
  by (simp add: sh_quote_def)

lemma sh_quote_literals [simp]:
  "sh_quote ''python3'' = ''python3''" "sh_quote ''--prefix'' = ''--prefix''"
  "sh_quote ''--ips'' = ''--ips''" "sh_quote ''--keygen'' = ''--keygen''"
  "sh_quote ''--tls-keygen'' = ''--tls-keygen''" "sh_quote ''--block-size'' = ''--block-size''"
  "sh_quote ''--pace-maker'' = ''--pace-maker''" "sh_quote ''--nworker'' = ''--nworker''"
  "sh_quote ''--repnworker'' = ''--repnworker''" "sh_quote ''--clinworker'' = ''--clinworker''"
  "sh_quote ''--repburst'' = ''--repburst''" "sh_quote ''--cliburst'' = ''--cliburst''"
  "sh_quote ''--pport'' = ''--pport''" "sh_quote ''--cport'' = ''--cport''"
  "sh_quote ''--sb-users'' = ''--sb-users''"
  "sh_quote ''--sb-prob-choose_mtx'' = ''--sb-prob-choose_mtx''"
  "sh_quote ''--sb-skew-factor'' = ''--sb-skew-factor''"
  by (simp_all add: sh_quote_def shell_safe_char_def)

lemma digit_safe: "is_digit c \<Longrightarrow> shell_safe_char c"
  by (auto simp: is_digit_def shell_safe_char_def)

lemma sh_quote_show_nat [simp]: "sh_quote (show_nat n) = show_nat n"
  by (rule sh_quote_safe) (auto dest: show_nat_digits digit_safe)

lemma sh_quote_show_int [simp]: "sh_quote (show_int i) = show_int i"
proof -
  have "shell_safe_char (CHR ''-'')" by (simp add: shell_safe_char_def)
  then show ?thesis
    by (intro sh_quote_safe) (auto simp: show_int_def dest: show_nat_digits digit_safe)
qed

lemma fmt_fixed_safe: "c \<in> set (fmt_fixed d x) \<Longrightarrow> shell_safe_char c"
proof -
  have "shell_safe_char (CHR ''-'')" "shell_safe_char (CHR ''.'')" "shell_safe_char (CHR ''0'')"
    by (simp_all add: shell_safe_char_def)
  then show "c \<in> set (fmt_fixed d x) \<Longrightarrow> shell_safe_char c"
    by (auto simp: fmt_fixed_def Let_def pad_left_def dest: show_nat_digits digit_safe split: if_splits)
qed

lemma show_pos_rat_safe: "c \<in> set (show_pos_rat x) \<Longrightarrow> shell_safe_char c"
proof -
  have "shell_safe_char (CHR ''-'')" "shell_safe_char (CHR ''+'')" "shell_safe_char (CHR ''0'')"
    "shell_safe_char (CHR ''e'')" by (simp_all add: shell_safe_char_def)
  then show "c \<in> set (show_pos_rat x) \<Longrightarrow> shell_safe_char c"
    by (auto simp: show_pos_rat_def Let_def pad_left_def
        dest: show_nat_digits digit_safe fmt_fixed_safe split: if_splits)
qed

lemma fmt_fixed_not_Nil [simp]: "fmt_fixed d x \<noteq> []"
  by (simp add: fmt_fixed_def Let_def)

lemma show_pos_rat_not_Nil [simp]: "show_pos_rat x \<noteq> []"
  by (simp add: show_pos_rat_def Let_def)

lemma sh_quote_show_float [simp]: "sh_quote (show_float x) = show_float x"
proof -
  have m: "shell_safe_char (CHR ''-'')" by (simp add: shell_safe_char_def)
  show ?thesis
  proof (cases x)
    case (Fin r)
    have "\<forall>c \<in> set (show_float x). shell_safe_char c"
      using m show_pos_rat_safe by (auto simp: Fin split: if_splits)
    then show ?thesis by (intro sh_quote_safe) (simp_all add: Fin)
  qed (simp_all add: sh_quote_def shell_safe_char_def)
qed

subsection \<open>Build commands\<close>

definition apt_install :: string where
  "apt_install =
     ''sudo apt-get update && '' @
     ''sudo apt-get -y install '' @
     ''build-essential cmake '' @
     ''libssl-dev libuv1-dev '' @
     ''autoconf automake libtool pkg-config '' @
     ''git tmux python3 python3-pip''"

definition clone :: "string \<Rightarrow> string \<Rightarrow> string" where
  "clone repo_url repo_name =
     ''(test -d '' @ sh_quote repo_name @ ''/.git || '' @
     ''git clone '' @ sh_quote repo_url @ '' '' @ sh_quote repo_name @ '')''"

definition submodule_update :: "string \<Rightarrow> string" where
  "submodule_update repo_name =
     ''(cd '' @ sh_quote repo_name @ '' && git submodule update --init --recursive)''"

definition git_sync :: "string \<Rightarrow> string \<Rightarrow> string" where
  "git_sync repo_name branch =
     ''(cd '' @ sh_quote repo_name @ '' && git fetch -f && '' @
     ''git checkout -f '' @ sh_quote branch @ '' -- && '' @
     ''git reset --hard origin/'' @ sh_quote branch @ '' && '' @
     ''git submodule update --init --recursive)''"

definition on_off :: "bool \<Rightarrow> string" where
  "on_off b = (if b then ''ON'' else ''OFF'')"

definition cmake_configure :: "string \<Rightarrow> bool \<Rightarrow> bool \<Rightarrow> bool \<Rightarrow> bool \<Rightarrow> string" where
  "cmake_configure repo_name bench normal_log proto_log two_step =
     (let cxx_extra = [''-include cstdint''] @ (if bench then [''-DHOTSTUFF_ENABLE_BENCHMARK''] else []);
          flags = [''-DCMAKE_BUILD_TYPE=Release'',
                   ''-DHOTSTUFF_NORMAL_LOG='' @ on_off normal_log,
                   ''-DHOTSTUFF_PROTO_LOG='' @ on_off proto_log,
                   ''-DHOTSTUFF_TWO_STEP='' @ on_off two_step,
                   [CHR 0x22] @ ''-DCMAKE_CXX_FLAGS='' @ py_join '' '' cxx_extra @ [CHR 0x22]]
      in ''(cd '' @ sh_quote repo_name @ '' && cmake '' @ py_join '' '' flags @ '' .)'')"

definition make_all :: "string \<Rightarrow> int option \<Rightarrow> string" where
  "make_all repo_name jobs =
     ''(cd '' @ sh_quote repo_name @ '' && make'' @
     (case jobs of None \<Rightarrow> [] | Some j \<Rightarrow> if j = 0 then [] else '' -j'' @ show_int j) @ '')''"

subsection \<open>Configuration generation\<close>

text \<open>The keyword arguments of \<open>CommandMaker.gen_conf\<close>.\<close>

record gen_conf_args =
  gc_ips_file :: string
  gc_prefix :: string
  gc_block_size :: int
  gc_pace_maker :: string
  gc_nworker :: int
  gc_repnworker :: int
  gc_clinworker :: int
  gc_repburst :: int
  gc_cliburst :: int
  gc_pport :: int
  gc_cport :: int
  gc_sb_users :: int
  gc_sb_prob_choose_mtx :: pyfloat
  gc_sb_skew_factor :: pyfloat

definition gen_conf :: "string \<Rightarrow> gen_conf_args \<Rightarrow> string" where
  "gen_conf repo_name a =
     ''python3 '' @ sh_quote (path_join (path_join repo_name ''scripts'') ''gen_conf.py'') @ '' '' @
     ''--prefix '' @ sh_quote (gc_prefix a) @ '' '' @
     ''--ips '' @ sh_quote (gc_ips_file a) @ '' '' @
     ''--keygen '' @ sh_quote (path_join repo_name ''hotstuff-keygen'') @ '' '' @
     ''--tls-keygen '' @ sh_quote (path_join repo_name ''hotstuff-tls-keygen'') @ '' '' @
     ''--block-size '' @ show_int (gc_block_size a) @ '' '' @
     ''--pace-maker '' @ sh_quote (gc_pace_maker a) @ '' '' @
     ''--nworker '' @ show_int (gc_nworker a) @ '' '' @
     ''--repnworker '' @ show_int (gc_repnworker a) @ '' '' @
     ''--clinworker '' @ show_int (gc_clinworker a) @ '' '' @
     ''--repburst '' @ show_int (gc_repburst a) @ '' '' @
     ''--cliburst '' @ show_int (gc_cliburst a) @ '' '' @
     ''--pport '' @ show_int (gc_pport a) @ '' '' @
     ''--cport '' @ show_int (gc_cport a) @ '' '' @
     ''--sb-users '' @ show_int (gc_sb_users a) @ '' '' @
     ''--sb-prob-choose_mtx '' @ show_float (gc_sb_prob_choose_mtx a) @ '' '' @
     ''--sb-skew-factor '' @ show_float (gc_sb_skew_factor a)"

text \<open>The words of the command, in order.\<close>

definition gen_conf_argv :: "string \<Rightarrow> gen_conf_args \<Rightarrow> string list" where
  "gen_conf_argv repo_name a =
     [''python3'', path_join (path_join repo_name ''scripts'') ''gen_conf.py'',
      ''--prefix'', gc_prefix a, ''--ips'', gc_ips_file a,
      ''--keygen'', path_join repo_name ''hotstuff-keygen'',
      ''--tls-keygen'', path_join repo_name ''hotstuff-tls-keygen'',
      ''--block-size'', show_int (gc_block_size a), ''--pace-maker'', gc_pace_maker a,
      ''--nworker'', show_int (gc_nworker a), ''--repnworker'', show_int (gc_repnworker a),
      ''--clinworker'', show_int (gc_clinworker a), ''--repburst'', show_int (gc_repburst a),
      ''--cliburst'', show_int (gc_cliburst a), ''--pport'', show_int (gc_pport a),
      ''--cport'', show_int (gc_cport a), ''--sb-users'', show_int (gc_sb_users a),
      ''--sb-prob-choose_mtx'', show_float (gc_sb_prob_choose_mtx a),
      ''--sb-skew-factor'', show_float (gc_sb_skew_factor a)]"

lemma gen_conf_join: "gen_conf repo_name a = py_join '' '' (map sh_quote (gen_conf_argv repo_name a))"
  unfolding gen_conf_def gen_conf_argv_def by simp

text \<open>C20. The shell reads the configuration command back as exactly the intended argument vector,
  whatever characters the repository path, the ips file, the prefix or the pace maker contain.\<close>

theorem gen_conf_words: "sh_words (gen_conf repo_name a) = Some (gen_conf_argv repo_name a)"
  unfolding gen_conf_join by (rule shq.words_join_quote)

subsection \<open>Launch and teardown\<close>

definition cpu_list :: "int \<Rightarrow> string" where
  "cpu_list cores = (if cores \<noteq> 0 then ''1-'' @ show_int cores else [])"

definition opt_int_flag :: "string \<Rightarrow> int option \<Rightarrow> string" where
  "opt_int_flag flag v = (case v of None \<Rightarrow> [] | Some n \<Rightarrow> '' '' @ flag @ '' '' @ show_int n)"

definition run_replica ::
  "string \<Rightarrow> string \<Rightarrow> int option \<Rightarrow> int option \<Rightarrow> int \<Rightarrow> pyfloat \<Rightarrow> string" where
  "run_replica repo_dir conf_file max_rep_msg max_cli_msg cpu_cores imp_timeout =
     (let extra = opt_int_flag ''--max-rep-msg'' max_rep_msg @
                  opt_int_flag ''--max-cli-msg'' max_cli_msg @
                  (if pf_truthy imp_timeout then '' --imp-timeout '' @ show_float imp_timeout else []);
          bin_path = path_join (path_join repo_dir ''examples'') ''hotstuff-app'';
          pin = (if cpu_cores \<noteq> 0 then ''taskset -c '' @ cpu_list cpu_cores @ '' '' else [])
      in ''bash -lc '' @ [CHR 0x27] @ ''ulimit -s unlimited && '' @
         pin @ ''./'' @ bin_path @ '' --conf '' @ conf_file @ extra @ [CHR 0x27])"

definition run_client ::
  "string \<Rightarrow> string \<Rightarrow> int \<Rightarrow> int \<Rightarrow> int \<Rightarrow> int option \<Rightarrow> pyfloat \<Rightarrow> pyfloat \<Rightarrow> string res" where
  "run_client repo_dir conf_file cid iter_count max_async max_cli_msg meas_warmup meas_cooldown =
     (if conf_file \<noteq> ''hotstuff.conf'' then
        Inl (AssertionError (''client conf must be the auto-loaded basename, got '' @ conf_file))
      else
        (let extra = opt_int_flag ''--max-cli-msg'' max_cli_msg @
                     '' --meas-warmup '' @ show_float meas_warmup @
                     '' --meas-cooldown '' @ show_float meas_cooldown;
             bin_path = path_join (path_join repo_dir ''examples'') ''hotstuff-client''
         in Inr (''bash -lc '' @ [CHR 0x27] @ ''./'' @ bin_path @ '' '' @
              ''--cid '' @ show_int cid @ '' --iter '' @ show_int iter_count @ '' '' @
              ''--max-async '' @ show_int max_async @ extra @ [CHR 0x27])))"

definition kill_command :: string where
  "kill_command =
     ''pkill -SIGTERM -x hotstuff-client 2>/dev/null; '' @
     ''pkill -SIGTERM -x hotstuff-app 2>/dev/null; '' @
     ''sleep 2; '' @
     ''pkill -SIGKILL -x hotstuff-client 2>/dev/null; '' @
     ''pkill -SIGKILL -x hotstuff-app 2>/dev/null; '' @
     ''rm -f /tmp/hotstuff_pid_* 2>/dev/null; '' @
     ''sudo -n pkill -f '' @ [CHR 0x27] @ ''[c]ompute_sampler.py'' @ [CHR 0x27] @ '' 2>/dev/null; '' @
     ''pkill -f '' @ [CHR 0x27] @ ''[f]ail_inject.sh'' @ [CHR 0x27] @ '' 2>/dev/null; '' @
     ''true''"

definition cleanup_command :: string where
  "cleanup_command =
     ''rm -f '' @ main_conf_file @ '' '' @ conf_prefix @ ''-sec*.conf '' @ nodes_file"

definition clean_logs_command :: string where
  "clean_logs_command = ''rm -rf '' @ logs_path @ '' && mkdir -p '' @ logs_path"

end
