(* ===== verification/Config.thy ===== *)
theory Config
  imports Commands
begin

section \<open>Parameters of a run (benchmark/benchmark/config.py)\<close>

text \<open>
  \<open>BenchParameters\<close>, \<open>ProtocolParameters\<close> and \<open>NetworkParameters\<close>: each constructor reads a
  dictionary of loosely typed values (CSV cells or Python defaults), converts every field and
  validates the result. A constructor is a function into \<open>exn + record\<close>: a conversion error
  inside the \<open>try\<close> block becomes a \<open>ConfigError\<close>, and so does every failed \<open>_require\<close>.
\<close>

type_synonym raw = "(string, pyval) dict"

definition require :: "bool \<Rightarrow> string \<Rightarrow> unit res" where
  "require cond msg = (if cond then Inr () else Inl (ConfigError msg))"

lemma require_Inr [simp]: "require c m = Inr u \<longleftrightarrow> c"
  by (simp add: require_def)

lemma require_Inl: "require c m = Inl e \<longleftrightarrow> \<not> c \<and> e = ConfigError m"
  by (auto simp: require_def)

text \<open>\<open>except (TypeError, ValueError) as e: raise ConfigError(prefix + e)\<close>.\<close>

definition as_config_error :: "string \<Rightarrow> 'a res \<Rightarrow> 'a res" where
  "as_config_error prefix r =
     catchR r (\<lambda>e. is_TypeError e \<or> is_ValueError e) (\<lambda>e. Inl (ConfigError (prefix @ exn_msg e)))"

lemma as_config_error_Inr [simp]: "as_config_error p r = Inr x \<longleftrightarrow> r = Inr x"
  unfolding as_config_error_def by (rule catchR_Inr_iff) blast

definition parse_bool :: "pyval \<Rightarrow> bool" where
  "parse_bool v =
     (case v of
        PBool b \<Rightarrow> b
      | PStr s \<Rightarrow> py_lower (py_strip s) \<notin> {''false'', ''0'', ''no'', ''''}
      | _ \<Rightarrow> py_truthy v)"

subsection \<open>BenchParameters\<close>

record bench_params =
  bp_nodes :: int
  bp_num_clients :: int
  bp_iter_count :: int
  bp_max_async :: int
  bp_duration :: int
  bp_runs :: int
  bp_collocate_client :: bool
  bp_meas_warmup :: pyfloat
  bp_meas_cooldown :: pyfloat
  bp_sample_compute :: bool
  bp_cpu_cores :: "(nat, int) dict"
  bp_fail_node :: int
  bp_fail_type :: string
  bp_fail_at :: pyfloat
  bp_imp_timeout :: pyfloat

definition BENCH_REQUIRED :: "string list" where
  "BENCH_REQUIRED = [''nodes'', ''num_clients'', ''iter_count'', ''max_async'', ''duration'']"

text \<open>\<open>raw[k]\<close>.\<close>

definition raw_get :: "raw \<Rightarrow> string \<Rightarrow> pyval res" where
  "raw_get raw k = (case dict_get raw k of None \<Rightarrow> Inl (KeyError k) | Some v \<Rightarrow> Inr v)"

definition cpu_node_key :: "nat \<Rightarrow> string" where
  "cpu_node_key i = ''cpu_node'' @ show_nat i"

definition cpu_core_entry :: "raw \<Rightarrow> nat \<Rightarrow> (nat \<times> int) res" where
  "cpu_core_entry raw i =
     bindR (py_int (py_or (dict_get_or raw (cpu_node_key i) (PInt 0)) (PInt 0))) (\<lambda>n. Inr (i, n))"

definition parse_fail_node :: "pyval \<Rightarrow> int res" where
  "parse_fail_node fn = (if py_strip (py_str fn) \<notin> {'''', ''None''} then py_int fn else Inr (- 1))"

definition bench_fields :: "raw \<Rightarrow> bench_params res" where
  "bench_fields raw =
     bindR (mapR (\<lambda>k. require (k \<in> set (dict_keys raw)) (''missing bench param: '' @ k)) BENCH_REQUIRED) (\<lambda>_.
     bindR (bindR (raw_get raw ''nodes'') py_int) (\<lambda>nodes.
     bindR (bindR (raw_get raw ''num_clients'') py_int) (\<lambda>num_clients.
     bindR (bindR (raw_get raw ''iter_count'') py_int) (\<lambda>iter_count.
     bindR (bindR (raw_get raw ''max_async'') py_int) (\<lambda>max_async.
     bindR (bindR (raw_get raw ''duration'') py_int) (\<lambda>duration.
     bindR (py_int (dict_get_or raw ''runs'' (PInt 1))) (\<lambda>runs.
     bindR (py_float (py_or (dict_get_or raw ''meas_warmup'' (PInt 0)) (PInt 0))) (\<lambda>warmup.
     bindR (py_float (py_or (dict_get_or raw ''meas_cooldown'' (PInt 0)) (PInt 0))) (\<lambda>cooldown.
     bindR (mapR (cpu_core_entry raw) [0..<nat nodes]) (\<lambda>cores.
     bindR (parse_fail_node (dict_get_or raw ''fail_node'' (PInt (- 1)))) (\<lambda>fail_node.
     bindR (py_float (py_or (dict_get_or raw ''fail_at'' (PInt 0)) (PInt 0))) (\<lambda>fail_at.
     bindR (py_float (py_or (dict_get_or raw ''imp_timeout'' (PInt 0)) (PInt 0))) (\<lambda>imp_timeout.
     Inr \<lparr>bp_nodes = nodes, bp_num_clients = num_clients, bp_iter_count = iter_count,
          bp_max_async = max_async, bp_duration = duration, bp_runs = runs,
          bp_collocate_client = parse_bool (dict_get_or raw ''collocate_client'' (PBool True)),
          bp_meas_warmup = warmup, bp_meas_cooldown = cooldown,
          bp_sample_compute = parse_bool (dict_get_or raw ''sample_compute'' (PBool False)),
          bp_cpu_cores = cores, bp_fail_node = fail_node,
          bp_fail_type = py_strip (py_str (py_or (dict_get_or raw ''fail_type'' (PStr [])) (PStr []))),
          bp_fail_at = fail_at, bp_imp_timeout = imp_timeout\<rparr>)))))))))))))"

definition pf0 :: pyfloat where
  "pf0 = Fin 0"

definition bench_checks :: "bench_params \<Rightarrow> unit res" where
  "bench_checks b =
     bindR (require (4 \<le> bp_nodes b) ''nodes must be >= 4 (BFT threshold)'') (\<lambda>_.
     bindR (require (1 \<le> bp_num_clients b) ''num_clients must be >= 1'') (\<lambda>_.
     bindR (require (1 \<le> bp_max_async b) ''max_async must be >= 1'') (\<lambda>_.
     bindR (require (1 \<le> bp_duration b) ''duration must be >= 1'') (\<lambda>_.
     bindR (require (1 \<le> bp_runs b) ''runs must be >= 1'') (\<lambda>_.
     bindR (require (\<forall>n \<in> set (map snd (bp_cpu_cores b)). 0 \<le> n \<and> n \<le> 31)
              ''cpu_node<i> must be 0 (unrestricted) or 1-31 cores'') (\<lambda>_.
     bindR (require (pf_le pf0 (bp_imp_timeout b)) ''imp_timeout must be >= 0'') (\<lambda>_.
     bindR (if 0 \<le> bp_fail_node b then
              bindR (require (bp_fail_node b < bp_nodes b) ''fail_node out of range'') (\<lambda>_.
              bindR (require (bp_fail_type b \<in> {''crash'', ''freeze''})
                       ''fail_type must be crash or freeze'') (\<lambda>_.
              require (pf_lt pf0 (bp_fail_at b) \<and> pf_lt (bp_fail_at b) (pf_of_int (bp_duration b)))
                ''fail_at must be inside the run (0 < fail_at < duration)''))
            else Inr ()) (\<lambda>_.
     require (pf_le pf0 (bp_meas_warmup b) \<and> pf_le pf0 (bp_meas_cooldown b)
              \<and> pf_lt (pf_add (bp_meas_warmup b) (bp_meas_cooldown b)) (pf_of_int (bp_duration b)))
       ''meas_warmup + meas_cooldown must be >= 0 and < duration''))))))))"

definition BenchParameters :: "raw \<Rightarrow> bench_params res" where
  "BenchParameters raw =
     bindR (as_config_error ''bench param type error: '' (bench_fields raw)) (\<lambda>b.
     bindR (bench_checks b) (\<lambda>_. Inr b))"

text \<open>What a validated record promises to the code that runs it.\<close>

definition bench_ok :: "bench_params \<Rightarrow> bool" where
  "bench_ok b \<longleftrightarrow>
     4 \<le> bp_nodes b \<and> 1 \<le> bp_num_clients b \<and> 1 \<le> bp_max_async b \<and> 1 \<le> bp_duration b \<and> 1 \<le> bp_runs b
     \<and> dict_keys (bp_cpu_cores b) = [0..<nat (bp_nodes b)]
     \<and> (\<forall>n \<in> set (map snd (bp_cpu_cores b)). 0 \<le> n \<and> n \<le> 31)
     \<and> (\<exists>w c. bp_meas_warmup b = Fin w \<and> bp_meas_cooldown b = Fin c \<and> 0 \<le> w \<and> 0 \<le> c
           \<and> w + c < of_int (bp_duration b))
     \<and> pf_le pf0 (bp_imp_timeout b)
     \<and> (0 \<le> bp_fail_node b \<longrightarrow> bp_fail_node b < bp_nodes b
           \<and> bp_fail_type b \<in> {''crash'', ''freeze''}
           \<and> (\<exists>t. bp_fail_at b = Fin t \<and> 0 < t \<and> t < of_int (bp_duration b)))"

lemma window_finite:
  assumes "pf_le pf0 w" "pf_le pf0 c" "pf_lt (pf_add w c) (Fin d)"
  shows "\<exists>x y. w = Fin x \<and> c = Fin y \<and> 0 \<le> x \<and> 0 \<le> y \<and> x + y < d"
  using assms by (cases w; cases c) (auto simp: pf_le_def pf0_def)

lemma mapR_tagged_keys:
  "mapR (\<lambda>i. bindR (g i) (\<lambda>v. Inr (i, v))) xs = Inr ds \<Longrightarrow> map fst ds = xs"
  by (induction xs arbitrary: ds) (auto simp: bindR_Inr_iff)

lemma bench_fields_cores:
  assumes "bench_fields raw = Inr b"
  shows "dict_keys (bp_cpu_cores b) = [0..<nat (bp_nodes b)]"
proof -
  obtain nodes cores where b: "bp_nodes b = nodes" "bp_cpu_cores b = cores"
    and m: "mapR (cpu_core_entry raw) [0..<nat nodes] = Inr cores"
    using assms by (auto simp: bench_fields_def bindR_Inr_iff)
  show ?thesis
    unfolding b using m unfolding cpu_core_entry_def by (rule mapR_tagged_keys)
qed

text \<open>C4. Whatever the CSV row holds, a \<open>BenchParameters\<close> object that is constructed at all is
  usable: a BFT-sized cluster, one core entry per replica within the 31-core range, a non-empty
  measurement window of finite floats, and a failure target inside the cluster and inside the run.\<close>

lemma BenchParameters_valid:
  assumes "BenchParameters raw = Inr b"
  shows "bench_ok b"
proof -
  have f: "bench_fields raw = Inr b" and c: "bench_checks b = Inr ()"
    using assms by (auto simp: BenchParameters_def bindR_Inr_iff)
  have win: "pf_le pf0 (bp_meas_warmup b)" "pf_le pf0 (bp_meas_cooldown b)"
      "pf_lt (pf_add (bp_meas_warmup b) (bp_meas_cooldown b)) (Fin (of_int (bp_duration b)))"
    using c by (simp_all add: bench_checks_def bindR_Inr_iff pf_of_int_def)
  have fail: "0 \<le> bp_fail_node b \<longrightarrow> bp_fail_node b < bp_nodes b \<and> bp_fail_type b \<in> {''crash'', ''freeze''}
      \<and> pf_lt (Fin 0) (bp_fail_at b) \<and> pf_lt (bp_fail_at b) (Fin (of_int (bp_duration b)))"
    using c by (simp add: bench_checks_def bindR_Inr_iff pf_of_int_def pf0_def split: if_splits)
  have rest: "4 \<le> bp_nodes b" "1 \<le> bp_num_clients b" "1 \<le> bp_max_async b" "1 \<le> bp_duration b" "1 \<le> bp_runs b"
      "\<forall>n \<in> set (map snd (bp_cpu_cores b)). 0 \<le> n \<and> n \<le> 31" "pf_le pf0 (bp_imp_timeout b)"
    using c by (simp_all add: bench_checks_def bindR_Inr_iff)
  show ?thesis
    unfolding bench_ok_def
    using rest window_finite [OF win] fail pf_lt_finite bench_fields_cores [OF f] by blast
qed

text \<open>Which exceptions a constructor can raise: conversions of anything but a float raise only what
  the \<open>except\<close> clause catches.\<close>

definition caught :: "'a res \<Rightarrow> bool" where
  "caught r \<longleftrightarrow> (\<forall>e. r = Inl e \<longrightarrow> is_TypeError e \<or> is_ValueError e \<or> (\<exists>m. e = ConfigError m))"

named_theorems caught_intros \<open>introduction rules for \<open>caught\<close>\<close>

lemma caught_Inr [caught_intros]: "caught (Inr x)"
  by (simp add: caught_def)

lemma caught_bind [caught_intros]:
  "caught r \<Longrightarrow> (\<And>x. r = Inr x \<Longrightarrow> caught (f x)) \<Longrightarrow> caught (bindR r f)"
  by (cases r) (simp_all add: caught_def)

lemma caught_require [caught_intros]: "caught (require c m)"
  by (simp add: caught_def require_def)

lemma caught_mapR [caught_intros]: "(\<And>x. x \<in> set xs \<Longrightarrow> caught (f x)) \<Longrightarrow> caught (mapR f xs)"
  by (induction xs) (auto intro!: caught_intros)

definition not_float :: "pyval \<Rightarrow> bool" where
  "not_float v \<longleftrightarrow> (\<forall>x. v \<noteq> PFloat x)"

lemma caught_py_int [caught_intros]: "not_float v \<Longrightarrow> caught (py_int v)"
  by (cases v) (auto simp: caught_def not_float_def split: option.splits)

lemma caught_py_float [caught_intros]: "caught (py_float v)"
  by (cases v) (auto simp: caught_def split: option.splits)

definition no_floats :: "raw \<Rightarrow> bool" where
  "no_floats raw \<longleftrightarrow> (\<forall>(k, v) \<in> set raw. not_float v)"

lemma no_floats_get: "no_floats raw \<Longrightarrow> dict_get raw k = Some v \<Longrightarrow> not_float v"
  by (auto simp: no_floats_def dest!: map_of_SomeD)

lemma not_float_get_or [caught_intros]:
  "no_floats raw \<Longrightarrow> not_float v \<Longrightarrow> not_float (dict_get_or raw k v)"
  by (auto simp: dict_get_or_def dest: no_floats_get split: option.splits)

lemma not_float_or [caught_intros]: "not_float a \<Longrightarrow> not_float b \<Longrightarrow> not_float (py_or a b)"
  by (simp add: py_or_def)

lemma not_float_values [caught_intros]: "not_float (PInt i)" "not_float (PStr s)" "not_float (PBool b)"
  by (simp_all add: not_float_def)

lemma caught_raw_int:
  assumes "no_floats raw" "k \<in> set (dict_keys raw)"
  shows "caught (bindR (raw_get raw k) py_int)"
proof -
  obtain v where v: "dict_get raw k = Some v" using assms(2) unfolding dict_get_in_keys by blast
  with assms(1) have "not_float v" by (blast dest: no_floats_get)
  with v show ?thesis by (simp add: raw_get_def caught_py_int)
qed

lemma required_keys:
  assumes "mapR (\<lambda>k. require (P k) (g k)) ks = Inr us" "k \<in> set ks"
  shows "P k"
  using assms by (induction ks arbitrary: us) (auto simp: bindR_Inr_iff)

lemma caught_bench_fields:
  assumes nf: "no_floats raw"
  shows "caught (bench_fields raw)"
proof -
  have core: "caught (cpu_core_entry raw i)" for i
    unfolding cpu_core_entry_def by (intro caught_intros nf)
  have fn: "caught (parse_fail_node (dict_get_or raw ''fail_node'' (PInt (- 1))))"
    by (simp add: parse_fail_node_def caught_intros nf)
  have rest: "caught (bench_fields raw)" if k: "\<forall>k \<in> set BENCH_REQUIRED. k \<in> set (dict_keys raw)"
  proof -
    note req = caught_raw_int [OF nf k [rule_format]]
    show ?thesis unfolding bench_fields_def
      by (intro caught_intros nf req core fn) (simp_all add: BENCH_REQUIRED_def)
  qed
  show ?thesis
  proof (cases "\<forall>k \<in> set BENCH_REQUIRED. k \<in> set (dict_keys raw)")
    case False
    let ?r = "mapR (\<lambda>k. require (k \<in> set (dict_keys raw)) (''missing bench param: '' @ k)) BENCH_REQUIRED"
    have c: "caught ?r" by (intro caught_intros)
    show ?thesis
    proof (cases ?r)
      case (Inl e)
      with c show ?thesis unfolding bench_fields_def by (simp add: caught_def)
    next
      case (Inr us)
      from required_keys [OF this] False show ?thesis by blast
    qed
  qed (rule rest)
qed

lemma caught_as_config_error:
  "caught r \<Longrightarrow> as_config_error p r = Inl e \<Longrightarrow> \<exists>m. e = ConfigError m"
  by (cases r) (auto simp: caught_def as_config_error_def split: if_splits)

lemma bench_checks_error: "bench_checks b = Inl e \<Longrightarrow> \<exists>m. e = ConfigError m"
  by (auto simp: bench_checks_def bindR_Inl_iff require_Inl split: if_splits)

text \<open>C18. For the values a CSV row can supply (no floats), every rejection of the bench parameters is
  a \<open>ConfigError\<close>, the one exception the row loop turns into a \<open>PARAM_ERROR\<close> row.\<close>

theorem BenchParameters_config_error:
  assumes "no_floats raw" "BenchParameters raw = Inl e"
  shows "\<exists>m. e = ConfigError m"
  using assms caught_as_config_error [OF caught_bench_fields] bench_checks_error
  unfolding BenchParameters_def bindR_Inl_iff by blast

definition short_row :: raw where
  "short_row = [(''nodes'', PStr ''3''), (''num_clients'', PStr ''1''), (''iter_count'', PStr ''-1''),
     (''max_async'', PStr ''10''), (''duration'', PNone)]"

lemma BenchParameters_config_error_witness:
  "\<exists>e. BenchParameters short_row = Inl e \<and> (\<exists>m. e = ConfigError m)"
proof -
  have e: "BenchParameters short_row =
      Inl (ConfigError ''bench param type error: int() argument must not be NoneType'')"
    by code_simp
  have "no_floats short_row" by (simp add: no_floats_def not_float_def short_row_def)
  from BenchParameters_config_error [OF this e] e show ?thesis by blast
qed

definition sample_row :: raw where
  "sample_row = [(''nodes'', PStr ''4''), (''num_clients'', PStr ''1''), (''iter_count'', PStr ''-1''),
     (''max_async'', PStr ''10''), (''duration'', PStr ''60''), (''meas_warmup'', PStr ''5.5''),
     (''cpu_node2'', PStr ''8''), (''fail_node'', PStr ''3''), (''fail_type'', PStr ''crash''),
     (''fail_at'', PStr ''30'')]"

definition sample_bench :: bench_params where
  "sample_bench = \<lparr>bp_nodes = 4, bp_num_clients = 1, bp_iter_count = - 1, bp_max_async = 10,
     bp_duration = 60, bp_runs = 1, bp_collocate_client = True, bp_meas_warmup = Fin (11 / 2),
     bp_meas_cooldown = Fin 0, bp_sample_compute = False,
     bp_cpu_cores = [(0, 0), (1, 0), (2, 8), (3, 0)], bp_fail_node = 3, bp_fail_type = ''crash'',
     bp_fail_at = Fin 30, bp_imp_timeout = Fin 0\<rparr>"

lemma sample_row_accepted: "BenchParameters sample_row = Inr sample_bench"
  by code_simp

lemma BenchParameters_valid_witness: "bench_ok sample_bench"
  by (rule BenchParameters_valid [OF sample_row_accepted])

subsection \<open>ProtocolParameters\<close>

record protocol_params =
  pp_block_size :: int
  pp_pace_maker :: string
  pp_nworker :: int
  pp_repnworker :: int
  pp_clinworker :: int
  pp_repburst :: int
  pp_cliburst :: int
  pp_max_rep_msg :: int
  pp_max_cli_msg :: int
  pp_pport :: int
  pp_cport :: int
  pp_sb_users :: int
  pp_sb_prob_choose_mtx :: pyfloat
  pp_sb_skew_factor :: pyfloat

definition int_field :: "raw \<Rightarrow> string \<Rightarrow> int \<Rightarrow> int res" where
  "int_field raw k d = py_int (dict_get_or raw k (PInt d))"

definition float_field :: "raw \<Rightarrow> string \<Rightarrow> rat \<Rightarrow> pyfloat res" where
  "float_field raw k d = py_float (dict_get_or raw k (PFloat (Fin d)))"

definition protocol_fields :: "raw \<Rightarrow> protocol_params res" where
  "protocol_fields raw =
     bindR (int_field raw ''block_size'' 400) (\<lambda>block_size.
     bindR (int_field raw ''nworker'' 4) (\<lambda>nworker.
     bindR (int_field raw ''repnworker'' 4) (\<lambda>repnworker.
     bindR (int_field raw ''clinworker'' 4) (\<lambda>clinworker.
     bindR (int_field raw ''repburst'' 1000) (\<lambda>repburst.
     bindR (int_field raw ''cliburst'' 1000) (\<lambda>cliburst.
     bindR (int_field raw ''max_rep_msg'' (4 * 2 ^ 20)) (\<lambda>max_rep_msg.
     bindR (int_field raw ''max_cli_msg'' 65536) (\<lambda>max_cli_msg.
     bindR (int_field raw ''pport'' 10000) (\<lambda>pport.
     bindR (int_field raw ''cport'' 20000) (\<lambda>cport.
     bindR (int_field raw ''sb_users'' 1000) (\<lambda>sb_users.
     bindR (float_field raw ''sb_prob_choose_mtx'' (9 / 10)) (\<lambda>mtx.
     bindR (float_field raw ''sb_skew_factor'' (1 / 10)) (\<lambda>skew.
     Inr \<lparr>pp_block_size = block_size,
          pp_pace_maker = py_str (dict_get_or raw ''pace_maker'' (PStr ''rr'')),
          pp_nworker = nworker, pp_repnworker = repnworker, pp_clinworker = clinworker,
          pp_repburst = repburst, pp_cliburst = cliburst, pp_max_rep_msg = max_rep_msg,
          pp_max_cli_msg = max_cli_msg, pp_pport = pport, pp_cport = cport,
          pp_sb_users = sb_users, pp_sb_prob_choose_mtx = mtx, pp_sb_skew_factor = skew\<rparr>)))))))))))))"

definition at_least_one_fields :: "protocol_params \<Rightarrow> (string \<times> int) list" where
  "at_least_one_fields p =
     [(''nworker'', pp_nworker p), (''repnworker'', pp_repnworker p), (''clinworker'', pp_clinworker p),
      (''repburst'', pp_repburst p), (''cliburst'', pp_cliburst p),
      (''max_rep_msg'', pp_max_rep_msg p), (''max_cli_msg'', pp_max_cli_msg p)]"

definition protocol_checks :: "protocol_params \<Rightarrow> unit res" where
  "protocol_checks p =
     bindR (require (1 \<le> pp_block_size p) ''block_size must be >= 1'') (\<lambda>_.
     bindR (require (pp_pace_maker p \<in> {''rr'', ''dummy''}) ''pace_maker must be rr or dummy'') (\<lambda>_.
     bindR (mapR (\<lambda>(name, v). require (1 \<le> v) (name @ '' must be >= 1'')) (at_least_one_fields p)) (\<lambda>_.
     bindR (require (1 \<le> pp_sb_users p) ''sb_users must be >= 1'') (\<lambda>_.
     bindR (require (pf_le pf0 (pp_sb_prob_choose_mtx p) \<and> pf_le (pp_sb_prob_choose_mtx p) (Fin 1))
              ''sb_prob_choose_mtx must be in [0, 1]'') (\<lambda>_.
     require (pf_le pf0 (pp_sb_skew_factor p)) ''sb_skew_factor must be >= 0'')))))"

definition ProtocolParameters :: "raw \<Rightarrow> protocol_params res" where
  "ProtocolParameters raw =
     bindR (as_config_error ''protocol param type error: '' (protocol_fields raw)) (\<lambda>p.
     bindR (protocol_checks p) (\<lambda>_. Inr p))"

definition gen_conf_kwargs :: "protocol_params \<Rightarrow> string \<Rightarrow> string option \<Rightarrow> gen_conf_args" where
  "gen_conf_kwargs p ips_file prefix =
     \<lparr>gc_ips_file = ips_file,
      gc_prefix = (case prefix of None \<Rightarrow> conf_prefix | Some x \<Rightarrow> if x = [] then conf_prefix else x),
      gc_block_size = pp_block_size p, gc_pace_maker = pp_pace_maker p,
      gc_nworker = pp_nworker p, gc_repnworker = pp_repnworker p, gc_clinworker = pp_clinworker p,
      gc_repburst = pp_repburst p, gc_cliburst = pp_cliburst p,
      gc_pport = pp_pport p, gc_cport = pp_cport p, gc_sb_users = pp_sb_users p,
      gc_sb_prob_choose_mtx = pp_sb_prob_choose_mtx p, gc_sb_skew_factor = pp_sb_skew_factor p\<rparr>"

definition protocol_ok :: "protocol_params \<Rightarrow> bool" where
  "protocol_ok p \<longleftrightarrow>
     1 \<le> pp_block_size p \<and> pp_pace_maker p \<in> {''rr'', ''dummy''}
     \<and> (\<forall>(n, v) \<in> set (at_least_one_fields p). 1 \<le> v)
     \<and> 1 \<le> pp_sb_users p
     \<and> (\<exists>m. pp_sb_prob_choose_mtx p = Fin m \<and> 0 \<le> m \<and> m \<le> 1)
     \<and> pf_le pf0 (pp_sb_skew_factor p)"


definition sample_protocol :: protocol_params where
  "sample_protocol = \<lparr>pp_block_size = 200, pp_pace_maker = ''rr'', pp_nworker = 4, pp_repnworker = 4,
     pp_clinworker = 4, pp_repburst = 1000, pp_cliburst = 1000, pp_max_rep_msg = 4194304,
     pp_max_cli_msg = 65536, pp_pport = 10000, pp_cport = 20000, pp_sb_users = 1000,
     pp_sb_prob_choose_mtx = Fin (1 / 2), pp_sb_skew_factor = Fin (1 / 10)\<rparr>"


subsection \<open>NetworkParameters\<close>

definition lat_node_key :: "nat \<Rightarrow> string" where
  "lat_node_key i = ''lat_node'' @ show_nat i"

definition NetworkParameters :: "raw \<Rightarrow> (nat, int) dict res" where
  "NetworkParameters raw =
     bindR (as_config_error ''network param type error: ''
       (mapR (\<lambda>i. bindR (int_field raw (lat_node_key i) 0) (\<lambda>v. Inr (i, v))) [0..<4])) (\<lambda>lats.
     bindR (mapR (\<lambda>(i, v). require (0 \<le> v) (lat_node_key i @ '' must be >= 0'')) lats) (\<lambda>_.
     Inr lats))"

definition any_latency :: "(nat, int) dict \<Rightarrow> bool" where
  "any_latency lats \<longleftrightarrow> (\<exists>v \<in> set (map snd lats). 0 < v)"

lemma NetworkParameters_valid:
  assumes "NetworkParameters raw = Inr lats"
  shows "dict_keys lats = [0, 1, 2, 3] \<and> (\<forall>v \<in> set (map snd lats). 0 \<le> v)"
proof -
  obtain us where m: "mapR (\<lambda>i. bindR (int_field raw (lat_node_key i) 0) (\<lambda>v. Inr (i, v))) [0..<4] = Inr lats"
    and c: "mapR (\<lambda>(i, v). require (0 \<le> v) (lat_node_key i @ '' must be >= 0'')) lats = Inr us"
    using assms unfolding NetworkParameters_def bindR_Inr_iff as_config_error_Inr by blast
  have four: "[0..<4] = [0, 1, 2, 3 :: nat]" by (simp add: upt_rec)
  have "dict_keys lats = [0, 1, 2, 3]"
    using mapR_tagged_keys [OF m] unfolding four .
  moreover have "0 \<le> v" if "(i, v) \<in> set lats" for i v
  proof -
    let ?f = "\<lambda>(i, v). require (0 \<le> v) (lat_node_key i @ '' must be >= 0'') :: unit res"
    have "?f (i, v) \<in> set (map ?f lats)" using imageI [OF that, of ?f] by (simp only: set_map)
    then have "?f (i, v) \<in> Inr ` set us" using c unfolding mapR_Inr_iff by simp
    then show ?thesis by auto
  qed
  ultimately show ?thesis by auto
qed

subsection \<open>The ips file\<close>

text \<open>\<open>write_ips_file\<close> writes one address per line.\<close>

definition ips_file_text :: "string list \<Rightarrow> string" where
  "ips_file_text ips = concat (map (\<lambda>ip. ip @ [CHR 0x0A]) ips)"

end
