(* ===== verification/Testbed.thy ===== *)
theory Testbed
  imports Utils
begin

section \<open>Settings, manifest and instance manager (settings.py, manifest.py, instance.py)\<close>

text \<open>
  What the harness knows of the testbed: the settings file, the CloudLab manifest and the
  manager that joins them. The results of \<open>json.load\<close> and of \<open>xml.etree.ElementTree.parse\<close> are
  arguments: a document, or the exception the parser or \<open>open\<close> raised.
\<close>

subsection \<open>Settings\<close>

record settings =
  cloudlab_username :: string
  base_port :: int
  repo_name :: string
  repo_url :: string
  branch :: string

definition CloudLabSettings :: "jval \<Rightarrow> jval \<Rightarrow> jval \<Rightarrow> jval \<Rightarrow> jval \<Rightarrow> settings res" where
  "CloudLabSettings username port name url br =
     (case (username, port, name, url, br) of
        (JStr u, JInt p, JStr n, JStr r, JStr b) \<Rightarrow>
          if 1024 < p then Inr \<lparr>cloudlab_username = u, base_port = p, repo_name = n, repo_url = r, branch = b\<rparr>
          else Inl (SettingsError ''Invalid CloudLab settings types'')
      | _ \<Rightarrow> Inl (SettingsError ''Invalid CloudLab settings types''))"

fun is_KeyError :: "exn \<Rightarrow> bool" where
  "is_KeyError (KeyError _) = True"
| "is_KeyError _ = False"

fun is_JSONDecodeError :: "exn \<Rightarrow> bool" where
  "is_JSONDecodeError (JSONDecodeError _) = True"
| "is_JSONDecodeError _ = False"

definition settings_load :: "jval res \<Rightarrow> settings res" where
  "settings_load file =
     catchR
       (catchR
         (bindR file (\<lambda>data.
          bindR (bindR (jget data ''cloudlab'') (\<lambda>c. jget c ''username'')) (\<lambda>username.
          bindR (jget data ''port'') (\<lambda>port.
          bindR (bindR (jget data ''repo'') (\<lambda>r. jget r ''name'')) (\<lambda>name.
          bindR (bindR (jget data ''repo'') (\<lambda>r. jget r ''url'')) (\<lambda>url.
          bindR (bindR (jget data ''repo'') (\<lambda>r. jget r ''branch'')) (\<lambda>br.
          CloudLabSettings username port name url br)))))))
         (\<lambda>e. is_OSError e \<or> is_JSONDecodeError e) (\<lambda>e. Inl (SettingsError (exn_msg e))))
       is_KeyError (\<lambda>e. Inl (SettingsError (''Malformed settings: missing key '' @ exn_msg e)))"

text \<open>The document a settings object is read from.\<close>

definition settings_doc :: "settings \<Rightarrow> jval" where
  "settings_doc s = JObj
     [(''cloudlab'', JObj [(''username'', JStr (cloudlab_username s))]),
      (''port'', JInt (base_port s)),
      (''repo'', JObj [(''name'', JStr (repo_name s)), (''url'', JStr (repo_url s)), (''branch'', JStr (branch s))])]"

lemma CloudLabSettings_Inr:
  "CloudLabSettings u p n r b = Inr s \<longleftrightarrow>
     1024 < base_port s \<and> u = JStr (cloudlab_username s) \<and> p = JInt (base_port s) \<and>
     n = JStr (repo_name s) \<and> r = JStr (repo_url s) \<and> b = JStr (branch s)"
  unfolding CloudLabSettings_def by (cases s) (auto split: jval.splits if_splits)

lemma CloudLabSettings_Inl: "CloudLabSettings u p n r b = Inl e \<Longrightarrow> \<exists>m. e = SettingsError m"
  unfolding CloudLabSettings_def by (auto split: jval.splits if_splits)

lemma settings_load_doc:
  "settings_load (Inr (settings_doc s)) =
     (if 1024 < base_port s then Inr s else Inl (SettingsError ''Invalid CloudLab settings types''))"
  by (simp add: settings_load_def settings_doc_def CloudLabSettings_def)

lemma jget_Inl: "jget (JObj ms) k = Inl e \<Longrightarrow> is_KeyError e"
  by (auto split: option.splits)

text \<open>An object whose \<open>cloudlab\<close> and \<open>repo\<close> members, where present, are objects.\<close>

definition settings_shaped :: "jval \<Rightarrow> bool" where
  "settings_shaped d \<longleftrightarrow> (\<exists>ms. d = JObj ms \<and>
     (\<forall>k \<in> {''cloudlab'', ''repo''}. \<forall>v. map_of ms k = Some v \<longrightarrow> (\<exists>ns. v = JObj ns)))"

lemma settings_get2:
  assumes "settings_shaped d" "k \<in> {''cloudlab'', ''repo''}"
  shows "bindR (jget d k) (\<lambda>c. jget c k') = Inl e \<Longrightarrow> is_KeyError e"
proof -
  obtain ms where ms: "d = JObj ms" "\<And>v. map_of ms k = Some v \<Longrightarrow> \<exists>ns. v = JObj ns"
    using assms unfolding settings_shaped_def by blast
  show "bindR (jget d k) (\<lambda>c. jget c k') = Inl e \<Longrightarrow> is_KeyError e"
    using ms(2) by (cases "map_of ms k") (fastforce simp: ms(1) split: option.splits)+
qed

lemma settings_load_error:
  assumes "settings_shaped d" "settings_load (Inr d) = Inl e"
  shows "\<exists>m. e = SettingsError m"
proof -
  define body where "body =
     bindR (bindR (jget d ''cloudlab'') (\<lambda>c. jget c ''username'')) (\<lambda>username.
          bindR (jget d ''port'') (\<lambda>port.
          bindR (bindR (jget d ''repo'') (\<lambda>r. jget r ''name'')) (\<lambda>name.
          bindR (bindR (jget d ''repo'') (\<lambda>r. jget r ''url'')) (\<lambda>url.
          bindR (bindR (jget d ''repo'') (\<lambda>r. jget r ''branch'')) (\<lambda>br.
          CloudLabSettings username port name url br)))))"
  have port: "is_KeyError x" if "jget d ''port'' = Inl x" for x
    using that assms(1) unfolding settings_shaped_def by (auto split: option.splits)
  have "is_KeyError x \<or> (\<exists>m. x = SettingsError m)" if "body = Inl x" for x
    using that unfolding body_def bindR_Inl_iff [where r = "bindR (jget _ _) _"] bindR_Inl_iff [where r = "jget d ''port''"]
    using settings_get2 [OF assms(1), of "''cloudlab''"] settings_get2 [OF assms(1), of "''repo''"]
      port CloudLabSettings_Inl by blast
  with assms(2) show ?thesis
    unfolding settings_load_def bindR_simps body_def [symmetric]
    by (cases body) (auto split: if_splits elim!: is_KeyError.elims)
qed

subsection \<open>The manifest\<close>

datatype xml = Elem (xml_tag: string) (xml_attrs: "(string, string) dict") (xml_children: "xml list")

record manifest =
  mf_hosts :: "string list"
  mf_hostnames :: "string list"
  mf_multi_site :: bool

definition GENI_NS :: string where
  "GENI_NS = ''http://www.geni.net/resources/rspec/3''"

text \<open>\<open>e.findall('g:tag', ns)\<close>, \<open>e.find('g:tag', ns)\<close> and \<open>e.get(attr)\<close>; the tag of an element is
  \<open>{namespace}name\<close>.\<close>

definition g_tag :: "string \<Rightarrow> string" where
  "g_tag t = ''{'' @ GENI_NS @ ''}'' @ t"

definition xml_findall :: "string \<Rightarrow> xml \<Rightarrow> xml list" where
  "xml_findall t e = filter (\<lambda>c. xml_tag c = g_tag t) (xml_children e)"

definition xml_find :: "string \<Rightarrow> xml \<Rightarrow> xml option" where
  "xml_find t e = find (\<lambda>c. xml_tag c = g_tag t) (xml_children e)"

definition xml_get :: "string \<Rightarrow> xml \<Rightarrow> string option" where
  "xml_get a e = dict_get (xml_attrs e) a"

definition truthy_str :: "string option \<Rightarrow> bool" where
  "truthy_str x \<longleftrightarrow> x \<noteq> None \<and> x \<noteq> Some []"

fun node_private_ip :: "xml list \<Rightarrow> string option \<Rightarrow> string option" where
  "node_private_ip [] cur = cur"
| "node_private_ip (iface # rest) cur =
     (let cur' = (case find (\<lambda>e. xml_get ''type'' e = Some ''ipv4'') (xml_findall ''ip'' iface) of
                    None \<Rightarrow> cur | Some e \<Rightarrow> xml_get ''address'' e)
      in if truthy_str cur' then cur' else node_private_ip rest cur')"

definition node_hostname :: "xml \<Rightarrow> string option" where
  "node_hostname node =
     (case xml_find ''services'' node of
        None \<Rightarrow> None
      | Some services \<Rightarrow>
          (case xml_find ''login'' services of None \<Rightarrow> None | Some login \<Rightarrow> xml_get ''hostname'' login))"

definition node_site :: "xml \<Rightarrow> string" where
  "node_site node = dict_get_or (xml_attrs node) ''component_manager_id'' []"

text \<open>One pass of the loop: the triples appended to \<open>hosts\<close>, \<open>hostnames\<close> and \<open>sites\<close>.\<close>

definition manifest_node :: "xml \<Rightarrow> (string \<times> string \<times> string) list" where
  "manifest_node node =
     (let private_ip = node_private_ip (xml_findall ''interface'' node) None;
          hostname = node_hostname node
      in if truthy_str private_ip \<and> truthy_str hostname
         then [(the private_ip, the hostname, node_site node)] else [])"

definition Manifest :: "string list \<Rightarrow> string list \<Rightarrow> bool \<Rightarrow> manifest res" where
  "Manifest hosts hostnames multi_site =
     (if length hosts = length hostnames \<and> 0 < length hosts
      then Inr \<lparr>mf_hosts = hosts, mf_hostnames = hostnames, mf_multi_site = multi_site\<rparr>
      else Inl (AssertionError []))"

definition unique_sites :: "string list \<Rightarrow> string list" where
  "unique_sites sites = remdups (filter (\<lambda>s. s \<noteq> []) sites)"

fun is_XmlParseError :: "exn \<Rightarrow> bool" where
  "is_XmlParseError (XmlParseError _) = True"
| "is_XmlParseError _ = False"

definition manifest_load :: "string \<Rightarrow> xml res \<Rightarrow> manifest res" where
  "manifest_load filename file =
     bindR (catchR (catchR file is_XmlParseError
                (\<lambda>e. Inl (ManifestError (''Failed to parse '' @ filename @ '': '' @ exn_msg e))))
              is_OSError (\<lambda>e. Inl (ManifestError (exn_msg e)))) (\<lambda>rt.
     let nodes = concat (map manifest_node (xml_findall ''node'' rt));
         hosts = map fst nodes; hostnames = map (fst \<circ> snd) nodes; sites = map (snd \<circ> snd) nodes
     in if hosts = [] then
          Inl (ManifestError (''No usable nodes found in '' @ filename @
            ''. Each node needs an IPv4 interface address and a login hostname.''))
        else Manifest hosts hostnames (1 < length (unique_sites sites)))"

text \<open>The warning printed for a multi-site manifest.\<close>

definition multi_site_warning :: "string list \<Rightarrow> string list" where
  "multi_site_warning sites =
     (if 1 < length (unique_sites sites) then
        [print_warn (''Multi-site experiment detected across '' @ show_nat (length (unique_sites sites)) @
           '' sites '' @ [CHR 0xE2, CHR 0x80, CHR 0x94] @ '' public hostnames will be used for protocol config'')]
      else [])"

text \<open>The nodes the loop accepts, as the manifest describes them.\<close>

definition usable :: "xml \<Rightarrow> bool" where
  "usable node \<longleftrightarrow> truthy_str (node_private_ip (xml_findall ''interface'' node) None)
     \<and> truthy_str (node_hostname node)"

definition usable_nodes :: "xml \<Rightarrow> xml list" where
  "usable_nodes rt = filter usable (xml_findall ''node'' rt)"

lemma manifest_nodes_eq:
  "concat (map manifest_node nodes) =
     map (\<lambda>n. (the (node_private_ip (xml_findall ''interface'' n) None), the (node_hostname n), node_site n))
       (filter usable nodes)"
  by (induction nodes) (simp_all add: manifest_node_def usable_def Let_def)

lemma truthy_str_iff: "truthy_str x \<longleftrightarrow> (\<exists>s. x = Some s \<and> s \<noteq> [])"
  by (cases x) (auto simp: truthy_str_def)

lemma two_unique_iff:
  "1 < length (unique_sites sites) \<longleftrightarrow>
     (\<exists>s \<in> set sites. \<exists>t \<in> set sites. s \<noteq> [] \<and> t \<noteq> [] \<and> s \<noteq> t)" (is "?l \<longleftrightarrow> ?r")
proof
  define us where "us = unique_sites sites"
  have d: "distinct us" and st: "set us = {s \<in> set sites. s \<noteq> []}"
    by (auto simp: us_def unique_sites_def)
  {
    assume ?l
    then obtain a b r where "us = a # b # r"
      unfolding us_def [symmetric] by (cases us; cases "tl us") auto
    with d st show ?r
      by (metis (mono_tags, lifting) distinct_length_2_or_more list.set_intros mem_Collect_eq)
  next
    assume ?r
    then obtain s t where "s \<in> set us" "t \<in> set us" "s \<noteq> t" using st by auto
    then have "card {s, t} \<le> card (set us)" by (intro card_mono) auto
    with \<open>s \<noteq> t\<close> d show ?l unfolding us_def [symmetric] by (simp add: distinct_card)
  }
qed

lemma manifest_load_Inr:
  "manifest_load fn (Inr rt) = Inr m \<Longrightarrow>
     usable_nodes rt \<noteq> [] \<and>
     mf_hosts m = map (\<lambda>n. the (node_private_ip (xml_findall ''interface'' n) None)) (usable_nodes rt) \<and>
     mf_hostnames m = map (\<lambda>n. the (node_hostname n)) (usable_nodes rt) \<and>
     mf_multi_site m = (1 < length (unique_sites (map node_site (usable_nodes rt))))"
  by (auto simp: manifest_load_def Manifest_def manifest_nodes_eq Let_def comp_def usable_nodes_def
      split: if_splits)


definition sample_node :: "string \<Rightarrow> string \<Rightarrow> string \<Rightarrow> xml" where
  "sample_node site ip host = Elem (g_tag ''node'') [(''component_manager_id'', site)]
     [Elem (g_tag ''interface'') [] [Elem (g_tag ''ip'') [(''type'', ''ipv4''), (''address'', ip)] []],
      Elem (g_tag ''services'') [] [Elem (g_tag ''login'') [(''hostname'', host)] []]]"

definition sample_rspec :: xml where
  "sample_rspec = Elem (g_tag ''rspec'') []
     [sample_node ''utah'' ''10.10.1.1'' ''a.example'', Elem (g_tag ''node'') [] [],
      sample_node ''wisc'' ''10.10.1.2'' ''b.example'']"


subsection \<open>The instance manager\<close>

record manager =
  mg_manifest :: manifest
  mg_settings :: settings

fun is_ManifestError :: "exn \<Rightarrow> bool" where
  "is_ManifestError (ManifestError _) = True"
| "is_ManifestError _ = False"

fun is_SettingsError :: "exn \<Rightarrow> bool" where
  "is_SettingsError (SettingsError _) = True"
| "is_SettingsError _ = False"

definition manager_make :: "string \<Rightarrow> xml res \<Rightarrow> jval res \<Rightarrow> manager res" where
  "manager_make manifest_file xml_file json_file =
     catchR (catchR
       (bindR (manifest_load manifest_file xml_file) (\<lambda>manifest.
        bindR (settings_load json_file) (\<lambda>st.
        Inr \<lparr>mg_manifest = manifest, mg_settings = st\<rparr>)))
       is_ManifestError (\<lambda>e. Inl (BenchError ''Failed to load CloudLab manifest'' e)))
       is_SettingsError (\<lambda>e. Inl (BenchError ''Failed to load CloudLab settings'' e))"

definition hosts :: "manager \<Rightarrow> string list" where
  "hosts mg = mf_hosts (mg_manifest mg)"

definition ssh_hosts :: "manager \<Rightarrow> string list" where
  "ssh_hosts mg = mf_hostnames (mg_manifest mg)"

text \<open>What an XML parser and \<open>open\<close> can raise.\<close>

definition xml_result_ok :: "xml res \<Rightarrow> bool" where
  "xml_result_ok r \<longleftrightarrow> (\<forall>e. r = Inl e \<longrightarrow> is_XmlParseError e \<or> is_OSError e)"

definition json_result_ok :: "jval res \<Rightarrow> bool" where
  "json_result_ok r \<longleftrightarrow> (case r of Inl e \<Rightarrow> is_OSError e \<or> is_JSONDecodeError e | Inr d \<Rightarrow> settings_shaped d)"

lemma manifest_load_Inl:
  assumes "xml_result_ok f" "manifest_load fn f = Inl e"
  shows "\<exists>m. e = ManifestError m"
  using assms
  by (cases f) (auto simp: manifest_load_def xml_result_ok_def Manifest_def manifest_nodes_eq Let_def
      split: if_splits elim: is_XmlParseError.elims is_OSError.elims)

lemma settings_load_Inl:
  assumes "json_result_ok f" "settings_load f = Inl e"
  shows "\<exists>m. e = SettingsError m"
proof (cases f)
  case (Inl x)
  with assms show ?thesis by (auto simp: settings_load_def json_result_ok_def)
next
  case (Inr d)
  with assms show ?thesis using settings_load_error by (auto simp: json_result_ok_def)
qed

text \<open>However the two files are missing, unreadable or malformed, the instance manager fails only
  with a \<open>BenchError\<close>, the exception the fabric tasks report; otherwise its settings passed the port
  check.\<close>

theorem manager_make_total:
  assumes "xml_result_ok xml_file" "json_result_ok json_file"
  shows "(\<exists>mg. manager_make fn xml_file json_file = Inr mg \<and> 1024 < base_port (mg_settings mg))
    \<or> (\<exists>m e. manager_make fn xml_file json_file = Inl (BenchError m e) \<and> (is_ManifestError e \<or> is_SettingsError e))"
proof (cases "manifest_load fn xml_file")
  case (Inl e)
  with manifest_load_Inl [OF assms(1) Inl] show ?thesis by (auto simp: manager_make_def)
next
  case m: (Inr mf)
  show ?thesis
  proof (cases "settings_load json_file")
    case (Inl e)
    with m settings_load_Inl [OF assms(2) Inl] show ?thesis by (auto simp: manager_make_def)
  next
    case (Inr s)
    then have "1024 < base_port s"
      unfolding settings_load_def
      by (auto simp: catchR_def bindR_Inr_iff CloudLabSettings_Inr split: sum.splits if_splits)
    with m Inr show ?thesis by (simp add: manager_make_def)
  qed
qed

lemma manager_make_total_witness:
  "(\<exists>mg. manager_make ''m.xml'' (Inr sample_rspec) (Inl (FileNotFoundError ''settings.json'')) = Inr mg
      \<and> 1024 < base_port (mg_settings mg))
    \<or> (\<exists>m e. manager_make ''m.xml'' (Inr sample_rspec) (Inl (FileNotFoundError ''settings.json'')) = Inl (BenchError m e)
      \<and> (is_ManifestError e \<or> is_SettingsError e))"
  by (rule manager_make_total) (simp_all add: xml_result_ok_def json_result_ok_def)

end
