(* ===== verification/Effects.thy ===== *)
theory Effects
  imports Prelude
begin

section \<open>Effects: computations with state and exceptions\<close>

text \<open>
  A statement of the harness is a function from the state to a result, a value or an
  exception, and the state it leaves behind: an exception does not undo what was done before
  it. Two kinds of facts about computations are collected: those that preserve a predicate of
  the state (\<open>keeps\<close>) and those that always end normally (\<open>never_raises\<close>).
\<close>

type_synonym ('s, 'a) M = "'s \<Rightarrow> 'a res \<times> 's"

definition retM :: "'a \<Rightarrow> ('s, 'a) M" where
  "retM x = (\<lambda>s. (Inr x, s))"

definition raiseM :: "exn \<Rightarrow> ('s, 'a) M" where
  "raiseM e = (\<lambda>s. (Inl e, s))"

definition bindM :: "('s, 'a) M \<Rightarrow> ('a \<Rightarrow> ('s, 'b) M) \<Rightarrow> ('s, 'b) M" where
  "bindM m f = (\<lambda>s. case m s of (Inl e, t) \<Rightarrow> (Inl e, t) | (Inr x, t) \<Rightarrow> f x t)"

definition seqM :: "('s, 'a) M \<Rightarrow> ('s, 'b) M \<Rightarrow> ('s, 'b) M" where
  "seqM m n = bindM m (\<lambda>_. n)"

definition liftR :: "'a res \<Rightarrow> ('s, 'a) M" where
  "liftR r = (\<lambda>s. (r, s))"

text \<open>\<open>try: m except E as e: h(e)\<close>.\<close>

definition catchM :: "('s, 'a) M \<Rightarrow> (exn \<Rightarrow> bool) \<Rightarrow> (exn \<Rightarrow> ('s, 'a) M) \<Rightarrow> ('s, 'a) M" where
  "catchM m is_e h = (\<lambda>s. case m s of (Inl e, t) \<Rightarrow> (if is_e e then h e t else (Inl e, t)) | (Inr x, t) \<Rightarrow> (Inr x, t))"

text \<open>\<open>try: m finally: c\<close>, where \<open>c\<close> does not raise.\<close>

definition finallyM :: "('s, 'a) M \<Rightarrow> ('s \<Rightarrow> 's) \<Rightarrow> ('s, 'a) M" where
  "finallyM m c = (\<lambda>s. case m s of (r, t) \<Rightarrow> (r, c t))"

definition getM :: "('s \<Rightarrow> 'a) \<Rightarrow> ('s, 'a) M" where
  "getM f = (\<lambda>s. (Inr (f s), s))"

definition modifyM :: "('s \<Rightarrow> 's) \<Rightarrow> ('s, unit) M" where
  "modifyM f = (\<lambda>s. (Inr (), f s))"

fun forM :: "'a list \<Rightarrow> ('a \<Rightarrow> ('s, unit) M) \<Rightarrow> ('s, unit) M" where
  "forM [] f = retM ()"
| "forM (x # xs) f = seqM (f x) (forM xs f)"

fun mapM :: "('a \<Rightarrow> ('s, 'b) M) \<Rightarrow> 'a list \<Rightarrow> ('s, 'b list) M" where
  "mapM f [] = retM []"
| "mapM f (x # xs) = bindM (f x) (\<lambda>y. bindM (mapM f xs) (\<lambda>ys. retM (y # ys)))"

fun foldM :: "('b \<Rightarrow> 'a \<Rightarrow> ('s, 'b) M) \<Rightarrow> 'b \<Rightarrow> 'a list \<Rightarrow> ('s, 'b) M" where
  "foldM f b [] = retM b"
| "foldM f b (x # xs) = bindM (f b x) (\<lambda>b'. foldM f b' xs)"

definition whenM :: "bool \<Rightarrow> ('s, unit) M \<Rightarrow> ('s, unit) M" where
  "whenM c m = (if c then m else retM ())"

named_theorems M_simps \<open>unfolding of the combinators on a state\<close>

lemma M_apply [M_simps]:
  "retM x s = (Inr x, s)"
  "raiseM e s = (Inl e, s)"
  "liftR r s = (r, s)"
  "getM f s = (Inr (f s), s)"
  "modifyM g s = (Inr (), g s)"
  by (simp_all add: retM_def raiseM_def liftR_def getM_def modifyM_def)

lemma bindM_Inr [M_simps]: "m s = (Inr x, t) \<Longrightarrow> bindM m f s = f x t"
  by (simp add: bindM_def)

lemma bindM_Inl [M_simps]: "m s = (Inl e, t) \<Longrightarrow> bindM m f s = (Inl e, t)"
  by (simp add: bindM_def)

lemma bindM_getM [simp]: "bindM (getM f) g s = g (f s) s"
  by (simp add: bindM_def getM_def)

lemma seqM_Inr [M_simps]: "m s = (Inr x, t) \<Longrightarrow> seqM m n s = n t"
  by (simp add: seqM_def bindM_def)

lemma seqM_Inl [M_simps]: "m s = (Inl e, t) \<Longrightarrow> seqM m n s = (Inl e, t)"
  by (simp add: seqM_def bindM_def)

lemma catchM_Inr: "m s = (Inr x, t) \<Longrightarrow> catchM m p h s = (Inr x, t)"
  by (simp add: catchM_def)

lemma catchM_Inl: "m s = (Inl e, t) \<Longrightarrow> catchM m p h s = (if p e then h e t else (Inl e, t))"
  by (simp add: catchM_def)

lemma bindM_simps [simp]:
  "bindM (retM x) f = f x"
  "bindM (raiseM e) f = raiseM e"
  by (simp_all add: bindM_def retM_def raiseM_def)

lemma bindM_assoc: "bindM (bindM m f) g = bindM m (\<lambda>x. bindM (f x) g)"
  by (rule ext) (auto simp: bindM_def split: prod.splits sum.splits)

lemma bindM_retM [simp]: "bindM m retM = m"
  by (rule ext) (auto simp: bindM_def retM_def split: prod.splits sum.splits)

lemma catchM_raise: "catchM (raiseM e) p h = (if p e then h e else raiseM e)"
  by (rule ext) (simp add: catchM_def raiseM_def)

lemma catchM_ret [simp]: "catchM (retM x) p h = retM x"
  by (rule ext) (simp add: catchM_def retM_def)

lemma forM_append: "forM (xs @ ys) f = seqM (forM xs f) (forM ys f)"
  by (induction xs) (simp_all add: seqM_def bindM_assoc)

subsection \<open>Preservation\<close>

text \<open>\<open>keeps I m\<close>: whatever way \<open>m\<close> ends, the relation \<open>I\<close> holds between the state before and the
  state after it. \<open>I\<close> is reflexive and transitive in the uses below.\<close>

definition keeps :: "('s \<Rightarrow> 's \<Rightarrow> bool) \<Rightarrow> ('s, 'a) M \<Rightarrow> bool" where
  "keeps I m \<longleftrightarrow> (\<forall>s. I s (snd (m s)))"

locale preorder_rel =
  fixes I :: "'s \<Rightarrow> 's \<Rightarrow> bool"
  assumes refl: "I s s"
    and trans: "I s t \<Longrightarrow> I t u \<Longrightarrow> I s u"
begin

lemma keeps_ret: "keeps I (retM x)"
  by (simp add: keeps_def M_simps refl)

lemma keeps_raise: "keeps I (raiseM e)"
  by (simp add: keeps_def M_simps refl)

lemma keeps_lift: "keeps I (liftR r)"
  by (simp add: keeps_def M_simps refl)

lemma keeps_get: "keeps I (getM f)"
  by (simp add: keeps_def M_simps refl)

lemma keeps_bind: "keeps I m \<Longrightarrow> (\<And>x. keeps I (f x)) \<Longrightarrow> keeps I (bindM m f)"
  unfolding keeps_def bindM_def
  by (auto split: prod.splits sum.splits) (metis snd_conv, metis snd_conv trans)

lemma keeps_seq: "keeps I m \<Longrightarrow> keeps I n \<Longrightarrow> keeps I (seqM m n)"
  unfolding seqM_def by (rule keeps_bind)

lemma keeps_catch: "keeps I m \<Longrightarrow> (\<And>e. keeps I (h e)) \<Longrightarrow> keeps I (catchM m p h)"
  unfolding keeps_def catchM_def
  by (auto split: prod.splits sum.splits) (metis snd_conv trans, metis snd_conv, metis snd_conv)

lemma keeps_when: "keeps I m \<Longrightarrow> keeps I (whenM c m)"
  by (simp add: whenM_def keeps_ret)

lemma keeps_if: "keeps I m \<Longrightarrow> keeps I n \<Longrightarrow> keeps I (if c then m else n)"
  by simp

lemma keeps_forM: "(\<And>x. x \<in> set xs \<Longrightarrow> keeps I (f x)) \<Longrightarrow> keeps I (forM xs f)"
  by (induction xs) (simp_all add: keeps_ret keeps_seq)

lemma keeps_mapM: "(\<And>x. x \<in> set xs \<Longrightarrow> keeps I (f x)) \<Longrightarrow> keeps I (mapM f xs)"
  by (induction xs) (simp_all add: keeps_ret keeps_bind)

lemma keeps_foldM: "(\<And>b x. x \<in> set xs \<Longrightarrow> keeps I (f b x)) \<Longrightarrow> keeps I (foldM f b xs)"
  by (induction xs arbitrary: b) (simp_all add: keeps_ret keeps_bind)

lemmas keeps_rules = keeps_ret keeps_raise keeps_lift keeps_get keeps_bind keeps_seq keeps_catch
  keeps_when keeps_forM keeps_mapM keeps_foldM

end

subsection \<open>Exceptions that cannot happen\<close>

definition raises_only :: "(exn \<Rightarrow> bool) \<Rightarrow> ('s, 'a) M \<Rightarrow> bool" where
  "raises_only E m \<longleftrightarrow> (\<forall>s e. fst (m s) = Inl e \<longrightarrow> E e)"

named_theorems raises_intros \<open>introduction rules for \<open>raises_only\<close>\<close>

lemma raises_ret [raises_intros]: "raises_only E (retM x)"
  by (simp add: raises_only_def M_simps)

lemma raises_get [raises_intros]: "raises_only E (getM f)"
  by (simp add: raises_only_def M_simps)

lemma raises_modify [raises_intros]: "raises_only E (modifyM f)"
  by (simp add: raises_only_def M_simps)

lemma raises_raise: "E e \<Longrightarrow> raises_only E (raiseM e)"
  by (simp add: raises_only_def M_simps)

lemma raises_lift: "(\<And>e. r = Inl e \<Longrightarrow> E e) \<Longrightarrow> raises_only E (liftR r)"
  by (simp add: raises_only_def M_simps)

lemma raises_bind [raises_intros]:
  "raises_only E m \<Longrightarrow> (\<And>x. raises_only E (f x)) \<Longrightarrow> raises_only E (bindM m f)"
  unfolding raises_only_def bindM_def
  by (auto split: prod.splits sum.splits) (metis fst_conv)

lemma raises_seq [raises_intros]: "raises_only E m \<Longrightarrow> raises_only E n \<Longrightarrow> raises_only E (seqM m n)"
  unfolding seqM_def by (rule raises_bind)

lemma raises_catch:
  assumes "raises_only F m" "\<And>e. F e \<Longrightarrow> \<not> p e \<Longrightarrow> E e" "\<And>e. raises_only E (h e)"
  shows "raises_only E (catchM m p h)"
  using assms unfolding raises_only_def catchM_def
  by (auto split: prod.splits sum.splits if_splits) (metis fst_conv)

lemma raises_when [raises_intros]: "raises_only E m \<Longrightarrow> raises_only E (whenM c m)"
  by (simp add: whenM_def raises_ret)

lemma raises_forM [raises_intros]: "(\<And>x. x \<in> set xs \<Longrightarrow> raises_only E (f x)) \<Longrightarrow> raises_only E (forM xs f)"
  by (induction xs) (simp_all add: raises_ret raises_seq)

lemma raises_foldM [raises_intros]: "(\<And>b x. x \<in> set xs \<Longrightarrow> raises_only E (f b x)) \<Longrightarrow> raises_only E (foldM f b xs)"
  by (induction xs arbitrary: b) (auto intro!: raises_ret raises_bind)

lemma raises_weaken: "raises_only F m \<Longrightarrow> (\<And>e. F e \<Longrightarrow> E e) \<Longrightarrow> raises_only E m"
  by (auto simp: raises_only_def)

end
