(* ===== verification/Retry.thy ===== *)
theory Retry
  imports Effects PyStr
begin

section \<open>Retrying flaky operations (benchmark/benchmark/retry.py)\<close>

text \<open>
  The decorator \<open>retry_on_ssh_error\<close>. The decorated function, the callback and the sleep are
  computations on an arbitrary state. The specification replays the wrapper on a function whose
  i-th call has a given outcome and counts calls, naps and callbacks.
\<close>

fun is_transient :: "exn \<Rightarrow> bool" where
  "is_transient (SSHException _) = True"
| "is_transient (GroupException _) = True"
| "is_transient (OSError _) = True"
| "is_transient (FileNotFoundError _) = True"
| "is_transient (EOFError _) = True"
| "is_transient _ = False"

text \<open>\<open>on_retry(attempt, e)\<close> under \<open>except Exception\<close>; without a callback nothing happens.\<close>

definition run_callback :: "(nat \<Rightarrow> exn \<Rightarrow> ('s, unit) M) option \<Rightarrow> nat \<Rightarrow> exn \<Rightarrow> ('s, unit) M" where
  "run_callback on_retry attempt e =
     (case on_retry of
        None \<Rightarrow> retM ()
      | Some cb \<Rightarrow> catchM (cb attempt e) is_Exception (\<lambda>_. retM ()))"

text \<open>\<open>for attempt in range(1, attempts + 1)\<close>, with the statements after the loop.\<close>

fun retry_loop ::
  "nat \<Rightarrow> 'd list \<Rightarrow> (nat \<Rightarrow> exn \<Rightarrow> ('s, unit) M) option \<Rightarrow> ('d \<Rightarrow> ('s, unit) M) \<Rightarrow> ('s, 'a) M
     \<Rightarrow> nat list \<Rightarrow> exn option \<Rightarrow> ('s, 'a) M" where
  "retry_loop attempts backoffs on_retry sleep fn [] last_exc =
     (case last_exc of None \<Rightarrow> raiseM (AssertionError []) | Some e \<Rightarrow> raiseM e)"
| "retry_loop attempts backoffs on_retry sleep fn (attempt # rest) last_exc =
     catchM fn is_transient (\<lambda>e.
       seqM (run_callback on_retry attempt e)
         (if attempt = attempts then raiseM e
          else seqM (sleep (backoffs ! (attempt - 1)))
                 (retry_loop attempts backoffs on_retry sleep fn rest (Some e))))"

definition retry_on_ssh_error ::
  "int \<Rightarrow> 'd list \<Rightarrow> (nat \<Rightarrow> exn \<Rightarrow> ('s, unit) M) option \<Rightarrow> ('d \<Rightarrow> ('s, unit) M)
     \<Rightarrow> (('s, 'a) M \<Rightarrow> ('s, 'a) M) res" where
  "retry_on_ssh_error attempts backoffs on_retry sleep =
     (if attempts < 1 then Inl (ValueError ''attempts must be >= 1'')
      else if int (length backoffs) < attempts - 1 then
        Inl (ValueError (''backoff_seconds has '' @ show_nat (length backoffs) @ '' entries but '' @
          show_int (attempts - 1) @ '' are needed for '' @ show_int attempts @ '' attempts''))
      else Inr (\<lambda>fn. retry_loop (nat attempts) backoffs on_retry sleep fn [1..<nat attempts + 1] None))"

subsection \<open>Observing the wrapper\<close>

record 'd retry_obs =
  calls :: nat
  naps :: "'d list"
  notified :: "(nat \<times> exn) list"

definition scripted :: "(nat \<Rightarrow> 'a res) \<Rightarrow> ('d retry_obs, 'a) M" where
  "scripted outs = (\<lambda>s. (outs (calls s), s\<lparr>calls := Suc (calls s)\<rparr>))"

definition nap :: "'d \<Rightarrow> ('d retry_obs, unit) M" where
  "nap d = modifyM (\<lambda>s. s\<lparr>naps := naps s @ [d]\<rparr>)"

definition noting :: "(nat \<Rightarrow> exn \<Rightarrow> unit res) \<Rightarrow> nat \<Rightarrow> exn \<Rightarrow> ('d retry_obs, unit) M" where
  "noting cb attempt e = (\<lambda>s. (cb attempt e, s\<lparr>notified := notified s @ [(attempt, e)]\<rparr>))"

text \<open>The outcome and the number of calls the contract asks for: the first outcome that is not a
  transient failure, or the last attempt's failure.\<close>

fun retry_contract :: "(nat \<Rightarrow> 'a res) \<Rightarrow> nat \<Rightarrow> nat \<Rightarrow> 'a res \<times> nat" where
  "retry_contract outs i 0 = (outs i, Suc i)"
| "retry_contract outs i (Suc left) =
     (case outs i of
        Inl e \<Rightarrow> if is_transient e then retry_contract outs (Suc i) left else (Inl e, Suc i)
      | Inr x \<Rightarrow> (Inr x, Suc i))"

definition obs0 :: "'d retry_obs" where
  "obs0 = \<lparr>calls = 0, naps = [], notified = []\<rparr>"

lemma retry_contract_ge: "Suc i \<le> snd (retry_contract outs i left) \<and> snd (retry_contract outs i left) \<le> Suc (i + left)"
proof (induction left arbitrary: i)
  case (Suc left)
  from Suc [of "Suc i"] show ?case by (auto split: sum.splits)
qed simp

lemma retry_contract_transient:
  "i \<le> j \<Longrightarrow> Suc j < snd (retry_contract outs i left) \<Longrightarrow> \<exists>e. outs j = Inl e \<and> is_transient e"
proof (induction left arbitrary: i)
  case (Suc left)
  then show ?case
    using Suc.IH [of "Suc i"] by (cases "j = i") (auto split: sum.splits if_splits)
qed simp

lemma retry_contract_result:
  "fst (retry_contract outs i left) = outs (snd (retry_contract outs i left) - 1)"
  by (induction left arbitrary: i) (auto split: sum.splits)

lemma obs_apply:
  "scripted outs s = (outs (calls s), s\<lparr>calls := Suc (calls s)\<rparr>)"
  "nap d s = (Inr (), s\<lparr>naps := naps s @ [d]\<rparr>)"
  by (simp_all add: scripted_def nap_def modifyM_def)

lemma retry_loop_scripted:
  assumes cb: "\<forall>k e x. cb k e = Inl x \<longrightarrow> is_Exception x" and n: "Suc i + left = attempts"
    and len: "attempts - 1 \<le> length backoffs"
  shows "\<exists>ns. retry_loop attempts backoffs (Some (noting cb)) nap (scripted outs) [Suc i..<attempts + 1] le
        \<lparr>calls = i, naps = take i backoffs, notified = ns0\<rparr> =
      (fst (retry_contract outs i left),
       \<lparr>calls = snd (retry_contract outs i left),
        naps = take (snd (retry_contract outs i left) - 1) backoffs, notified = ns0 @ ns\<rparr>)"
  using n
proof (induction left arbitrary: i ns0 le)
  case 0
  then have "attempts = Suc i" by simp
  then show ?case
    using cb by (auto simp: catchM_def scripted_def seqM_def bindM_def run_callback_def noting_def
        raiseM_def retM_def split: sum.splits prod.splits)
next
  case (Suc left)
  have up: "[Suc i..<attempts + 1] = Suc i # [Suc (Suc i)..<attempts + 1]"
    using Suc.prems by (simp add: upt_conv_Cons)
  have nap: "take i backoffs @ [backoffs ! i] = take (Suc i) backoffs"
    using Suc.prems len by (simp add: take_Suc_conv_app_nth)
  show ?case
  proof (cases "outs i")
    case (Inr x)
    then show ?thesis unfolding up by (auto simp: catchM_def obs_apply simp del: upt_Suc)
  next
    case (Inl e)
    show ?thesis
    proof (cases "is_transient e")
      case False
      with Inl show ?thesis unfolding up by (auto simp: catchM_def obs_apply simp del: upt_Suc)
    next
      case True
      have ex: "is_Exception x" if "cb (Suc i) e = Inl x" for x
        using that cb by blast
      have cbk: "run_callback (Some (noting cb)) (Suc i) e s = (Inr (), s\<lparr>notified := notified s @ [(Suc i, e)]\<rparr>)"
        for s
        using ex by (cases "cb (Suc i) e") (auto simp: run_callback_def catchM_def noting_def retM_def)
      have ne: "Suc i \<noteq> attempts" using Suc.prems by simp
      obtain ns where "retry_loop attempts backoffs (Some (noting cb)) nap (scripted outs) [Suc (Suc i)..<attempts + 1] (Some e)
          \<lparr>calls = Suc i, naps = take (Suc i) backoffs, notified = ns0 @ [(Suc i, e)]\<rparr> =
        (fst (retry_contract outs (Suc i) left),
         \<lparr>calls = snd (retry_contract outs (Suc i) left),
          naps = take (snd (retry_contract outs (Suc i) left) - 1) backoffs, notified = (ns0 @ [(Suc i, e)]) @ ns\<rparr>)"
        using Suc.IH [of "Suc i" "Some e" "ns0 @ [(Suc i, e)]"] Suc.prems by auto
      moreover have "scripted outs \<lparr>calls = i, naps = take i backoffs, notified = ns0\<rparr> =
          (Inl e, \<lparr>calls = Suc i, naps = take i backoffs, notified = ns0\<rparr>)"
        by (simp add: obs_apply Inl)
      moreover have "nap (backoffs ! i) \<lparr>calls = Suc i, naps = take i backoffs, notified = ns0 @ [(Suc i, e)]\<rparr> =
          (Inr (), \<lparr>calls = Suc i, naps = take (Suc i) backoffs, notified = ns0 @ [(Suc i, e)]\<rparr>)"
        by (simp add: obs_apply nap)
      ultimately have "retry_loop attempts backoffs (Some (noting cb)) nap (scripted outs) [Suc i..<attempts + 1] le
          \<lparr>calls = i, naps = take i backoffs, notified = ns0\<rparr> =
        (fst (retry_contract outs (Suc i) left),
         \<lparr>calls = snd (retry_contract outs (Suc i) left),
          naps = take (snd (retry_contract outs (Suc i) left) - 1) backoffs, notified = (ns0 @ [(Suc i, e)]) @ ns\<rparr>)"
        unfolding up retry_loop.simps using True ne
        by (simp add: catchM_Inl seqM_Inr [OF cbk] seqM_Inr del: upt_Suc)
      with Inl True show ?thesis by auto
    qed
  qed
qed

text \<open>C36. The retry wrapper realises its contract on every outcome sequence of the wrapped function: it
  returns or raises what the first call that does not fail transiently gives, or what the last attempt
  gives; it calls the function no more than \<open>attempts\<close> times; every earlier outcome was a transient
  failure; it sleeps exactly the first backoffs, one between two calls; and a failing callback changes
  nothing.\<close>

theorem retry_spec:
  fixes outs :: "nat \<Rightarrow> 'a res" and backoffs :: "'d list"
  assumes "1 \<le> attempts" "attempts - 1 \<le> int (length backoffs)"
    and "\<And>k e x. cb k e = Inl x \<Longrightarrow> is_Exception x"
  shows "\<exists>wrapper n ns. retry_on_ssh_error attempts backoffs (Some (noting cb)) nap = Inr wrapper
    \<and> 1 \<le> n \<and> int n \<le> attempts
    \<and> wrapper (scripted outs) obs0 = (outs (n - 1), \<lparr>calls = n, naps = take (n - 1) backoffs, notified = ns\<rparr>)
    \<and> (\<forall>j < n - 1. \<exists>e. outs j = Inl e \<and> is_transient e)
    \<and> (int n < attempts \<longrightarrow> (\<forall>e. outs (n - 1) = Inl e \<longrightarrow> \<not> is_transient e))"
proof -
  define left where "left = nat attempts - 1"
  define n where "n = snd (retry_contract outs 0 left)"
  have at: "Suc 0 + left = nat attempts" using assms(1) by (simp add: left_def)
  have len: "nat attempts - 1 \<le> length backoffs" using assms(2) by simp
  have cb: "\<forall>k e x. cb k e = Inl x \<longrightarrow> is_Exception x" using assms(3) by blast
  have w: "retry_on_ssh_error attempts backoffs (Some (noting cb)) nap =
      Inr (\<lambda>fn. retry_loop (nat attempts) backoffs (Some (noting cb)) nap fn [1..<nat attempts + 1] None)"
    using assms(1,2) by (simp add: retry_on_ssh_error_def)
  obtain ns where run: "retry_loop (nat attempts) backoffs (Some (noting cb)) nap (scripted outs) [1..<nat attempts + 1] None obs0 =
      (outs (n - 1), \<lparr>calls = n, naps = take (n - 1) backoffs, notified = ns\<rparr>)"
    using retry_loop_scripted [where cb = cb and outs = outs and le = None and ?ns0.0 = "[]", OF cb at len]
    by (auto simp: obs0_def n_def retry_contract_result)
  have bounds: "1 \<le> n" "n \<le> nat attempts"
    using retry_contract_ge [of 0 outs left] at by (simp_all add: n_def)
  have early: "\<exists>e. outs j = Inl e \<and> is_transient e" if "j < n - 1" for j
    using retry_contract_transient [of 0 j outs left] that unfolding n_def by simp
  have stop: "\<not> is_transient e" if "snd (retry_contract outs i l) < Suc (i + l)"
      "outs (snd (retry_contract outs i l) - 1) = Inl e" for i l e
    using that
  proof (induction l arbitrary: i)
    case (Suc l)
    from Suc.IH [of "Suc i"] Suc.prems show ?case by (cases "outs i") (auto split: if_splits)
  qed simp
  have final: "\<not> is_transient e" if "int n < attempts" "outs (n - 1) = Inl e" for e
    using stop [of 0 left e] that at unfolding n_def by simp
  have "int n \<le> attempts" using bounds(2) assms(1) by linarith
  with w run bounds(1) early final show ?thesis by blast
qed

definition flaky :: "nat \<Rightarrow> int res" where
  "flaky i = (if i < 2 then Inl (SSHException ''banner'') else Inr 7)"

lemma retry_spec_witness:
  "\<exists>wrapper n ns. retry_on_ssh_error 3 [30, 60, 120 :: int] (Some (noting (\<lambda>k e. Inl (ValueError ''mail'')))) nap = Inr wrapper
    \<and> 1 \<le> n \<and> int n \<le> 3
    \<and> wrapper (scripted flaky) obs0 = (flaky (n - 1), \<lparr>calls = n, naps = take (n - 1) [30, 60, 120], notified = ns\<rparr>)"
  using retry_spec [of 3 "[30, 60, 120 :: int]" "\<lambda>k e. Inl (ValueError ''mail'')" flaky]
  by (fastforce simp: is_Exception_def)

text \<open>What the wrapper inherits from the wrapped function.\<close>

context preorder_rel
begin

lemma keeps_run_callback: "(\<And>cb. on_retry = Some cb \<Longrightarrow> keeps I (cb k e)) \<Longrightarrow> keeps I (run_callback on_retry k e)"
  by (auto simp: run_callback_def keeps_ret split: option.splits intro!: keeps_catch)

lemma keeps_retry_loop:
  assumes "keeps I fn" "\<And>d. keeps I (sleep d)" "\<And>cb k e. on_retry = Some cb \<Longrightarrow> keeps I (cb k e)"
  shows "keeps I (retry_loop attempts backoffs on_retry sleep fn ks le)"
proof (induction ks arbitrary: le)
  case Nil
  show ?case by (auto simp: keeps_raise split: option.splits)
next
  case (Cons k ks)
  have "keeps I (run_callback on_retry k e)" for e
    using assms(3) by (rule keeps_run_callback)
  with Cons show ?case
    by (auto intro!: keeps_catch keeps_seq assms(1,2) simp: keeps_raise)
qed

end

end
