(* ===== verification/Notifier.thy ===== *)
theory Notifier
  imports Effects PyStr
begin

section \<open>Email notifications (benchmark/benchmark/notifier.py)\<close>

text \<open>
  \<open>EmailNotifier\<close>: reading its configuration, and \<open>notify\<close> with its throttle. The configuration
  file (absent, or the result of \<open>json.load\<close>), the monotonic clock and the SMTP session (which
  delivers the message or raises) are arguments.
\<close>

definition REQUIRED_FIELDS :: "string list" where
  "REQUIRED_FIELDS = [''smtp_host'', ''smtp_port'', ''smtp_user'', ''smtp_password'', ''to_address'']"

text \<open>\<open>f not in cfg\<close> for a JSON value.\<close>

fun json_contains :: "jval \<Rightarrow> string \<Rightarrow> bool res" where
  "json_contains (JObj ms) k = Inr (k \<in> set (dict_keys ms))"
| "json_contains (JList vs) k = Inr (JStr k \<in> set vs)"
| "json_contains (JStr s) k = Inr (py_in k s)"
| "json_contains _ k = Inl (TypeError ''argument is not iterable'')"

text \<open>\<open>_load_config\<close>: \<open>None\<close> when the file is missing, unreadable or incomplete.\<close>

definition load_config :: "jval res option \<Rightarrow> jval option res" where
  "load_config file =
     (case file of
        None \<Rightarrow> Inr None
      | Some (Inl e) \<Rightarrow>
          (if is_OSError e \<or> (case e of JSONDecodeError m \<Rightarrow> True | _ \<Rightarrow> False) then Inr None else Inl e)
      | Some (Inr cfg) \<Rightarrow>
          bindR (mapR (json_contains cfg) REQUIRED_FIELDS) (\<lambda>present.
          Inr (if False \<in> set present then None else Some cfg)))"

record notifier =
  nt_config :: "jval option"
  nt_throttle_seconds :: jval
  nt_last_sent :: "(string, rat) dict"
  nt_hostname :: string

definition nt_enabled :: "notifier \<Rightarrow> bool" where
  "nt_enabled n \<longleftrightarrow> nt_config n \<noteq> None"

text \<open>\<open>cfg.get(k, d)\<close>.\<close>

fun json_get_or :: "jval \<Rightarrow> string \<Rightarrow> jval \<Rightarrow> jval res" where
  "json_get_or (JObj ms) k d = Inr (dict_get_or ms k d)"
| "json_get_or _ k d = Inl (AttributeError ''no attribute get'')"

definition EmailNotifier :: "string \<Rightarrow> jval res option \<Rightarrow> notifier res" where
  "EmailNotifier hostname file =
     bindR (load_config file) (\<lambda>config.
     bindR (case config of None \<Rightarrow> Inr (JInt 0) | Some cfg \<Rightarrow> json_get_or cfg ''throttle_seconds'' (JInt 600)) (\<lambda>throttle.
     Inr \<lparr>nt_config = config, nt_throttle_seconds = throttle, nt_last_sent = [], nt_hostname = hostname\<rparr>))"

text \<open>\<open>x < v\<close> for a float \<open>x\<close> and a JSON value.\<close>

fun lt_json :: "rat \<Rightarrow> jval \<Rightarrow> bool res" where
  "lt_json x (JInt i) = Inr (x < of_int i)"
| "lt_json x (JFloat f) = Inr (pf_lt (Fin x) f)"
| "lt_json x (JBool b) = Inr (x < (if b then 1 else 0))"
| "lt_json x _ = Inl (TypeError ''< not supported'')"

record email =
  em_subject :: string
  em_from :: jval
  em_to :: jval
  em_body :: string

text \<open>A header value of more than one line is refused by the email package, and so is a value that is
  not a string.\<close>

fun set_header :: "jval \<Rightarrow> unit res" where
  "set_header (JStr s) = (if 1 < length (py_splitlines s)
     then Inl (ValueError ''Header values may not contain linefeed or carriage return characters'') else Inr ())"
| "set_header _ = Inl (TypeError ''header value is not a string'')"

fun json_int :: "jval \<Rightarrow> int res" where
  "json_int (JInt i) = Inr i"
| "json_int (JBool b) = Inr (if b then 1 else 0)"
| "json_int (JFloat x) = py_int (PFloat x)"
| "json_int (JStr s) = py_int (PStr s)"
| "json_int _ = Inl (TypeError ''int() argument'')"

definition make_email :: "notifier \<Rightarrow> jval \<Rightarrow> string \<Rightarrow> string \<Rightarrow> email res" where
  "make_email n cfg subject body =
     (let subj = ''[libhotstuff/'' @ nt_hostname n @ ''] '' @ subject in
      bindR (set_header (JStr subj)) (\<lambda>_.
      bindR (bindR (jget cfg ''smtp_user'') (\<lambda>u. bindR (set_header u) (\<lambda>_. Inr u))) (\<lambda>from_addr.
      bindR (bindR (jget cfg ''to_address'') (\<lambda>u. bindR (set_header u) (\<lambda>_. Inr u))) (\<lambda>to_addr.
      Inr \<lparr>em_subject = subj, em_from = from_addr, em_to = to_addr, em_body = body\<rparr>))))"

text \<open>The state a notification changes: the notifier, and the messages handed to SMTP.\<close>

type_synonym post = "notifier \<times> (rat \<times> string option \<times> email) list"

text \<open>
  \<open>smtp host port user password msg\<close> is the whole SMTP session. \<open>int(port)\<close> is evaluated inside
  the \<open>try\<close>, whose \<open>except\<close> clause catches \<open>SMTPException\<close>, \<open>OSError\<close> and \<open>SSLError\<close>, all of
  them \<open>OSError\<close>s.
\<close>

definition send_email ::
  "(jval \<Rightarrow> int \<Rightarrow> email \<Rightarrow> unit res) \<Rightarrow> rat \<Rightarrow> jval \<Rightarrow> string option \<Rightarrow> email \<Rightarrow> (post, bool) M" where
  "send_email smtp now cfg key msg =
     catchM
       (bindM (liftR (jget cfg ''smtp_host'')) (\<lambda>host.
        bindM (liftR (bindR (jget cfg ''smtp_port'') json_int)) (\<lambda>port.
        bindM (modifyM (\<lambda>(n, out). (n, out @ [(now, key, msg)]))) (\<lambda>_.
        bindM (liftR (smtp host port msg)) (\<lambda>_. retM True)))))
       is_OSError (\<lambda>e. retM False)"

definition throttled :: "notifier \<Rightarrow> rat \<Rightarrow> string \<Rightarrow> bool res" where
  "throttled n now key = lt_json (now - dict_get_or (nt_last_sent n) key 0) (nt_throttle_seconds n)"

definition pass_throttle :: "rat \<Rightarrow> string option \<Rightarrow> (post, bool) M" where
  "pass_throttle now throttle_key =
     (case throttle_key of
        None \<Rightarrow> retM True
      | Some key \<Rightarrow>
          bindM (\<lambda>s. (throttled (fst s) now key, s)) (\<lambda>t.
          if t then retM False
          else seqM (modifyM (\<lambda>(n, out). (n\<lparr>nt_last_sent := dict_set key now (nt_last_sent n)\<rparr>, out)))
                 (retM True)))"

definition notify ::
  "(jval \<Rightarrow> int \<Rightarrow> email \<Rightarrow> unit res) \<Rightarrow> rat \<Rightarrow> string \<Rightarrow> string \<Rightarrow> string option \<Rightarrow> (post, bool) M" where
  "notify smtp now subject body throttle_key =
     bindM (getM (nt_config \<circ> fst)) (\<lambda>config.
     case config of
       None \<Rightarrow> retM False
     | Some cfg \<Rightarrow>
         bindM (pass_throttle now throttle_key) (\<lambda>go.
         if \<not> go then retM False
         else bindM (\<lambda>s. (make_email (fst s) cfg subject body, s)) (\<lambda>msg.
              send_email smtp now cfg throttle_key msg)))"

subsection \<open>What a sequence of notifications sends\<close>

record call =
  cl_now :: rat
  cl_subject :: string
  cl_body :: string
  cl_key :: "string option"

text \<open>The run loop goes on after every notification that returns; a raise ends it.\<close>

definition notify_all :: "(jval \<Rightarrow> int \<Rightarrow> email \<Rightarrow> unit res) \<Rightarrow> call list \<Rightarrow> (post, unit) M" where
  "notify_all smtp cs = forM cs (\<lambda>c. bindM (notify smtp (cl_now c) (cl_subject c) (cl_body c) (cl_key c)) (\<lambda>_. retM ()))"

text \<open>The times at which messages with a given key were handed to SMTP.\<close>

definition sent_at :: "string \<Rightarrow> post \<Rightarrow> rat list" where
  "sent_at key s = map fst (filter (\<lambda>(t, k, m). k = Some key) (snd s))"

text \<open>What the throttle keeps true: consecutive messages of a key are a full window apart, and the
  last one is no later than the recorded time.\<close>

definition spaced :: "rat \<Rightarrow> rat list \<Rightarrow> bool" where
  "spaced w ts \<longleftrightarrow> sorted_wrt (\<lambda>a b. a + w \<le> b) ts"

definition throttle_inv :: "int \<Rightarrow> rat \<Rightarrow> post \<Rightarrow> bool" where
  "throttle_inv w now s \<longleftrightarrow>
     nt_throttle_seconds (fst s) = JInt w \<and>
     (\<forall>key. spaced (of_int w) (sent_at key s) \<and>
        (\<forall>t \<in> set (sent_at key s). \<exists>l. dict_get (nt_last_sent (fst s)) key = Some l \<and> t \<le> l \<and> l \<le> now))"

lemma throttle_inv_mono: "throttle_inv w a s \<Longrightarrow> a \<le> b \<Longrightarrow> throttle_inv w b s"
  unfolding throttle_inv_def by (meson order_trans)

lemma send_email_state:
  "snd (send_email smtp now cfg key msg s) = s \<or>
   snd (send_email smtp now cfg key msg s) = (fst s, snd s @ [(now, key, msg)])"
  by (auto simp: send_email_def catchM_def bindM_def liftR_def modifyM_def retM_def
      split: sum.splits prod.splits if_splits)

lemma sent_at_append:
  "sent_at key (n, out @ [(t, k, m)]) = sent_at key (n, out) @ (if k = Some key then [t] else [])"
  by (simp add: sent_at_def)

text \<open>A step that records \<open>now\<close> for its key and appends at most one message with that key.\<close>

lemma throttle_step:
  assumes inv: "throttle_inv w now (n, out)"
    and free: "throttled n now key = Inr False" and w: "0 \<le> w"
    and n': "n' = n\<lparr>nt_last_sent := dict_set key now (nt_last_sent n)\<rparr>"
    and out': "out' = out \<or> out' = out @ [(now, Some key, m)]"
  shows "throttle_inv w now (n', out')"
proof -
  have thr: "nt_throttle_seconds n = JInt w" using inv by (simp add: throttle_inv_def)
  have gap: "t + of_int w \<le> now" if t: "t \<in> set (sent_at key (n, out))" for t
  proof -
    obtain l where l: "dict_get (nt_last_sent n) key = Some l" "t \<le> l"
      using inv t unfolding throttle_inv_def by fastforce
    have "\<not> now - l < of_int w" using free l(1) by (simp add: throttled_def thr dict_get_or_def)
    with l(2) show ?thesis by linarith
  qed
  have sp: "spaced (of_int w) (sent_at k (n, out))" for k
    using inv by (simp add: throttle_inv_def)
  have s': "sent_at k (n', out') = sent_at k (n, out) \<or>
      k = key \<and> sent_at k (n', out') = sent_at k (n, out) @ [now]" for k
    using out' by (auto simp: sent_at_def split: if_splits)
  have sp': "spaced (of_int w) (sent_at k (n', out'))" for k
    using s' [of k] sp [of k] gap by (auto simp: spaced_def sorted_wrt_append)
  have last': "\<exists>l. dict_get (nt_last_sent n') k = Some l \<and> t \<le> l \<and> l \<le> now"
    if t: "t \<in> set (sent_at k (n', out'))" for k t
  proof (cases "k = key")
    case True
    have "t \<le> now"
    proof -
      have "t \<in> set (sent_at key (n, out)) \<or> t = now" using t s' [of k] True by auto
      moreover have "(0 :: rat) \<le> of_int w" using w by simp
      ultimately show ?thesis using gap [of t] by fastforce
    qed
    with True show ?thesis by (simp add: n')
  next
    case False
    then have "t \<in> set (sent_at k (n, out))" using s' [of k] t by auto
    then show ?thesis using inv False unfolding throttle_inv_def n' by auto
  qed
  show ?thesis
    using sp' last' thr unfolding throttle_inv_def n' by simp
qed

lemma throttle_no_key:
  assumes "throttle_inv w now (n, out)" "out' = out \<or> out' = out @ [(now, None, m)]"
  shows "throttle_inv w now (n, out')"
proof -
  have "sent_at k (n, out') = sent_at k (n, out)" for k
    using assms(2) sent_at_append [of k n out now None m] by auto
  with assms(1) show ?thesis unfolding throttle_inv_def by simp
qed

lemma notify_inv:
  assumes inv: "throttle_inv w now s" and w: "0 \<le> w"
  shows "throttle_inv w now (snd (notify smtp now subject body key s))"
proof -
  obtain n out where s: "s = (n, out)" by (cases s)
  have thr: "nt_throttle_seconds n = JInt w" using inv by (simp add: throttle_inv_def s)
  show ?thesis
  proof (cases "nt_config n")
    case None
    then show ?thesis using inv by (simp add: notify_def bindM_def getM_def retM_def s)
  next
    case (Some cfg)
    let ?rest = "\<lambda>s. bindM (\<lambda>s. (make_email (fst s) cfg subject body, s)) (\<lambda>msg. send_email smtp now cfg key msg) s"
    have rest: "\<exists>m. snd (?rest (n', out)) = (n', out) \<or> snd (?rest (n', out)) = (n', out @ [(now, key, m)])" for n'
    proof (cases "make_email n' cfg subject body")
      case (Inl e)
      then show ?thesis by (simp add: bindM_def)
    next
      case (Inr m)
      then show ?thesis
        using send_email_state [of smtp now cfg key m "(n', out)"] by (auto simp: bindM_def)
    qed
    show ?thesis
    proof (cases key)
      case None
      have "notify smtp now subject body key s = ?rest (n, out)"
        by (simp add: notify_def bindM_def getM_def retM_def s Some None pass_throttle_def)
      with rest [of n] show ?thesis
        using throttle_no_key [OF inv [unfolded s]] None by fastforce
    next
      case (Some key')
      show ?thesis
      proof (cases "throttled n now key'")
        case (Inl e)
        then show ?thesis by (simp add: throttled_def thr)
      next
        case (Inr b)
        show ?thesis
        proof (cases b)
          case True
          then show ?thesis using inv Inr \<open>nt_config n = Some cfg\<close>
            by (simp add: notify_def bindM_def getM_def retM_def s Some pass_throttle_def)
        next
          case False
          define n' where "n' = n\<lparr>nt_last_sent := dict_set key' now (nt_last_sent n)\<rparr>"
          have "notify smtp now subject body key s = ?rest (n', out)"
            using \<open>nt_config n = Some cfg\<close> Inr False
            by (simp add: notify_def bindM_def getM_def retM_def s Some pass_throttle_def seqM_def
                modifyM_def n'_def)
          moreover obtain m out' where r: "snd (?rest (n', out)) = (n', out')"
            and o': "out' = out \<or> out' = out @ [(now, Some key', m)]"
            using rest [of n'] unfolding Some by blast
          have "throttled n now key' = Inr False" using Inr False by simp
          from throttle_step [OF inv [unfolded s] this w n'_def o'] r
          have "throttle_inv w now (snd (?rest (n', out)))" by simp
          ultimately show ?thesis by simp
        qed
      qed
    qed
  qed
qed

lemma notify_all_inv:
  assumes "throttle_inv w t s" "0 \<le> w" "sorted (t # map cl_now cs)"
  shows "\<exists>t'. throttle_inv w t' (snd (notify_all smtp cs s))"
  using assms
proof (induction cs arbitrary: s t)
  case Nil
  then show ?case by (auto simp: notify_all_def retM_def)
next
  case (Cons c cs)
  have i: "throttle_inv w (cl_now c) (snd (notify smtp (cl_now c) (cl_subject c) (cl_body c) (cl_key c) s))"
    using Cons.prems by (intro notify_inv throttle_inv_mono [OF Cons.prems(1)]) auto
  obtain r s' where n: "notify smtp (cl_now c) (cl_subject c) (cl_body c) (cl_key c) s = (r, s')"
    by (meson surj_pair)
  with i have i': "throttle_inv w (cl_now c) s'" by simp
  have "notify_all smtp (c # cs) s = (case r of Inl e \<Rightarrow> (Inl e, s') | Inr _ \<Rightarrow> notify_all smtp cs s')"
    by (simp add: notify_all_def seqM_def bindM_def n retM_def split: sum.splits)
  then show ?case
    using i' Cons.IH [OF i' Cons.prems(2)] Cons.prems(3) by (auto split: sum.splits)
qed

definition fresh :: "string \<Rightarrow> jval \<Rightarrow> int \<Rightarrow> notifier" where
  "fresh hostname cfg w = \<lparr>nt_config = Some cfg, nt_throttle_seconds = JInt w, nt_last_sent = [], nt_hostname = hostname\<rparr>"

text \<open>C37. However the run loop calls \<open>notify\<close>, with whatever SMTP outcomes, two messages with the same
  throttle key are never handed to the mail server less than \<open>throttle_seconds\<close> apart.\<close>

theorem notify_throttle:
  assumes "0 \<le> w" "sorted (map cl_now cs)"
  shows "spaced (of_int w) (sent_at key (snd (notify_all smtp cs (fresh h cfg w, []))))"
proof (cases cs)
  case Nil
  then show ?thesis by (simp add: notify_all_def retM_def sent_at_def spaced_def)
next
  case (Cons c cs')
  have "throttle_inv w (cl_now c) (fresh h cfg w, [])"
    by (simp add: throttle_inv_def fresh_def sent_at_def spaced_def)
  from notify_all_inv [OF this assms(1), of cs smtp] assms(2) Cons show ?thesis
    by (auto simp: throttle_inv_def)
qed

definition sample_cfg :: jval where
  "sample_cfg = JObj [(''smtp_host'', JStr ''smtp.example''), (''smtp_port'', JInt 587), (''smtp_user'', JStr ''u''),
     (''smtp_password'', JStr ''p''), (''to_address'', JStr ''t'')]"

definition sample_calls :: "call list" where
  "sample_calls = map (\<lambda>t. \<lparr>cl_now = t, cl_subject = ''Run failed'', cl_body = [], cl_key = Some ''run_failure''\<rparr>)
     [1000, 1300, 1700]"

lemma notify_throttle_witness:
  "spaced (of_int 600) (sent_at ''run_failure'' (snd (notify_all (\<lambda>h p m. Inr ()) sample_calls (fresh ''node'' sample_cfg 600, []))))"
  by (rule notify_throttle) (simp_all add: sample_calls_def)

lemma sample_calls_sent:
  "sent_at ''run_failure'' (snd (notify_all (\<lambda>h p m. Inr ()) sample_calls (fresh ''node'' sample_cfg 600, []))) = [1000, 1700]"
  by code_simp

text \<open>C40. The first occurrence of an event is not always sent: while the monotonic clock still reads
  less than \<open>throttle_seconds\<close> (the host booted recently), a key that was never used before is throttled,
  nothing is handed to the mail server and nothing is recorded. From then on it passes the throttle.\<close>

theorem first_occurrence_throttled:
  assumes "nt_config n = Some cfg" "nt_throttle_seconds n = JInt w" "dict_get (nt_last_sent n) key = None"
  shows "(now < of_int w \<longrightarrow> notify smtp now subject body (Some key) (n, out) = (Inr False, (n, out)))
    \<and> (of_int w \<le> now \<longrightarrow> fst (pass_throttle now (Some key) (n, out)) = Inr True)"
  using assms
  by (simp add: notify_def pass_throttle_def throttled_def bindM_def getM_def retM_def seqM_def modifyM_def dict_get_or_def)

lemma first_occurrence_throttled_witness:
  "notify (\<lambda>h p m. Inr ()) 42 ''disk'' [] (Some ''disk_full'') (fresh ''node'' sample_cfg 600, [])
    = (Inr False, (fresh ''node'' sample_cfg 600, []))"
  using first_occurrence_throttled [where n = "fresh ''node'' sample_cfg 600" and cfg = sample_cfg and w = 600
      and key = "''disk_full''" and now = 42 and smtp = "\<lambda>h p m. Inr ()" and subject = "''disk''" and body = "[]" and out = "[]"]
  by (simp add: fresh_def)

end
