(* ===== verification/Log_Text.thy ===== *)
theory Log_Text
  imports PyStr
begin

section \<open>Reading the logs (benchmark/benchmark/logs.py, parsing)\<close>

text \<open>
  The regular expressions of the log parser, a backtracking matcher for them, the timestamp
  format, and the loops over the lines of client and replica logs. A log is the text of the
  file after newline translation.
\<close>

subsection \<open>Patterns\<close>

datatype re =
    RLit string
  | RPlus "char \<Rightarrow> bool"
  | RStar "char \<Rightarrow> bool"
  | RRep nat "char \<Rightarrow> bool"
  | ROptLit string
  | RGroup re
  | RSeq "re list"
  | REnd

text \<open>
  The matches of a pattern at the start of a string, in the order a backtracking matcher
  finds them: the texts of the groups and what is left of the string.
\<close>

definition run_len :: "(char \<Rightarrow> bool) \<Rightarrow> string \<Rightarrow> nat" where
  "run_len p s = length (takeWhile p s)"

fun re_match :: "re \<Rightarrow> string \<Rightarrow> (string list \<times> string) list"
  and re_seq :: "re list \<Rightarrow> string \<Rightarrow> (string list \<times> string) list" where
  "re_match (RLit t) s = (if starts_with t s then [([], drop (length t) s)] else [])"
| "re_match (RPlus p) s = map (\<lambda>k. ([], drop k s)) (rev [1..<Suc (run_len p s)])"
| "re_match (RStar p) s = map (\<lambda>k. ([], drop k s)) (rev [0..<Suc (run_len p s)])"
| "re_match (RRep n p) s = (if n \<le> run_len p s then [([], drop n s)] else [])"
| "re_match (ROptLit t) s = (if starts_with t s then [([], drop (length t) s)] else []) @ [([], s)]"
| "re_match (RGroup r) s =
     map (\<lambda>(gs, t). (take (length s - length t) s # gs, t)) (re_match r s)"
| "re_match (RSeq rs) s = re_seq rs s"
| "re_match REnd s = (if s = [] \<or> s = [CHR 0x0A] then [([], s)] else [])"
| "re_seq [] s = [([], s)]"
| "re_seq (r # rs) s =
     concat (map (\<lambda>(gs, t). map (\<lambda>(hs, u). (gs @ hs, u)) (re_seq rs t)) (re_match r s))"

text \<open>\<open>pattern.search(s)\<close>: the groups of the leftmost match.\<close>

fun re_search :: "re \<Rightarrow> string \<Rightarrow> string list option" where
  "re_search r [] = (case re_match r [] of [] \<Rightarrow> None | (gs, _) # _ \<Rightarrow> Some gs)"
| "re_search r (c # s) =
     (case re_match r (c # s) of [] \<Rightarrow> re_search r s | (gs, _) # _ \<Rightarrow> Some gs)"

definition num_class :: "char \<Rightarrow> bool" where
  "num_class c \<longleftrightarrow> is_digit c \<or> c = CHR ''.''"

definition num_group :: re where
  "num_group = RGroup (RPlus num_class)"

text \<open>\<open>_RE_COMMIT\<close>, \<open>_RE_REPLICA_BOOTED\<close>, \<open>_RE_SUMMARY\<close>, \<open>_RE_STEADY\<close>, \<open>_RE_BUCKETS\<close> and \<open>_RE_LATSUMS\<close>.\<close>

definition RE_COMMIT :: re where
  "RE_COMMIT = RSeq
     [RGroup (RSeq [RRep 4 is_digit, RLit ''-'', RRep 2 is_digit, RLit ''-'', RRep 2 is_digit, RLit '' '',
        RRep 2 is_digit, RLit '':'', RRep 2 is_digit, RLit '':'', RRep 2 is_digit, RLit ''.'', RPlus is_digit]),
      RLit '' [hotstuff info] '', num_group, RStar is_space, REnd]"

definition RE_REPLICA_BOOTED :: re where
  "RE_REPLICA_BOOTED = RLit ''[net info] starting all threads''"

definition RE_SUMMARY :: re where
  "RE_SUMMARY = RSeq
     [RLit ''[hotstuff summary] n='', RGroup (RPlus is_digit), RLit '' window='', num_group,
      RLit '' mean='', num_group, RLit '' p50='', num_group, RLit '' p95='', num_group,
      RLit '' p99='', num_group, RLit '' max='', num_group]"

definition RE_STEADY :: re where
  "RE_STEADY = RSeq
     [RLit ''[hotstuff steady] start='', num_group, RLit '' run='', num_group, RLit '' warmup='', num_group,
      RLit '' cooldown='', num_group, RLit '' span='', num_group, RLit '' n='', RGroup (RPlus is_digit),
      RLit '' mean='', num_group, RLit '' p50='', num_group, RLit '' p95='', num_group,
      RLit '' p99='', num_group, RLit '' max='', num_group,
      RLit '' first_commit='', RGroup (RSeq [ROptLit ''-'', RPlus num_class]),
      RLit '' last_commit='', RGroup (RSeq [ROptLit ''-'', RPlus num_class])]"

definition RE_BUCKETS :: re where
  "RE_BUCKETS = RSeq [RLit ''[hotstuff buckets] counts='', RGroup (RPlus (\<lambda>c. is_digit c \<or> c = CHR '',''))]"

definition RE_LATSUMS :: re where
  "RE_LATSUMS = RSeq [RLit ''[hotstuff latsums] seconds='', RGroup (RPlus (\<lambda>c. num_class c \<or> c = CHR '',''))]"

subsection \<open>Timestamps\<close>

definition leap_year :: "int \<Rightarrow> bool" where
  "leap_year y \<longleftrightarrow> 4 dvd y \<and> (\<not> 100 dvd y \<or> 400 dvd y)"

definition days_in_month :: "int \<Rightarrow> nat \<Rightarrow> int" where
  "days_in_month y m = (if m = 2 then (if leap_year y then 29 else 28) else if m \<in> {4, 6, 9, 11} then 30 else 31)"

text \<open>Days from 1970-01-01.\<close>

definition days_before_year :: "int \<Rightarrow> int" where
  "days_before_year y = (y - 1) * 365 + (y - 1) div 4 - (y - 1) div 100 + (y - 1) div 400 - 719162"

definition epoch_days :: "int \<Rightarrow> nat \<Rightarrow> int \<Rightarrow> int" where
  "epoch_days y m d = days_before_year y + sum_list (map (days_in_month y) [1..<m]) + d - 1"

definition nat_of_digits :: "string \<Rightarrow> nat" where
  "nat_of_digits s = foldl (\<lambda>a c. 10 * a + digit_val c) 0 s"

text \<open>
  \<open>datetime.strptime(s, '%Y-%m-%d %H:%M:%S.%f').timestamp()\<close> for a string the commit pattern
  matched, so every field is there with its digits. \<open>utc_offset\<close> is the offset of the local
  time zone at a local time.
\<close>

definition parse_ts :: "(int \<Rightarrow> int) \<Rightarrow> string \<Rightarrow> rat res" where
  "parse_ts utc_offset s =
     (let num = (\<lambda>a b. nat_of_digits (take (b - a) (drop a s)));
          y = int (num 0 4); mo = num 5 7; d = int (num 8 10);
          h = int (num 11 13); mi = int (num 14 16); sec = int (num 17 19);
          f = drop 20 s
      in if 6 < length f then Inl (ValueError ''unconverted data remains'')
         else if 1 \<le> y \<and> 1 \<le> mo \<and> mo \<le> 12 \<and> 1 \<le> d \<and> d \<le> days_in_month y mo
           \<and> h \<le> 23 \<and> mi \<le> 59 \<and> sec \<le> 59
         then let local = epoch_days y mo d * 86400 + h * 3600 + mi * 60 + sec
              in Inr (of_int (local - utc_offset local) + of_nat (nat_of_digits f) / 10 ^ length f)
         else Inl (ValueError ''time data does not match format''))"

subsection \<open>Client logs\<close>

record summary =
  sm_n :: int
  sm_window :: rat
  sm_mean :: rat
  sm_p50 :: rat
  sm_p95 :: rat
  sm_p99 :: rat
  sm_max :: rat

record steady =
  sd_start :: rat
  sd_run :: rat
  sd_warmup :: rat
  sd_cooldown :: rat
  sd_span :: rat
  sd_n :: int
  sd_mean :: rat
  sd_p50 :: rat
  sd_p95 :: rat
  sd_p99 :: rat
  sd_max :: rat
  sd_first_commit :: rat
  sd_last_commit :: rat
  sd_buckets :: "int list"
  sd_latsums :: "rat list"

text \<open>\<open>float(x)\<close> on a matched group: digits, points and a sign, so never infinite and never NaN.\<close>

definition float_group :: "string \<Rightarrow> rat res" where
  "float_group x = bindR (py_float (PStr x)) (\<lambda>f. case f of Fin r \<Rightarrow> Inr r | _ \<Rightarrow> Inl (ValueError x))"

definition int_group :: "string \<Rightarrow> int res" where
  "int_group x = py_int (PStr x)"

definition steady_of_groups :: "string list \<Rightarrow> steady res" where
  "steady_of_groups gs =
     bindR (mapR float_group gs) (\<lambda>g.
     Inr \<lparr>sd_start = g ! 0, sd_run = g ! 1, sd_warmup = g ! 2, sd_cooldown = g ! 3, sd_span = g ! 4,
          sd_n = trunc_rat (g ! 5), sd_mean = g ! 6, sd_p50 = g ! 7, sd_p95 = g ! 8, sd_p99 = g ! 9,
          sd_max = g ! 10, sd_first_commit = g ! 11, sd_last_commit = g ! 12,
          sd_buckets = [], sd_latsums = []\<rparr>)"

definition summary_of_groups :: "string list \<Rightarrow> summary res" where
  "summary_of_groups gs =
     bindR (int_group (gs ! 0)) (\<lambda>n.
     bindR (mapR float_group (tl gs)) (\<lambda>g.
     Inr \<lparr>sm_n = n, sm_window = g ! 0, sm_mean = g ! 1, sm_p50 = g ! 2, sm_p95 = g ! 3, sm_p99 = g ! 4,
          sm_max = g ! 5\<rparr>))"

record client_state =
  cs_timestamps :: "rat list"
  cs_latencies :: "rat list"
  cs_summary :: "summary option"
  cs_steady :: "steady option"
  cs_buckets :: "int list option"
  cs_latsums :: "rat list option"

definition client_state0 :: client_state where
  "client_state0 = \<lparr>cs_timestamps = [], cs_latencies = [], cs_summary = None, cs_steady = None,
     cs_buckets = None, cs_latsums = None\<rparr>"

text \<open>A commit line; a value that does not parse skips the line.\<close>

definition commit_line :: "(int \<Rightarrow> int) \<Rightarrow> client_state \<Rightarrow> string \<Rightarrow> client_state res" where
  "commit_line tz st line =
     (case re_search RE_COMMIT line of
        None \<Rightarrow> Inr st
      | Some gs \<Rightarrow>
          (case bindR (parse_ts tz (gs ! 0)) (\<lambda>ts. bindR (float_group (gs ! 1)) (\<lambda>lat. Inr (ts, lat))) of
             Inl e \<Rightarrow> (if is_ValueError e \<or> (case e of OverflowError m \<Rightarrow> True | _ \<Rightarrow> False) then Inr st else Inl e)
           | Inr (ts, lat) \<Rightarrow> Inr (st\<lparr>cs_timestamps := cs_timestamps st @ [ts],
                                     cs_latencies := cs_latencies st @ [lat]\<rparr>)))"

text \<open>One pass of the loop. A field already filled is not searched for again, and a line of that
  kind falls through to the next test.\<close>

definition client_line :: "(int \<Rightarrow> int) \<Rightarrow> client_state \<Rightarrow> string \<Rightarrow> client_state res" where
  "client_line tz st line =
     (case (if cs_steady st = None then re_search RE_STEADY line else None) of
        Some gs \<Rightarrow> bindR (steady_of_groups gs) (\<lambda>sd. Inr (st\<lparr>cs_steady := Some sd\<rparr>))
      | None \<Rightarrow>
     (case (if cs_buckets st = None then re_search RE_BUCKETS line else None) of
        Some gs \<Rightarrow> bindR (mapR int_group (py_split (CHR '','') (gs ! 0))) (\<lambda>b. Inr (st\<lparr>cs_buckets := Some b\<rparr>))
      | None \<Rightarrow>
     (case (if cs_latsums st = None then re_search RE_LATSUMS line else None) of
        Some gs \<Rightarrow> bindR (mapR float_group (py_split (CHR '','') (gs ! 0))) (\<lambda>l. Inr (st\<lparr>cs_latsums := Some l\<rparr>))
      | None \<Rightarrow>
     (case (if cs_summary st = None then re_search RE_SUMMARY line else None) of
        Some gs \<Rightarrow> bindR (summary_of_groups gs) (\<lambda>sm. Inr (st\<lparr>cs_summary := Some sm\<rparr>))
      | None \<Rightarrow> commit_line tz st line))))"

record client_sample =
  sp_timestamps :: "rat list"
  sp_latencies :: "rat list"
  sp_summary :: "summary option"
  sp_steady :: "steady option"

definition opt_or_nil :: "'a list option \<Rightarrow> 'a list" where
  "opt_or_nil x = (case x of None \<Rightarrow> [] | Some ys \<Rightarrow> ys)"

definition finish_client :: "client_state \<Rightarrow> client_sample" where
  "finish_client st =
     \<lparr>sp_timestamps = sort (cs_timestamps st), sp_latencies = sort (cs_latencies st),
      sp_summary = cs_summary st,
      sp_steady = map_option (\<lambda>sd. sd\<lparr>sd_buckets := opt_or_nil (cs_buckets st),
                                      sd_latsums := opt_or_nil (cs_latsums st)\<rparr>) (cs_steady st)\<rparr>"

definition file_lines :: "string \<Rightarrow> string list" where
  "file_lines text = text_lines text"

definition read_client_log :: "(int \<Rightarrow> int) \<Rightarrow> string \<Rightarrow> client_sample res" where
  "read_client_log tz text =
     bindR (foldR (client_line tz) client_state0 (file_lines text)) (\<lambda>st. Inr (finish_client st))"

definition read_replica_log :: "string \<Rightarrow> bool" where
  "read_replica_log text \<longleftrightarrow> (\<exists>line \<in> set (file_lines text). re_search RE_REPLICA_BOOTED line \<noteq> None)"

end
