(* ===== verification/Logs.thy ===== *)
theory Logs
  imports Log_Text
begin

section \<open>Metrics of a run (benchmark/benchmark/logs.py, LogParser)\<close>

text \<open>
  The aggregation of the parsed samples: percentiles, throughput, the totals taken from the
  clients' summaries, and the steady-state window with its stall detection. The result is the
  dictionary written to \<open>metrics.json\<close>, in the order of its keys.
\<close>

subsection \<open>Percentiles\<close>

definition percentile :: "rat list \<Rightarrow> rat \<Rightarrow> rat" where
  "percentile sorted_values q =
     (if sorted_values = [] then 0
      else if length sorted_values = 1 then sorted_values ! 0
      else
        let pos = of_nat (length sorted_values - 1) * (q / 100); lo = \<lfloor>pos\<rfloor>; hi = \<lceil>pos\<rceil> in
        if lo = hi then sorted_values ! nat lo
        else
          let frac = pos - of_int lo in
          sorted_values ! nat lo + (sorted_values ! nat hi - sorted_values ! nat lo) * frac)"

text \<open>The piecewise linear function through the sorted values, at a real position.\<close>

definition interp :: "rat list \<Rightarrow> rat \<Rightarrow> rat" where
  "interp vs pos = vs ! nat \<lfloor>pos\<rfloor> + (vs ! nat \<lceil>pos\<rceil> - vs ! nat \<lfloor>pos\<rfloor>) * (pos - of_int \<lfloor>pos\<rfloor>)"

lemma percentile_interp:
  "2 \<le> length vs \<Longrightarrow> percentile vs q = interp vs (of_nat (length vs - 1) * (q / 100))"
  by (auto simp: percentile_def interp_def Let_def)

lemma sorted_nth_le: "sorted vs \<Longrightarrow> i \<le> j \<Longrightarrow> j < length vs \<Longrightarrow> vs ! i \<le> vs ! (j :: nat)"
  by (simp add: sorted_iff_nth_mono)

lemma interp_between:
  assumes s: "sorted vs" and p: "0 \<le> pos" "pos \<le> of_nat (length vs - 1)" and ne: "vs \<noteq> []"
  shows "vs ! nat \<lfloor>pos\<rfloor> \<le> interp vs pos \<and> interp vs pos \<le> vs ! nat \<lceil>pos\<rceil>"
proof -
  have "\<lceil>pos\<rceil> \<le> int (length vs - 1)" using p(2) by (simp add: ceiling_le_iff)
  then have hi: "nat \<lceil>pos\<rceil> < length vs" using ne by (cases vs) auto
  have "\<lfloor>pos\<rfloor> \<le> \<lceil>pos\<rceil>" by (meson ceiling_correct floor_correct of_int_le_iff order_trans)
  then have d: "0 \<le> vs ! nat \<lceil>pos\<rceil> - vs ! nat \<lfloor>pos\<rfloor>"
    using sorted_nth_le [OF s nat_mono hi] by simp
  have w: "0 \<le> pos - of_int \<lfloor>pos\<rfloor>" "pos - of_int \<lfloor>pos\<rfloor> \<le> 1" by linarith+
  show ?thesis
    using mult_nonneg_nonneg [OF d w(1)] mult_left_mono [OF w(2) d] unfolding interp_def by simp
qed

lemma interp_mono:
  assumes s: "sorted vs" and le: "0 \<le> p" "p \<le> q" "q \<le> of_nat (length vs - 1)" and ne: "vs \<noteq> []"
  shows "interp vs p \<le> interp vs q"
proof (cases "\<lfloor>p\<rfloor> = \<lfloor>q\<rfloor>")
  case same: True
  show ?thesis
  proof (cases "p = of_int \<lfloor>p\<rfloor>")
    case True
    then have "interp vs p = vs ! nat \<lfloor>q\<rfloor>" unfolding same [symmetric] interp_def by simp
    also have "\<dots> \<le> interp vs q" using interp_between [OF s _ le(3) ne] le(1,2) by simp
    finally show ?thesis .
  next
    case False
    then have "\<lceil>p\<rceil> = \<lfloor>p\<rfloor> + 1" by (simp add: ceiling_altdef)
    moreover have "\<lceil>q\<rceil> = \<lfloor>q\<rfloor> + 1"
    proof -
      have "of_int \<lfloor>p\<rfloor> < p" using False by linarith
      then have "q \<noteq> of_int \<lfloor>q\<rfloor>" using le(2) same by auto
      then show ?thesis by (simp add: ceiling_altdef)
    qed
    ultimately have c: "\<lceil>p\<rceil> = \<lceil>q\<rceil>" using same by simp
    have "\<lceil>q\<rceil> \<le> int (length vs - 1)" using le(3) by (simp add: ceiling_le_iff)
    then have "nat \<lceil>q\<rceil> < length vs" using ne by (cases vs) auto
    moreover have "\<lfloor>q\<rfloor> \<le> \<lceil>q\<rceil>" using \<open>\<lceil>q\<rceil> = \<lfloor>q\<rfloor> + 1\<close> by simp
    ultimately have "vs ! nat \<lfloor>q\<rfloor> \<le> vs ! nat \<lceil>q\<rceil>" by (intro sorted_nth_le [OF s] nat_mono)
    then show ?thesis
      unfolding interp_def c same using le(2) by (auto intro!: mult_left_mono)
  qed
next
  case False
  then have "\<lfloor>p\<rfloor> + 1 \<le> \<lfloor>q\<rfloor>" using floor_mono [OF le(2)] by simp
  then have "\<lceil>p\<rceil> \<le> \<lfloor>q\<rfloor>" by linarith
  moreover have "\<lfloor>q\<rfloor> \<le> int (length vs - 1)" using le(3) by linarith
  then have "nat \<lfloor>q\<rfloor> < length vs" using ne by (cases vs) auto
  ultimately have "vs ! nat \<lceil>p\<rceil> \<le> vs ! nat \<lfloor>q\<rfloor>" by (intro sorted_nth_le [OF s] nat_mono)
  then show ?thesis
    using interp_between [OF s le(1) _ ne] interp_between [OF s _ le(3) ne] le by fastforce
qed

lemma percentile_mono:
  assumes "sorted vs" "0 \<le> p" "p \<le> q" "q \<le> 100"
  shows "percentile vs p \<le> percentile vs q"
proof (cases "2 \<le> length vs")
  case True
  let ?m = "of_nat (length vs - 1) :: rat"
  have "?m * (p / 100) \<le> ?m * (q / 100)" "?m * (q / 100) \<le> ?m * 1" "0 \<le> ?m * (p / 100)"
    using assms by (auto intro!: mult_left_mono)
  with True show ?thesis
    unfolding percentile_interp [OF True]
    by (intro interp_mono [OF assms(1)]) auto
next
  case False
  then have "length vs = 0 \<or> length vs = 1" by linarith
  then show ?thesis by (auto simp: percentile_def)
qed

lemma percentile_bounds:
  assumes s: "sorted vs" and q: "0 \<le> q" "q \<le> 100" and ne: "vs \<noteq> []"
  shows "hd vs \<le> percentile vs q \<and> percentile vs q \<le> last vs"
proof -
  have "percentile vs 0 = hd vs"
    using ne by (simp add: percentile_def hd_conv_nth Let_def)
  moreover have "percentile vs 100 = last vs"
    using ne by (simp add: percentile_def last_conv_nth Let_def)
  ultimately show ?thesis
    using percentile_mono [OF s, of 0 q] percentile_mono [OF s, of q 100] q by simp
qed

text \<open>\<open>_percentile\<close> on sorted samples is a proper percentile: it is monotone in \<open>q\<close>, never leaves the
  range of the samples, and at a position that falls on a sample it is that order statistic.\<close>

theorem percentile_correct:
  assumes "sorted vs" "vs \<noteq> []" "0 \<le> p" "p \<le> q" "q \<le> 100"
  shows "percentile vs p \<le> percentile vs q \<and> hd vs \<le> percentile vs p \<and> percentile vs q \<le> last vs
    \<and> (\<forall>k < length vs. of_nat (length vs - 1) * (q / 100) = of_nat k \<longrightarrow> percentile vs q = vs ! k)"
proof -
  have "percentile vs q = vs ! k" if "k < length vs" "of_nat (length vs - 1) * (q / 100) = of_nat k" for k
  proof (cases "length vs = 1")
    case False
    with assms(2) have "2 \<le> length vs" by (cases vs; cases "tl vs") auto
    from percentile_interp [OF this] that(2) show ?thesis by (simp add: interp_def)
  qed (use that assms(2) in \<open>simp add: percentile_def\<close>)
  then show ?thesis
    using percentile_mono [OF assms(1,3,4,5)] percentile_bounds [OF assms(1) assms(3) _ assms(2)]
      percentile_bounds [OF assms(1) _ assms(5) assms(2)] assms(3-5) by simp
qed

lemma percentile_correct_witness:
  "percentile [1, 2, 4, 8, 16] 25 \<le> percentile [1, 2, 4, 8, 16] 50 \<and> percentile [1, 2, 4, 8, 16 :: rat] 50 = 4"
proof -
  note p = percentile_correct [of "[1, 2, 4, 8, 16]" 25 50]
  from p have "\<forall>k < 5. (4 :: rat) * (50 / 100) = of_nat k \<longrightarrow> percentile [1, 2, 4, 8, 16] 50 = [1, 2, 4, 8, 16] ! k"
    by simp
  from this [rule_format, of 2] p show ?thesis by simp
qed

subsection \<open>The parser object\<close>

record log_parser =
  lp_client_samples :: "client_sample list"
  lp_replica_booted :: nat
  lp_meta :: "(string, jval) dict"

text \<open>\<open>meta or {}\<close>, for the JSON values the daemon passes.\<close>

fun meta_dict :: "jval \<Rightarrow> (string, jval) dict" where
  "meta_dict (JObj ms) = ms"
| "meta_dict _ = []"

definition check_samples :: "string \<Rightarrow> client_sample list \<Rightarrow> unit res" where
  "check_samples directory samples =
     (let tot = sum_list (map (length \<circ> sp_timestamps) samples) in
      if tot = 0 \<and> \<not> (\<exists>c \<in> set samples. sp_steady c \<noteq> None) then
        Inl (LogParseError (''parsed '' @ show_nat (length samples) @ '' client log(s) under '' @ directory @
          '' but found zero commit lines '' @ [CHR 0xE2, CHR 0x80, CHR 0x94] @
          '' did you build with HOTSTUFF_ENABLE_BENCHMARK=ON?''))
      else Inr ())"

text \<open>
  \<open>LogParser.process\<close>, given whether the directory exists and the texts of the client and
  replica logs in the order of their sorted paths.
\<close>

definition process :: "(int \<Rightarrow> int) \<Rightarrow> string \<Rightarrow> bool \<Rightarrow> string list \<Rightarrow> string list \<Rightarrow> jval \<Rightarrow> log_parser res" where
  "process tz directory is_dir client_texts replica_texts meta =
     (if \<not> is_dir then Inl (LogParseError (''log directory does not exist: '' @ directory))
      else if client_texts = [] then Inl (LogParseError (''no client-*.log files found under '' @ directory))
      else
        bindR (mapR (read_client_log tz) client_texts) (\<lambda>samples.
        bindR (check_samples directory samples) (\<lambda>_.
        Inr \<lparr>lp_client_samples = samples, lp_replica_booted = length (filter read_replica_log replica_texts),
             lp_meta = meta_dict meta\<rparr>)))"

definition aggregate :: "client_sample list \<Rightarrow> rat list \<times> rat list" where
  "aggregate cs = (sort (concat (map sp_timestamps cs)), sort (concat (map sp_latencies cs)))"

text \<open>\<open>_throughput\<close>: the rate and the window.\<close>

definition throughput :: "rat list \<Rightarrow> rat \<times> rat" where
  "throughput all_ts =
     (let n = length all_ts in
      if n < 2 then (0, 0)
      else let window = last all_ts - hd all_ts in
        if window \<le> 0 then (0, 0) else (of_nat n / window, window))"

definition mean_list :: "rat list \<Rightarrow> rat" where
  "mean_list xs = sum_list xs / of_nat (length xs)"

definition py_max :: "'a :: linorder list \<Rightarrow> 'a" where
  "py_max xs = fold max (tl xs) (hd xs)"

definition py_min :: "'a :: linorder list \<Rightarrow> 'a" where
  "py_min xs = fold min (tl xs) (hd xs)"

text \<open>\<open>[x for x in xs if x]\<close>, for dictionaries that are never empty.\<close>

definition present :: "'a option list \<Rightarrow> 'a list" where
  "present xs = concat (map (\<lambda>x. case x of None \<Rightarrow> [] | Some y \<Rightarrow> [y]) xs)"

subsection \<open>The steady-state window\<close>

definition common_start :: "steady list \<Rightarrow> rat" where
  "common_start st = py_min (map sd_start st)"

text \<open>The first second of the histogram of a client, and of its i-th bucket, on the common clock.\<close>

definition bucket_second :: "rat \<Rightarrow> steady \<Rightarrow> nat \<Rightarrow> int" where
  "bucket_second t0 x i = trunc_rat ((sd_start x - t0) + of_nat i)"

definition add_buckets :: "rat \<Rightarrow> steady \<Rightarrow> (int, int) dict \<Rightarrow> (int, int) dict" where
  "add_buckets t0 x tot =
     fold (\<lambda>(i, c) d. dict_set (bucket_second t0 x i) (dict_get_or d (bucket_second t0 x i) 0 + c) d)
       (enum (sd_buckets x)) tot"

definition second_totals :: "rat \<Rightarrow> steady list \<Rightarrow> (int, int) dict" where
  "second_totals t0 st = fold (add_buckets t0) st []"

text \<open>The loop over the seconds of the window, with \<open>cur\<close> and \<open>longest\<close>.\<close>

definition longest_zero :: "(int \<Rightarrow> bool) \<Rightarrow> int list \<Rightarrow> nat \<times> nat" where
  "longest_zero z secs =
     foldl (\<lambda>(cur, longest) s. if z s then (cur + 1, max longest (cur + 1)) else (0, longest)) (0, 0) secs"

definition window_lo :: "steady list \<Rightarrow> int" where
  "window_lo st = \<lceil>py_max (map (\<lambda>x. sd_start x + sd_warmup x) st) - common_start st\<rceil>"

definition window_hi :: "steady list \<Rightarrow> int" where
  "window_hi st = \<lfloor>py_min (map (\<lambda>x. sd_start x + sd_run x - sd_cooldown x) st) - common_start st\<rfloor>"

definition longest_zero_commit :: "steady list \<Rightarrow> nat" where
  "longest_zero_commit st =
     (let tot = second_totals (common_start st) st
      in snd (longest_zero (\<lambda>s. dict_get_or tot s 0 = 0) [window_lo st..window_hi st - 1]))"

definition STALL_ZERO_SECONDS :: nat where
  "STALL_ZERO_SECONDS = 5"

definition fl :: "rat \<Rightarrow> jval" where
  "fl x = JFloat (Fin x)"

definition steady_items :: "steady list \<Rightarrow> (string \<times> jval) list" where
  "steady_items st =
     (let n = sum_list (map sd_n st);
          tps = sum_list (map (\<lambda>x. of_int (sd_n x) / sd_span x) (filter (\<lambda>x. 0 < sd_span x) st));
          mean_ms = (if n \<noteq> 0 then sum_list (map (\<lambda>x. sd_mean x * of_int (sd_n x)) st) / of_int n * 1000 else 0);
          longest = longest_zero_commit st;
          commits = filter (\<lambda>x. 0 \<le> sd_first_commit x) st
      in [(''tps_steady'', fl (py_round tps 2)),
          (''latency_ms_mean_steady'', fl (py_round mean_ms 3)),
          (''n_committed_steady'', JInt n),
          (''steady_span_s'', fl (py_round (if length st = 1 then sd_span (hd st) else py_min (map sd_span st)) 2)),
          (''clients_committing'', JInt (int (length commits))),
          (''last_commit_s'', if commits = [] then JInt (- 1) else fl (py_round (py_max (map sd_last_commit commits)) 2)),
          (''longest_zero_commit_s'', JInt (int longest)),
          (''stalled'', JBool (STALL_ZERO_SECONDS \<le> longest))]
         @ (if length st = 1
            then [(''latency_ms_p50_steady'', fl (py_round (sd_p50 (hd st) * 1000) 3)),
                  (''latency_ms_p99_steady'', fl (py_round (sd_p99 (hd st) * 1000) 3))]
            else [(''latency_ms_p99_steady_worst_client'', fl (py_round (py_max (map sd_p99 st) * 1000) 3))]))"

definition steady_metrics :: "client_sample list \<Rightarrow> (string \<times> jval) list" where
  "steady_metrics cs =
     (let st = map sp_steady cs in
      if st = [] \<or> None \<in> set st then [] else steady_items (map the st))"

subsection \<open>The result dictionary\<close>

record totals =
  tt_tps :: rat
  tt_window :: rat
  tt_lat_mean_ms :: rat
  tt_p50 :: rat
  tt_p95 :: rat
  tt_p99 :: rat
  tt_n_committed :: int
  tt_truncated :: bool

definition raw_totals :: "client_sample list \<Rightarrow> totals" where
  "raw_totals cs =
     (let (all_ts, all_lat) = aggregate cs; (tps, window) = throughput all_ts
      in \<lparr>tt_tps = tps, tt_window = window,
          tt_lat_mean_ms = (if all_lat \<noteq> [] then mean_list all_lat * 1000 else 0),
          tt_p50 = percentile all_lat 50, tt_p95 = percentile all_lat 95, tt_p99 = percentile all_lat 99,
          tt_n_committed = int (length all_ts), tt_truncated = False\<rparr>)"

text \<open>The clients' own summaries replace the figures derived from the records, when every client has one.\<close>

definition summary_totals :: "summary list \<Rightarrow> nat \<Rightarrow> totals \<Rightarrow> totals" where
  "summary_totals sms n_records t =
     (let n = sum_list (map sm_n sms); window = py_max (map sm_window sms) in
      t\<lparr>tt_n_committed := n, tt_window := window,
        tt_tps := (if 0 < window then of_int n / window else 0),
        tt_lat_mean_ms := (if n \<noteq> 0 then sum_list (map (\<lambda>sm. sm_mean sm * of_int (sm_n sm)) sms) / of_int n * 1000 else 0),
        tt_p50 := (if length sms = 1 then sm_p50 (hd sms) else tt_p50 t),
        tt_p95 := (if length sms = 1 then sm_p95 (hd sms) else tt_p95 t),
        tt_p99 := (if length sms = 1 then sm_p99 (hd sms) else tt_p99 t),
        tt_truncated := int n_records < n\<rparr>)"

definition run_totals :: "client_sample list \<Rightarrow> totals" where
  "run_totals cs =
     (let sms = present (map sp_summary cs) in
      if sms \<noteq> [] \<and> length sms = length cs
      then summary_totals sms (length (fst (aggregate cs))) (raw_totals cs)
      else raw_totals cs)"

definition result_dict :: "log_parser \<Rightarrow> (string \<times> jval) list" where
  "result_dict p =
     (let cs = lp_client_samples p; t = run_totals cs
      in steady_metrics cs @
         [(''tps'', fl (py_round (tt_tps t) 2)),
          (''latency_ms_mean'', fl (py_round (tt_lat_mean_ms t) 3)),
          (''latency_ms_p50'', fl (py_round (tt_p50 t * 1000) 3)),
          (''latency_ms_p95'', fl (py_round (tt_p95 t * 1000) 3)),
          (''latency_ms_p99'', fl (py_round (tt_p99 t * 1000) 3)),
          (''duration_s'', fl (py_round (tt_window t) 2)),
          (''n_committed'', JInt (tt_n_committed t)),
          (''n_records_dumped'', JInt (int (length (fst (aggregate cs))))),
          (''raw_dump_truncated'', JBool (tt_truncated t)),
          (''n_clients'', JInt (int (length cs))),
          (''n_replicas_booted'', JInt (int (lp_replica_booted p)))])"

text \<open>\<open>f'{n:,}'\<close>: groups of three digits.\<close>

fun group3 :: "string \<Rightarrow> string" where
  "group3 (a # b # c # d # r) = a # b # c # CHR '','' # group3 (d # r)"
| "group3 s = s"

definition fmt_thousands :: "int \<Rightarrow> string" where
  "fmt_thousands i = (if i < 0 then ''-'' else []) @ rev (group3 (rev (show_nat (nat \<bar>i\<bar>))))"

definition fmt_thousands2 :: "rat \<Rightarrow> string" where
  "fmt_thousands2 x =
     (let s = fmt_fixed 2 \<bar>x\<bar>; k = length s - 3
      in (if x < 0 then ''-'' else []) @ rev (group3 (rev (take k s))) @ drop k s)"

text \<open>\<open>f'{v}'\<close>.\<close>

definition json_str :: "jval \<Rightarrow> string" where
  "json_str v = (if v = JNull then ''None'' else csv_cell v)"

definition result_text :: "log_parser \<Rightarrow> string" where
  "result_text p =
     (let t = run_totals (lp_client_samples p);
          run_id = json_str (dict_get_or (lp_meta p) ''run_id'' (JStr ''?''));
          rule = ''-----------------------------------------'';
          nl = [CHR 0x0A]
      in nl @ rule @ nl @
         '' SUMMARY (run_id='' @ run_id @ ''):'' @ nl @ rule @ nl @
         '' Clients parsed:        '' @ show_nat (length (lp_client_samples p)) @ nl @
         '' Replicas seen booted:  '' @ show_nat (lp_replica_booted p) @ nl @
         '' Commits:               '' @ fmt_thousands (tt_n_committed t) @ nl @
         '' Window (s):            '' @ show_float (Fin (py_round (tt_window t) 2)) @ nl @
         nl @
         '' Throughput (tps):      '' @ fmt_thousands2 (py_round (tt_tps t) 2) @ nl @
         '' Latency mean (ms):     '' @ show_float (Fin (py_round (tt_lat_mean_ms t) 3)) @ nl @
         '' Latency p50 (ms):      '' @ show_float (Fin (py_round (tt_p50 t * 1000) 3)) @ nl @
         '' Latency p95 (ms):      '' @ show_float (Fin (py_round (tt_p95 t * 1000) 3)) @ nl @
         '' Latency p99 (ms):      '' @ show_float (Fin (py_round (tt_p99 t * 1000) 3)) @ nl @
         rule @ nl)"

subsection \<open>Stall detection\<close>

text \<open>A run of \<open>k\<close> consecutive elements satisfying \<open>z\<close> somewhere in a list.\<close>

definition has_run :: "('a \<Rightarrow> bool) \<Rightarrow> 'a list \<Rightarrow> nat \<Rightarrow> bool" where
  "has_run z xs k \<longleftrightarrow> (\<exists>ys zs us. xs = ys @ zs @ us \<and> length zs = k \<and> (\<forall>x \<in> set zs. z x))"

definition zero_suffix :: "('a \<Rightarrow> bool) \<Rightarrow> 'a list \<Rightarrow> nat" where
  "zero_suffix z xs = length (takeWhile z (rev xs))"

lemma longest_zero_snoc:
  "longest_zero z (xs @ [s]) =
     (let (cur, longest) = longest_zero z xs in if z s then (cur + 1, max longest (cur + 1)) else (0, longest))"
  by (simp add: longest_zero_def Let_def split_beta)

lemma longest_zero_fst: "fst (longest_zero z xs) = zero_suffix z xs"
proof (induction xs rule: rev_induct)
  case Nil
  show ?case by (simp add: longest_zero_def zero_suffix_def)
next
  case (snoc s xs)
  then show ?case by (simp add: longest_zero_snoc zero_suffix_def split_beta)
qed

lemma has_run_suffix: "has_run z xs (zero_suffix z xs)"
proof -
  define zs where "zs = rev (takeWhile z (rev xs))"
  have "xs = rev (dropWhile z (rev xs)) @ zs @ []"
    unfolding zs_def by (metis append_Nil2 rev_append rev_rev_ident takeWhile_dropWhile_id)
  moreover have "length zs = zero_suffix z xs" by (simp add: zs_def zero_suffix_def)
  moreover have "\<forall>x \<in> set zs. z x" by (auto simp: zs_def dest: set_takeWhileD)
  ultimately show ?thesis unfolding has_run_def by metis
qed

lemma suffix_run_le:
  assumes "xs = ys @ zs" "\<forall>x \<in> set zs. z x"
  shows "length zs \<le> zero_suffix z xs"
  using assms by (simp add: zero_suffix_def takeWhile_append)

lemma has_run_snoc:
  "has_run z (xs @ [s]) k \<longleftrightarrow> has_run z xs k \<or> k \<le> zero_suffix z (xs @ [s])" (is "?l \<longleftrightarrow> ?r")
proof
  assume ?l
  then obtain ys zs us where d: "xs @ [s] = ys @ zs @ us" "length zs = k" "\<forall>x \<in> set zs. z x"
    unfolding has_run_def by blast
  show ?r
  proof (cases us rule: rev_exhaust)
    case Nil
    then show ?thesis using suffix_run_le [of "xs @ [s]" ys zs z] d by simp
  next
    case (snoc vs v)
    then have "xs = ys @ zs @ vs" using d(1) by simp
    then show ?thesis using d(2,3) unfolding has_run_def by blast
  qed
next
  assume ?r
  then show ?l
  proof
    assume "has_run z xs k"
    then obtain ys zs us where "xs = ys @ zs @ us" "length zs = k" "\<forall>x \<in> set zs. z x"
      unfolding has_run_def by blast
    then have "xs @ [s] = ys @ zs @ (us @ [s])" by simp
    with \<open>length zs = k\<close> \<open>\<forall>x \<in> set zs. z x\<close> show ?l unfolding has_run_def by blast
  next
    assume k: "k \<le> zero_suffix z (xs @ [s])"
    obtain ys zs us where d: "xs @ [s] = ys @ zs @ us" "length zs = zero_suffix z (xs @ [s])" "\<forall>x \<in> set zs. z x"
      using has_run_suffix [of z "xs @ [s]"] unfolding has_run_def by blast
    have "xs @ [s] = ys @ take k zs @ (drop k zs @ us)" using d(1) by simp
    moreover have "length (take k zs) = k" using k d(2) by simp
    moreover have "\<forall>x \<in> set (take k zs). z x" using d(3) by (auto dest: in_set_takeD)
    ultimately show ?l unfolding has_run_def by blast
  qed
qed

lemma longest_zero_run: "k \<le> snd (longest_zero z xs) \<longleftrightarrow> has_run z xs k"
proof (induction xs arbitrary: k rule: rev_induct)
  case Nil
  show ?case by (auto simp: longest_zero_def has_run_def)
next
  case (snoc s xs)
  have suf: "zero_suffix z (xs @ [s]) = (if z s then zero_suffix z xs + 1 else 0)"
    by (simp add: zero_suffix_def)
  have zero: "has_run z xs 0" unfolding has_run_def by force
  show ?case
    unfolding has_run_snoc suf snoc.IH [symmetric] longest_zero_snoc
    using snoc.IH [of 0] zero by (auto simp: Let_def split_beta longest_zero_fst)
qed

lemma has_run_upto:
  "has_run z [a..b - 1] k \<longleftrightarrow> k = 0 \<or> (\<exists>s. a \<le> s \<and> s + int k \<le> b \<and> (\<forall>t. s \<le> t \<and> t < s + int k \<longrightarrow> z t))"
  (is "?l \<longleftrightarrow> ?r")
proof
  assume ?l
  then obtain ys zs us where d: "[a..b - 1] = ys @ zs @ us" "length zs = k" "\<forall>x \<in> set zs. z x"
    unfolding has_run_def by blast
  show ?r
  proof (cases "k = 0")
    case False
    define s where "s = a + int (length ys)"
    have len: "nat (b - a) = length ys + k + length us" using d(1,2) by (metis add.assoc diff_add_cancel length_append length_upto diff_add_eq)
    then have "s + int k \<le> b" unfolding s_def using False by linarith
    moreover have "z t" if t: "s \<le> t" "t < s + int k" for t
    proof -
      define i where "i = nat (t - s)"
      have i: "i < k" using t by (simp add: i_def)
      have "zs ! i = [a..b - 1] ! (length ys + i)" using d(1,2) i by (simp add: nth_append)
      also have "\<dots> = a + int (length ys + i)" using len i by (intro nth_upto) linarith
      also have "\<dots> = t" using t by (simp add: i_def s_def)
      finally show ?thesis using d(2,3) i nth_mem by metis
    qed
    ultimately show ?thesis unfolding s_def by (metis le_add_same_cancel1 of_nat_0_le_iff)
  qed simp
next
  assume ?r
  then show ?l
  proof
    assume "k = 0"
    then show ?l unfolding has_run_def by force
  next
    assume "\<exists>s. a \<le> s \<and> s + int k \<le> b \<and> (\<forall>t. s \<le> t \<and> t < s + int k \<longrightarrow> z t)"
    then obtain s where s: "a \<le> s" "s + int k \<le> b" "\<forall>t. s \<le> t \<and> t < s + int k \<longrightarrow> z t" by blast
    have cut: "[i..k'] = [i..j - 1] @ [j..k']" if "i \<le> j" "j \<le> k' + 1" for i j k' :: int
    proof (cases "j \<le> k'")
      case False
      then have "j = k' + 1" using that by simp
      then show ?thesis by simp
    next
      case True
      with that(1) show ?thesis by (rule upto_split1)
    qed
    have "[a..b - 1] = [a..s - 1] @ [s..s + int k - 1] @ [s + int k..b - 1]"
      using cut [of a s "b - 1"] cut [of s "s + int k" "b - 1"] s(1,2) by simp
    moreover have "length [s..s + int k - 1] = k" by simp
    moreover have "\<forall>x \<in> set [s..s + int k - 1]. z x" using s(3) by simp
    ultimately show ?l unfolding has_run_def by blast
  qed
qed

lemma fold_add_get:
  fixes d :: "('k, 'v :: comm_monoid_add) dict"
  shows "dict_get_or (fold (\<lambda>(k, c) d. dict_set k (dict_get_or d k 0 + c) d) kcs d) s 0 =
     dict_get_or d s 0 + sum_list (map snd (filter (\<lambda>(k, c). k = s) kcs))"
proof (induction kcs arbitrary: d)
  case (Cons kc kcs)
  then show ?case by (cases kc) (simp add: dict_get_or_def ac_simps split: option.splits)
qed simp

definition bucket_items :: "rat \<Rightarrow> steady \<Rightarrow> (int \<times> int) list" where
  "bucket_items t0 x = map (\<lambda>(i, c). (bucket_second t0 x i, c)) (enum (sd_buckets x))"

lemma second_totals_fold:
  "second_totals t0 st = fold (\<lambda>(k, c) d. dict_set k (dict_get_or d k 0 + c) d) (concat (map (bucket_items t0) st)) []"
proof -
  have add: "add_buckets t0 x tot = fold (\<lambda>(k, c) d. dict_set k (dict_get_or d k 0 + c) d) (bucket_items t0 x) tot" for x tot
    by (simp add: add_buckets_def bucket_items_def fold_map comp_def split_def)
  have "fold (add_buckets t0) st d =
      fold (\<lambda>(k, c) d. dict_set k (dict_get_or d k 0 + c) d) (concat (map (bucket_items t0) st)) d" for d
    by (induction st arbitrary: d) (simp_all add: add)
  then show ?thesis by (simp add: second_totals_def)
qed

lemma second_total_zero:
  assumes "\<forall>x \<in> set st. \<forall>c \<in> set (sd_buckets x). 0 \<le> c"
  shows "dict_get_or (second_totals t0 st) s 0 = 0 \<longleftrightarrow>
    (\<forall>x \<in> set st. \<forall>i < length (sd_buckets x). bucket_second t0 x i = s \<longrightarrow> sd_buckets x ! i = 0)"
proof -
  define cs where "cs = map snd (filter (\<lambda>(k, c). k = s) (concat (map (bucket_items t0) st)))"
  have mem: "c \<in> set cs \<longleftrightarrow>
      (\<exists>x \<in> set st. \<exists>i < length (sd_buckets x). bucket_second t0 x i = s \<and> sd_buckets x ! i = c)" for c
  proof -
    have a: "c \<in> set cs \<longleftrightarrow> (\<exists>x \<in> set st. (s, c) \<in> set (bucket_items t0 x))"
      unfolding cs_def by force
    have b: "(s, c) \<in> set (bucket_items t0 x) \<longleftrightarrow>
        (\<exists>i < length (sd_buckets x). bucket_second t0 x i = s \<and> sd_buckets x ! i = c)" for x
    proof -
      have "(s, c) \<in> set (bucket_items t0 x) \<longleftrightarrow>
          (\<exists>i d. (i, d) \<in> set (enum (sd_buckets x)) \<and> s = bucket_second t0 x i \<and> c = d)"
        unfolding bucket_items_def set_map image_iff by (force simp: case_prod_unfold)
      then show ?thesis unfolding set_enum by blast
    qed
    show ?thesis unfolding a b ..
  qed
  have nonneg: "\<forall>c \<in> set cs. 0 \<le> c"
  proof
    fix c assume "c \<in> set cs"
    then obtain x i where "x \<in> set st" "i < length (sd_buckets x)" "sd_buckets x ! i = c"
      unfolding mem by blast
    with assms nth_mem [of i "sd_buckets x"] show "0 \<le> c" by simp
  qed
  have "dict_get_or (second_totals t0 st) s 0 = sum_list cs"
    unfolding second_totals_fold fold_add_get cs_def by (simp add: dict_get_or_def [of "[]"])
  also have "\<dots> = 0 \<longleftrightarrow> (\<forall>c \<in> set cs. c = 0)"
    using nonneg by (intro sum_list_nonneg_eq_0_iff) auto
  finally show ?thesis by (simp only: Ball_def mem) blast
qed

text \<open>Counts parsed from a histogram line are never negative.\<close>

lemma group_class:
  assumes "(gs, t) \<in> set (re_match (RSeq [RLit l, RGroup (RPlus p)]) s)"
  shows "\<exists>w. gs = [w] \<and> (\<forall>c \<in> set w. p c)"
proof -
  define u where "u = drop (length l) s"
  obtain k where "k \<in> set (rev [1..<Suc (run_len p u)])" "gs = [take (length u - length (drop k u)) u]"
    using assms by (auto simp: u_def split: if_splits simp del: upt_Suc length_drop)
  then have g: "gs = [take k u]" and k: "k \<le> length (takeWhile p u)"
    using length_takeWhile_le [of p u] by (auto simp: run_len_def)
  have "take k u = take k (takeWhile p u)"
    using k by (metis takeWhile_eq_take take_take min.absorb1)
  then have "\<forall>c \<in> set (take k u). p c" by (metis in_set_takeD set_takeWhileD)
  with g show ?thesis by blast
qed

lemma re_search_match: "re_search r s = Some gs \<Longrightarrow> \<exists>u t. (gs, t) \<in> set (re_match r u)"
proof (induction s)
  case Nil
  then show ?case by (auto split: list.splits prod.splits) (metis list.set_intros(1))
next
  case (Cons c s)
  then show ?case by (auto split: list.splits prod.splits) (metis list.set_intros(1))
qed

lemma int_group_digits: "\<forall>c \<in> set w. is_digit c \<Longrightarrow> int_group w = Inr n \<Longrightarrow> 0 \<le> n"
proof -
  assume d: "\<forall>c \<in> set w. is_digit c" and n: "int_group w = Inr n"
  have "py_strip w = w"
  proof (cases w)
    case (Cons c r)
    have ns: "\<not> is_space x" if "x \<in> set w" for x using d that is_digit_not_space by blast
    have l: "py_lstrip w = w" using ns Cons by (simp add: py_lstrip_def)
    have "dropWhile is_space (rev w) = rev w" using ns Cons
      by (metis dropWhile_eq_self_iff hd_in_set set_rev)
    then show ?thesis by (simp add: py_strip_def l py_rstrip_def)
  qed (simp add: py_strip_def py_lstrip_def py_rstrip_def)
  then have "parse_signed w = Some n"
    using n by (simp add: int_group_def int_of_string_def split: option.splits)
  then show ?thesis using d is_digit_neq(1)
    by (cases w) (auto simp: parse_signed_def split: if_splits)
qed

lemma buckets_parsed_nonneg:
  assumes "re_search RE_BUCKETS line = Some gs" "mapR int_group (py_split (CHR '','') (gs ! 0)) = Inr b"
  shows "\<forall>c \<in> set b. 0 \<le> c"
proof
  fix c assume c: "c \<in> set b"
  obtain u t where "(gs, t) \<in> set (re_match RE_BUCKETS u)" using re_search_match [OF assms(1)] by blast
  from group_class [OF this [unfolded RE_BUCKETS_def]]
  obtain w where w: "gs = [w]" "\<forall>x \<in> set w. is_digit x \<or> x = CHR '',''" by blast
  have m: "map int_group (py_split (CHR '','') w) = map Inr b"
    using assms(2) w(1) by (simp add: mapR_Inr_iff)
  have "(Inr c :: int res) \<in> set (map Inr b)" using c by simp
  then have "Inr c \<in> int_group ` set (py_split (CHR '','') w)"
    unfolding m [symmetric] unfolding set_map .
  then obtain v where v: "v \<in> set (py_split (CHR '','') w)" "int_group v = Inr c" by force
  have sub: "set v \<subseteq> set w"
    using v(1) split_by_subset unfolding py_split_def by blast
  have "\<forall>x \<in> set v. is_digit x"
    using w(2) sub split_by_no_sep [OF v(1) [unfolded py_split_def]] by blast
  then show "0 \<le> c" using v(2) by (rule int_group_digits)
qed

definition histogram_ok :: "client_sample \<Rightarrow> bool" where
  "histogram_ok c \<longleftrightarrow> (\<forall>sd. sp_steady c = Some sd \<longrightarrow> (\<forall>b \<in> set (sd_buckets sd). 0 \<le> b))"

definition state_ok :: "client_state \<Rightarrow> bool" where
  "state_ok st \<longleftrightarrow> (\<forall>b. cs_buckets st = Some b \<longrightarrow> (\<forall>c \<in> set b. 0 \<le> c))"

lemma commit_line_buckets: "commit_line tz st line = Inr st' \<Longrightarrow> cs_buckets st' = cs_buckets st"
  by (auto simp: commit_line_def split: option.splits sum.splits if_splits)

lemma client_line_ok:
  assumes "state_ok st" "client_line tz st line = Inr st'"
  shows "state_ok st'"
proof -
  consider "cs_buckets st' = cs_buckets st"
    | gs b where "re_search RE_BUCKETS line = Some gs" "mapR int_group (py_split (CHR '','') (gs ! 0)) = Inr b"
        "cs_buckets st' = Some b"
    using assms(2) commit_line_buckets [of tz st line st']
    by (auto simp: client_line_def bindR_Inr_iff split: option.splits if_splits)
  then show ?thesis
  proof cases
    case 1
    with assms(1) show ?thesis by (simp add: state_ok_def)
  next
    case 2
    from buckets_parsed_nonneg [OF 2(1,2)] 2(3) show ?thesis by (simp add: state_ok_def)
  qed
qed

lemma read_client_log_ok: "read_client_log tz text = Inr c \<Longrightarrow> histogram_ok c"
proof -
  assume "read_client_log tz text = Inr c"
  then obtain st where st: "foldR (client_line tz) client_state0 (file_lines text) = Inr st"
    and c: "c = finish_client st"
    by (auto simp: read_client_log_def bindR_Inr_iff)
  have "state_ok st"
    using client_line_ok _ st by (rule foldR_invariant) (simp_all add: state_ok_def client_state0_def)
  then show ?thesis
    unfolding c histogram_ok_def finish_client_def state_ok_def opt_or_nil_def
    by (auto split: option.splits)
qed

text \<open>Seconds in which no client committed, from the histograms as the clients wrote them.\<close>

definition silent :: "steady list \<Rightarrow> int \<Rightarrow> bool" where
  "silent st t \<longleftrightarrow> (\<forall>x \<in> set st. \<forall>i < length (sd_buckets x).
     bucket_second (common_start st) x i = t \<longrightarrow> sd_buckets x ! i = 0)"

lemma longest_zero_commit_iff:
  assumes "\<forall>x \<in> set st. \<forall>c \<in> set (sd_buckets x). 0 \<le> c" "0 < k"
  shows "k \<le> longest_zero_commit st \<longleftrightarrow>
    (\<exists>s. window_lo st \<le> s \<and> s + int k \<le> window_hi st \<and> (\<forall>t. s \<le> t \<and> t < s + int k \<longrightarrow> silent st t))"
  using assms(2)
  unfolding longest_zero_commit_def Let_def longest_zero_run has_run_upto silent_def
    second_total_zero [OF assms(1)]
  by simp

lemma result_dict_stalled:
  "dict_get (result_dict p) ''stalled'' =
     (let st = map sp_steady (lp_client_samples p) in
      if st = [] \<or> None \<in> set st then None
      else Some (JBool (STALL_ZERO_SECONDS \<le> longest_zero_commit (map the st))))"
  by (simp add: result_dict_def steady_metrics_def steady_items_def Let_def map_add_def)

lemma process_samples_ok:
  assumes "process tz d b cts rts meta = Inr p"
  shows "\<forall>c \<in> set (lp_client_samples p). histogram_ok c"
proof -
  have m: "mapR (read_client_log tz) cts = Inr (lp_client_samples p)"
    using assms by (auto simp: process_def bindR_Inr_iff Let_def split: if_splits)
  show ?thesis
  proof
    fix c assume "c \<in> set (lp_client_samples p)"
    then have "(Inr c :: client_sample res) \<in> set (map Inr (lp_client_samples p))" by simp
    then have "(Inr c :: client_sample res) \<in> read_client_log tz ` set cts"
      unfolding m [unfolded mapR_Inr_iff, symmetric] set_map .
    then show "histogram_ok c" using read_client_log_ok by (metis imageE)
  qed
qed

text \<open>C34. A run is reported as stalled exactly when, inside the window that every client's steady phase
  covers, there are \<open>STALL_ZERO_SECONDS\<close> consecutive whole seconds in which no bucket of any client's
  histogram counts a commit; without a steady line from every client no verdict is given.\<close>

theorem stalled_iff:
  assumes "process tz d b client_texts replica_texts meta = Inr p"
  shows "dict_get (result_dict p) ''stalled'' =
    (let st = map sp_steady (lp_client_samples p) in
     if st = [] \<or> None \<in> set st then None
     else Some (JBool (\<exists>s. window_lo (map the st) \<le> s \<and> s + int STALL_ZERO_SECONDS \<le> window_hi (map the st)
       \<and> (\<forall>t. s \<le> t \<and> t < s + int STALL_ZERO_SECONDS \<longrightarrow> silent (map the st) t))))"
proof -
  have "\<forall>x \<in> set (map the (map sp_steady (lp_client_samples p))). \<forall>c \<in> set (sd_buckets x). 0 \<le> c"
    if "None \<notin> set (map sp_steady (lp_client_samples p))"
  proof
    fix x assume "x \<in> set (map the (map sp_steady (lp_client_samples p)))"
    then obtain c where c: "c \<in> set (lp_client_samples p)" "x = the (sp_steady c)" by auto
    then have "sp_steady c = Some x" using that by (cases "sp_steady c") force+
    with c(1) process_samples_ok [OF assms] show "\<forall>b \<in> set (sd_buckets x). 0 \<le> b"
      by (auto simp: histogram_ok_def)
  qed
  then show ?thesis
    unfolding result_dict_stalled
    using longest_zero_commit_iff [where k = STALL_ZERO_SECONDS] by (auto simp: Let_def STALL_ZERO_SECONDS_def)
qed

definition sample_steady_log :: string where
  "sample_steady_log = ''[hotstuff steady] start=100 run=12 warmup=1 cooldown=1 span=10 n=7 mean=0.5 p50=0.4 p95=0.9 p99=0.9 max=1 first_commit=1.5 last_commit=11.5'' @ [CHR 0x0A]
     @ ''[hotstuff buckets] counts=0,2,1,0,0,0,0,0,0,3,1,0'' @ [CHR 0x0A]"

lemma stalled_iff_witness:
  "\<exists>p. process (\<lambda>_. 0) ''run'' True [sample_steady_log] [] (JObj []) = Inr p
    \<and> dict_get (result_dict p) ''stalled'' = Some (JBool True)
    \<and> (\<exists>s. silent (map the (map sp_steady (lp_client_samples p))) s
         \<and> silent (map the (map sp_steady (lp_client_samples p))) (s + 4))"
proof -
  have "case process (\<lambda>_. 0) ''run'' True [sample_steady_log] [] (JObj []) of Inl e \<Rightarrow> False
      | Inr p \<Rightarrow> dict_get (result_dict p) ''stalled'' = Some (JBool True)"
    by code_simp
  then obtain p where p: "process (\<lambda>_. 0) ''run'' True [sample_steady_log] [] (JObj []) = Inr p"
    and s: "dict_get (result_dict p) ''stalled'' = Some (JBool True)"
    by (auto split: sum.splits)
  from stalled_iff [OF p] s obtain i where
    "\<forall>t. i \<le> t \<and> t < i + int STALL_ZERO_SECONDS \<longrightarrow> silent (map the (map sp_steady (lp_client_samples p))) t"
    by (auto simp: Let_def split: if_splits)
  from this [rule_format, of i] this [rule_format, of "i + 4"] p s show ?thesis
    by (auto simp: STALL_ZERO_SECONDS_def)
qed

subsection \<open>Consistency of the metrics\<close>

lemma result_dict_get:
  "dict_get (result_dict p) ''latency_ms_p50'' = Some (fl (py_round (tt_p50 (run_totals (lp_client_samples p)) * 1000) 3))"
  "dict_get (result_dict p) ''latency_ms_p95'' = Some (fl (py_round (tt_p95 (run_totals (lp_client_samples p)) * 1000) 3))"
  "dict_get (result_dict p) ''latency_ms_p99'' = Some (fl (py_round (tt_p99 (run_totals (lp_client_samples p)) * 1000) 3))"
  "dict_get (result_dict p) ''n_committed'' = Some (JInt (tt_n_committed (run_totals (lp_client_samples p))))"
  "dict_get (result_dict p) ''raw_dump_truncated'' = Some (JBool (tt_truncated (run_totals (lp_client_samples p))))"
  "dict_get (result_dict p) ''n_records_dumped'' = Some (JInt (int (length (fst (aggregate (lp_client_samples p))))))"
  by (simp_all add: result_dict_def steady_metrics_def steady_items_def Let_def map_add_def)

lemma result_dict_keys:
  "distinct (dict_keys (result_dict p))"
  "''run_id'' \<notin> set (dict_keys (result_dict p))" "''status'' \<notin> set (dict_keys (result_dict p))"
  by (simp_all add: result_dict_def steady_metrics_def steady_items_def Let_def)

lemma length_present: "length (present xs) = length xs \<Longrightarrow> None \<notin> set xs"
proof (induction xs)
  case (Cons x xs)
  have "length (present xs) \<le> length xs" by (induction xs) (auto simp: present_def split: option.splits)
  with Cons show ?case by (auto simp: present_def split: option.splits)
qed simp

text \<open>The latency percentiles of the result are ordered, p50 <= p95 <= p99, whenever they are derived
  from the per-command records: always with several clients, and with one client that printed no
  summary.\<close>

theorem percentiles_ordered:
  assumes "length (present (map sp_summary (lp_client_samples p))) \<noteq> 1 \<or> length (lp_client_samples p) \<noteq> 1"
  shows "\<exists>a b c. dict_get (result_dict p) ''latency_ms_p50'' = Some (fl a)
    \<and> dict_get (result_dict p) ''latency_ms_p95'' = Some (fl b)
    \<and> dict_get (result_dict p) ''latency_ms_p99'' = Some (fl c) \<and> a \<le> b \<and> b \<le> c"
proof -
  define cs where "cs = lp_client_samples p"
  define lat where "lat = snd (aggregate cs)"
  have "sorted lat" by (simp add: lat_def aggregate_def)
  then have le: "percentile lat 50 \<le> percentile lat 95" "percentile lat 95 \<le> percentile lat 99"
    by (auto intro: percentile_mono)
  have "tt_p50 (run_totals cs) = percentile lat 50 \<and> tt_p95 (run_totals cs) = percentile lat 95
      \<and> tt_p99 (run_totals cs) = percentile lat 99"
    using assms unfolding cs_def [symmetric]
    by (auto simp: run_totals_def raw_totals_def summary_totals_def lat_def Let_def split_beta)
  moreover have "py_round (percentile lat 50 * 1000) 3 \<le> py_round (percentile lat 95 * 1000) 3"
    "py_round (percentile lat 95 * 1000) 3 \<le> py_round (percentile lat 99 * 1000) 3"
    using le by (auto intro!: py_round_mono)
  ultimately show ?thesis
    unfolding result_dict_get cs_def [symmetric] by metis
qed

definition two_clients :: log_parser where
  "two_clients = \<lparr>lp_client_samples =
     [\<lparr>sp_timestamps = [1, 2], sp_latencies = [1 / 10, 3 / 10], sp_summary = None, sp_steady = None\<rparr>,
      \<lparr>sp_timestamps = [3 / 2], sp_latencies = [1 / 5], sp_summary = None, sp_steady = None\<rparr>],
     lp_replica_booted = 4, lp_meta = []\<rparr>"

lemma percentiles_ordered_witness:
  "\<exists>a b c. dict_get (result_dict two_clients) ''latency_ms_p50'' = Some (fl a)
    \<and> dict_get (result_dict two_clients) ''latency_ms_p95'' = Some (fl b)
    \<and> dict_get (result_dict two_clients) ''latency_ms_p99'' = Some (fl c) \<and> a \<le> b \<and> b \<le> c"
  by (rule percentiles_ordered) (simp add: two_clients_def)


definition one_client :: log_parser where
  "one_client = \<lparr>lp_client_samples =
     [\<lparr>sp_timestamps = [1, 2], sp_latencies = [1 / 10, 3 / 10],
       sp_summary = Some \<lparr>sm_n = 5, sm_window = 4, sm_mean = 1 / 5, sm_p50 = 1 / 5, sm_p95 = 1 / 4, sm_p99 = 1 / 3, sm_max = 1\<rparr>,
       sp_steady = None\<rparr>], lp_replica_booted = 4, lp_meta = []\<rparr>"

end
