(* ===== verification/Csv_Text.thy ===== *)
theory Csv_Text
  imports PyStr
begin

section \<open>CSV text (the csv module, as the harness uses it)\<close>

text \<open>
  \<open>csv.writer\<close> in the excel dialect, newline translation of text files, \<open>csv.reader\<close> as the
  state machine of the module, and \<open>DictReader\<close>/\<open>DictWriter\<close> rows. The main lemma is the
  round trip: what the writer appends, the reader gives back, as long as no cell holds a
  carriage return (reading translates newlines, writing does not).
\<close>

definition DQ :: char where
  "DQ = CHR 0x22"

subsection \<open>Writing\<close>

definition needs_quotes :: "string \<Rightarrow> bool" where
  "needs_quotes f \<longleftrightarrow> (\<exists>c \<in> set f. c = CHR '','' \<or> c = DQ \<or> c = CR \<or> c = LF)"

definition double_quotes :: "string \<Rightarrow> string" where
  "double_quotes f = concat (map (\<lambda>c. if c = DQ then [DQ, DQ] else [c]) f)"

definition csv_field :: "string \<Rightarrow> string" where
  "csv_field f = (if needs_quotes f then DQ # double_quotes f @ [DQ] else f)"

text \<open>A record of one empty field is written with quotes.\<close>

definition csv_line :: "string list \<Rightarrow> string" where
  "csv_line fs = (if fs = [[]] then [DQ, DQ] else py_join '','' (map csv_field fs)) @ [CR, LF]"

definition csv_print :: "string list list \<Rightarrow> string" where
  "csv_print rs = concat (map csv_line rs)"

subsection \<open>Reading\<close>

lemma translate_Cons: "c \<noteq> CR \<Longrightarrow> translate_newlines (c # cs) = c # translate_newlines cs"
  by (cases cs) auto

datatype csv_state = StartRecord | StartField | InField | InQuoted | QuoteInQuoted

text \<open>The current field and the fields before it are kept in reverse.\<close>

fun csv_go :: "csv_state \<Rightarrow> string \<Rightarrow> string list \<Rightarrow> string \<Rightarrow> string list list" where
  "csv_go StartRecord f fs [] = []"
| "csv_go st f fs [] = [rev (rev f # fs)]"
| "csv_go InQuoted f fs (c # cs) =
     (if c = DQ then csv_go QuoteInQuoted f fs cs else csv_go InQuoted (c # f) fs cs)"
| "csv_go InField f fs (c # cs) =
     (if c = LF then rev (rev f # fs) # csv_go StartRecord [] [] cs
      else if c = CHR '','' then csv_go StartField [] (rev f # fs) cs
      else csv_go InField (c # f) fs cs)"
| "csv_go QuoteInQuoted f fs (c # cs) =
     (if c = DQ then csv_go InQuoted (DQ # f) fs cs
      else if c = LF then rev (rev f # fs) # csv_go StartRecord [] [] cs
      else if c = CHR '','' then csv_go StartField [] (rev f # fs) cs
      else csv_go InField (c # f) fs cs)"
| "csv_go StartField f fs (c # cs) =
     (if c = LF then rev ([] # fs) # csv_go StartRecord [] [] cs
      else if c = DQ then csv_go InQuoted [] fs cs
      else if c = CHR '','' then csv_go StartField [] ([] # fs) cs
      else csv_go InField [c] fs cs)"
| "csv_go StartRecord f fs (c # cs) =
     (if c = LF then [] # csv_go StartRecord [] [] cs
      else if c = DQ then csv_go InQuoted [] [] cs
      else if c = CHR '','' then csv_go StartField [] [[]] cs
      else csv_go InField [c] [] cs)"

definition csv_parse :: "string \<Rightarrow> string list list" where
  "csv_parse text = csv_go StartRecord [] [] (translate_newlines text)"

subsection \<open>The round trip\<close>

lemmas char_defs = LF_def CR_def DQ_def

definition no_cr :: "string list \<Rightarrow> bool" where
  "no_cr fs \<longleftrightarrow> (\<forall>f \<in> set fs. CR \<notin> set f)"

lemma translate_append: "CR \<notin> set s \<Longrightarrow> translate_newlines (s @ t) = s @ translate_newlines t"
  by (induction s) (auto simp: translate_Cons)

lemma translate_crlf: "translate_newlines (CR # LF # cs) = LF # translate_newlines cs"
  by simp

lemma cr_field: "CR \<notin> set f \<Longrightarrow> CR \<notin> set (csv_field f)"
  by (auto simp: csv_field_def double_quotes_def char_defs)

lemma cr_join: "(\<And>f. f \<in> set fs \<Longrightarrow> CR \<notin> set f) \<Longrightarrow> CR \<notin> set (py_join '','' fs)"
  by (induction "'',''" fs rule: py_join.induct) (auto simp: char_defs)

definition csv_body :: "string list \<Rightarrow> string" where
  "csv_body fs = (if fs = [[]] then [DQ, DQ] else py_join '','' (map csv_field fs))"

lemma translate_line: "no_cr fs \<Longrightarrow> translate_newlines (csv_line fs @ t) = csv_body fs @ LF # translate_newlines t"
proof -
  assume n: "no_cr fs"
  have "CR \<notin> set (csv_body fs)"
    using n cr_field cr_join [of "map csv_field fs"] unfolding csv_body_def no_cr_def
    by (auto simp: char_defs)
  then show ?thesis
    using translate_append [of "csv_body fs" "CR # LF # t"] by (simp add: csv_line_def csv_body_def)
qed

lemma go_unquoted:
  "\<not> needs_quotes f \<Longrightarrow> csv_go InField g fs (f @ cs) = csv_go InField (rev f @ g) fs cs"
  by (induction f arbitrary: g) (auto simp: needs_quotes_def)

lemma go_quoted: "csv_go InQuoted g fs (double_quotes f @ cs) = csv_go InQuoted (rev f @ g) fs cs"
  by (induction f arbitrary: g) (simp_all add: double_quotes_def)

lemma neq_chars [simp]:
  "DQ \<noteq> LF" "LF \<noteq> DQ" "DQ \<noteq> CHR '',''" "CHR '','' \<noteq> DQ" "LF \<noteq> CHR '',''" "CHR '','' \<noteq> LF"
  by (simp_all add: char_defs)

text \<open>After a written field comes a comma or the end of the record.\<close>

lemma go_field_comma: "csv_go StartField [] fs (csv_field f @ CHR '','' # cs) = csv_go StartField [] (f # fs) cs"
proof (cases "needs_quotes f")
  case True
  then show ?thesis by (simp add: csv_field_def go_quoted)
next
  case False
  then show ?thesis
    using go_unquoted [of "tl f" "[hd f]" fs "CHR '','' # cs"]
    by (cases f) (auto simp: csv_field_def needs_quotes_def)
qed

lemma go_field_end:
  "csv_go StartField [] fs (csv_field f @ LF # cs) = rev (f # fs) # csv_go StartRecord [] [] cs"
proof (cases "needs_quotes f")
  case True
  then show ?thesis by (simp add: csv_field_def go_quoted)
next
  case False
  then show ?thesis
    using go_unquoted [of "tl f" "[hd f]" fs "LF # cs"]
    by (cases f) (auto simp: csv_field_def needs_quotes_def)
qed

lemma go_fields:
  "rs \<noteq> [] \<Longrightarrow> csv_go StartField [] fs (py_join '','' (map csv_field rs) @ LF # cs) =
     (rev fs @ rs) # csv_go StartRecord [] [] cs"
proof (induction rs arbitrary: fs)
  case (Cons r rs)
  show ?case
  proof (cases rs)
    case Nil
    then show ?thesis by (simp add: go_field_end)
  next
    case (Cons r' rs')
    then show ?thesis using Cons.IH [of "r # fs"] by (simp add: go_field_comma)
  qed
qed simp

lemma start_record_field:
  "s \<noteq> [] \<Longrightarrow> hd s \<noteq> LF \<Longrightarrow> csv_go StartRecord [] [] s = csv_go StartField [] [] s"
  by (cases s) auto

lemma hd_body:
  assumes "rs \<noteq> []" "rs \<noteq> [[]]"
  shows "py_join '','' (map csv_field rs) \<noteq> [] \<and> hd (py_join '','' (map csv_field rs)) \<noteq> LF"
proof -
  obtain r rs' where r: "rs = r # rs'" using assms(1) by (cases rs) auto
  have h: "csv_field r \<noteq> [] \<Longrightarrow> hd (csv_field r) \<noteq> LF"
    by (cases r) (auto simp: csv_field_def needs_quotes_def)
  have e: "csv_field r = [] \<Longrightarrow> r = []"
    by (simp add: csv_field_def split: if_splits)
  show ?thesis
  proof (cases rs')
    case Nil
    with r assms(2) e h show ?thesis by auto
  next
    case (Cons a as)
    with r h show ?thesis by (cases "csv_field r") auto
  qed
qed

lemma go_record:
  assumes "rs \<noteq> []"
  shows "csv_go StartRecord [] [] (csv_body rs @ LF # cs) = rs # csv_go StartRecord [] [] cs"
proof (cases "rs = [[]]")
  case True
  then show ?thesis by (simp add: csv_body_def)
next
  case False
  have "csv_go StartRecord [] [] (csv_body rs @ LF # cs) = csv_go StartField [] [] (csv_body rs @ LF # cs)"
    using hd_body [OF assms False] False by (intro start_record_field) (simp_all add: csv_body_def)
  also have "\<dots> = rs # csv_go StartRecord [] [] cs"
    using go_fields [OF assms, of "[]" cs] False by (simp add: csv_body_def)
  finally show ?thesis .
qed

lemma csv_roundtrip:
  "(\<And>r. r \<in> set rs \<Longrightarrow> r \<noteq> [] \<and> no_cr r) \<Longrightarrow> csv_parse (csv_print rs) = rs"
proof (induction rs)
  case Nil
  show ?case by (simp add: csv_parse_def csv_print_def)
next
  case (Cons r rs)
  then have "csv_go StartRecord [] [] (translate_newlines (csv_print rs)) = rs"
    by (simp add: csv_parse_def)
  with Cons.prems [of r] show ?case
    by (simp add: csv_parse_def csv_print_def translate_line go_record)
qed

text \<open>
  What a table file promises its users: records written after one another are read back in
  order. The client's lemma: appending the text of a record appends the record.
\<close>

locale table_file =
  fixes print :: "'r list \<Rightarrow> string" and parse :: "string \<Rightarrow> 'r list" and ok :: "'r \<Rightarrow> bool"
  assumes parse_print: "(\<And>r. r \<in> set rs \<Longrightarrow> ok r) \<Longrightarrow> parse (print rs) = rs"
    and print_append: "print (rs @ ss) = print rs @ print ss"
begin

lemma parse_append:
  assumes "\<And>r. r \<in> set rs \<Longrightarrow> ok r" "ok r" "text = print rs"
  shows "parse (text @ print [r]) = parse text @ [r]"
proof -
  have "parse (print (rs @ [r])) = rs @ [r]" using assms by (intro parse_print) auto
  moreover have "parse (print rs) = rs" using assms(1) by (rule parse_print)
  ultimately show ?thesis by (simp add: assms(3) print_append)
qed

lemma print_inject:
  "(\<And>r. r \<in> set rs \<Longrightarrow> ok r) \<Longrightarrow> (\<And>r. r \<in> set ss \<Longrightarrow> ok r) \<Longrightarrow> print rs = print ss \<Longrightarrow> rs = ss"
  by (metis parse_print)

end

definition record_ok :: "string list \<Rightarrow> bool" where
  "record_ok r \<longleftrightarrow> r \<noteq> [] \<and> no_cr r"

interpretation csvf: table_file csv_print csv_parse record_ok
proof unfold_locales
  fix rs assume "\<And>r. r \<in> set rs \<Longrightarrow> record_ok r"
  then show "csv_parse (csv_print rs) = rs" by (intro csv_roundtrip) (auto simp: record_ok_def)
qed (simp add: csv_print_def)

subsection \<open>Rows as dictionaries\<close>

text \<open>
  A row of \<open>csv.DictReader\<close>: its cells in the order of the header, \<open>JNull\<close> for a missing cell
  (\<open>restval=None\<close>), and the surplus cells that go under the key \<open>None\<close>.
\<close>

record row =
  cells :: "(string, jval) dict"
  surplus :: "string list"

definition dict_row :: "string list \<Rightarrow> string list \<Rightarrow> row" where
  "dict_row fieldnames rec =
     \<lparr>cells = dict_update (map (\<lambda>k. (k, JNull)) (drop (length rec) fieldnames))
        (dict_update (map (\<lambda>(k, v). (k, JStr v)) (zip fieldnames rec)) []),
      surplus = drop (length fieldnames) rec\<rparr>"

text \<open>The header and the rows; blank records are skipped.\<close>

definition dict_reader :: "string \<Rightarrow> string list \<times> row list" where
  "dict_reader text =
     (case csv_parse text of
        [] \<Rightarrow> ([], [])
      | fieldnames # recs \<Rightarrow> (fieldnames, map (dict_row fieldnames) (filter (\<lambda>r. r \<noteq> []) recs)))"

text \<open>\<open>DictWriter.writerow\<close>: a key that is not a field name raises.\<close>

definition row_record :: "string list \<Rightarrow> row \<Rightarrow> string list res" where
  "row_record fieldnames r =
     (if surplus r \<noteq> [] \<or> \<not> set (dict_keys (cells r)) \<subseteq> set fieldnames
      then Inl (ValueError ''dict contains fields not in fieldnames'')
      else Inr (map (\<lambda>k. csv_cell (dict_get_or (cells r) k (JStr []))) fieldnames))"

definition row_get :: "row \<Rightarrow> string \<Rightarrow> jval" where
  "row_get r k = dict_get_or (cells r) k JNull"

definition row_set :: "string \<Rightarrow> jval \<Rightarrow> row \<Rightarrow> row" where
  "row_set k v r = r\<lparr>cells := dict_set k v (cells r)\<rparr>"

lemma row_get_set [simp]: "row_get (row_set k v r) k' = (if k' = k then v else row_get r k')"
  by (simp add: row_get_def row_set_def dict_get_or_def)

lemma row_set_surplus [simp]: "surplus (row_set k v r) = surplus r"
  by (simp add: row_set_def)

lemma row_set_keys [simp]:
  "set (dict_keys (cells (row_set k v r))) = insert k (set (dict_keys (cells r)))"
  by (auto simp: row_set_def update_keys)

text \<open>Reading a complete record gives the cell of every column.\<close>

lemma dict_row_get:
  assumes "length rec = length fieldnames" "distinct fieldnames" "i < length fieldnames"
  shows "dict_get (cells (dict_row fieldnames rec)) (fieldnames ! i) = Some (JStr (rec ! i))"
proof -
  define kvs where "kvs = map (\<lambda>(k, v). (k, JStr v)) (zip fieldnames rec)"
  have fst: "map fst kvs = fieldnames" using assms(1) by (simp add: kvs_def comp_def case_prod_unfold)
  have "(fieldnames ! i, JStr (rec ! i)) \<in> set kvs"
    using assms by (force simp: kvs_def set_zip)
  moreover have "distinct (map fst (rev kvs))" using assms(2) fst by (simp add: rev_map [symmetric])
  ultimately have "map_of (rev kvs) (fieldnames ! i) = Some (JStr (rec ! i))"
    by (simp add: map_of_eq_Some_iff)
  then show ?thesis using assms(1) by (simp add: dict_row_def dict_get_update kvs_def)
qed

lemma dict_row_keys:
  assumes "length rec = length fieldnames"
  shows "set (dict_keys (cells (dict_row fieldnames rec))) = set fieldnames" "surplus (dict_row fieldnames rec) = []"
proof -
  have "map fst (map (\<lambda>(k, v). (k, JStr v)) (zip fieldnames rec)) = fieldnames"
    using assms by (simp add: comp_def case_prod_unfold)
  then have "fst ` set (map (\<lambda>(k, v). (k, JStr v)) (zip fieldnames rec)) = set fieldnames"
    by (metis set_map)
  then show "set (dict_keys (cells (dict_row fieldnames rec))) = set fieldnames" "surplus (dict_row fieldnames rec) = []"
    using assms dict_keys_update_set [of "map (\<lambda>(k, v). (k, JStr v)) (zip fieldnames rec)" "[]"]
    unfolding dict_row_def by simp_all
qed

lemma dict_row_get_None:
  assumes "length rec = length fieldnames" "k \<notin> set fieldnames"
  shows "dict_get (cells (dict_row fieldnames rec)) k = None"
  using dict_row_keys(1) [OF assms(1)] assms(2) by (metis dict_get_in_keys)

end
