(* ===== verification/Fs.thy ===== *)
theory Fs
  imports Effects Csv_Text
begin

section \<open>Files\<close>

text \<open>
  The file system the harness works on: directories, text files and JSON documents by path (a
  path is the list of its components below the working directory). Every operation that can
  fail takes the next entry of a fault script; an operation without an entry succeeds. A write
  that fails half way leaves a prefix of the text, or, of a JSON document, text that is not one.
  A text is the content after the writer's newline handling; reading it translates newlines.
\<close>

type_synonym path = "string list"

datatype node = Dir | Text string | Json jval

datatype fault = NoFault | FailOpen | FailWrite nat

record fs =
  fs_files :: "(path, node) dict"
  fs_faults :: "fault list"

definition node_at :: "path \<Rightarrow> 'z fs_scheme \<Rightarrow> node option" where
  "node_at p s = dict_get (fs_files s) p"

definition put_node :: "path \<Rightarrow> node \<Rightarrow> 'z fs_scheme \<Rightarrow> 'z fs_scheme" where
  "put_node p n s = s\<lparr>fs_files := dict_set p n (fs_files s)\<rparr>"

definition drop_node :: "path \<Rightarrow> 'z fs_scheme \<Rightarrow> 'z fs_scheme" where
  "drop_node p s = s\<lparr>fs_files := AList.delete p (fs_files s)\<rparr>"

text \<open>\<open>os.path.exists\<close> and \<open>os.path.isdir\<close>; the working directory is the empty path.\<close>

definition path_exists :: "path \<Rightarrow> 'z fs_scheme \<Rightarrow> bool" where
  "path_exists p s \<longleftrightarrow> p = [] \<or> node_at p s \<noteq> None"

definition path_isdir :: "path \<Rightarrow> 'z fs_scheme \<Rightarrow> bool" where
  "path_isdir p s \<longleftrightarrow> p = [] \<or> node_at p s = Some Dir"

definition next_fault :: "('z fs_scheme, fault) M" where
  "next_fault = (\<lambda>s. case fs_faults s of [] \<Rightarrow> (Inr NoFault, s) | f # r \<Rightarrow> (Inr f, s\<lparr>fs_faults := r\<rparr>))"

definition no_space :: exn where
  "no_space = OSError ''[Errno 28] No space left on device''"

definition io_error :: exn where
  "io_error = OSError ''[Errno 5] Input/output error''"

definition torn :: "nat \<Rightarrow> node \<Rightarrow> node" where
  "torn k n = (case n of Text s \<Rightarrow> Text (take k s) | _ \<Rightarrow> Text [])"

text \<open>\<open>open(p, 'w')\<close>, one write, close.\<close>

definition write_node :: "path \<Rightarrow> node \<Rightarrow> ('z fs_scheme, unit) M" where
  "write_node p n =
     bindM next_fault (\<lambda>f s.
       if f = FailOpen then (Inl io_error, s)
       else if path_isdir p s \<or> \<not> path_isdir (butlast p) s then (Inl (FileNotFoundError (concat p)), s)
       else case f of FailWrite k \<Rightarrow> (Inl no_space, put_node p (torn k n) s) | _ \<Rightarrow> (Inr (), put_node p n s))"

text \<open>\<open>open(p, 'a')\<close>: the text is added to what is there.\<close>

definition append_text :: "path \<Rightarrow> string \<Rightarrow> ('z fs_scheme, unit) M" where
  "append_text p t =
     bindM next_fault (\<lambda>f s.
       if f = FailOpen then (Inl io_error, s)
       else if path_isdir p s \<or> \<not> path_isdir (butlast p) s then (Inl (FileNotFoundError (concat p)), s)
       else
         let old = (case node_at p s of Some (Text u) \<Rightarrow> u | _ \<Rightarrow> [])
         in case f of FailWrite k \<Rightarrow> (Inl no_space, put_node p (Text (old @ take k t)) s)
            | _ \<Rightarrow> (Inr (), put_node p (Text (old @ t)) s))"

definition read_node :: "path \<Rightarrow> ('z fs_scheme, node) M" where
  "read_node p =
     bindM next_fault (\<lambda>f s.
       if f \<noteq> NoFault then (Inl io_error, s)
       else case node_at p s of
         None \<Rightarrow> (Inl (FileNotFoundError (concat p)), s)
       | Some Dir \<Rightarrow> (Inl (OSError ''[Errno 21] Is a directory''), s)
       | Some n \<Rightarrow> (Inr n, s))"

text \<open>The text of a JSON document, as \<open>json.dumps\<close> prints it.\<close>

definition json_char :: "char \<Rightarrow> string" where
  "json_char c =
     (let n = of_char c :: nat in
      if c = DQ \<or> c = CHR 0x5C then [CHR 0x5C, c]
      else if n = 10 then [CHR 0x5C, CHR ''n'']
      else if n = 13 then [CHR 0x5C, CHR ''r'']
      else if n = 9 then [CHR 0x5C, CHR ''t'']
      else if n = 8 then [CHR 0x5C, CHR ''b'']
      else if n = 12 then [CHR 0x5C, CHR ''f'']
      else if n < 32 \<or> 127 \<le> n
        then [CHR 0x5C, CHR ''u'', CHR ''0'', CHR ''0'', hex_digit (n div 16), hex_digit (n mod 16)]
      else [c])"

definition json_string :: "string \<Rightarrow> string" where
  "json_string s = DQ # concat (map json_char s) @ [DQ]"

fun json_text :: "jval \<Rightarrow> string"
  and json_items :: "jval list \<Rightarrow> string list"
  and json_members :: "(string \<times> jval) list \<Rightarrow> string list" where
  "json_text JNull = ''null''"
| "json_text (JBool b) = (if b then ''true'' else ''false'')"
| "json_text (JInt i) = show_int i"
| "json_text (JFloat x) = (case x of Fin r \<Rightarrow> show_float x | PInf \<Rightarrow> ''Infinity'' | NInf \<Rightarrow> ''-Infinity'' | NaN \<Rightarrow> ''NaN'')"
| "json_text (JStr s) = json_string s"
| "json_text (JList vs) = ''['' @ py_join '', '' (json_items vs) @ '']''"
| "json_text (JObj ms) = ''{'' @ py_join '', '' (json_members ms) @ ''}''"
| "json_items [] = []"
| "json_items (v # vs) = json_text v # json_items vs"
| "json_members [] = []"
| "json_members ((k, v) # ms) = (json_string k @ '': '' @ json_text v) # json_members ms"

text \<open>Reading as text and as JSON.\<close>

definition read_text :: "path \<Rightarrow> ('z fs_scheme, string) M" where
  "read_text p =
     bindM (read_node p) (\<lambda>n. retM (translate_newlines (case n of Text t \<Rightarrow> t | Json v \<Rightarrow> json_text v | Dir \<Rightarrow> [])))"

definition load_json :: "path \<Rightarrow> ('z fs_scheme, jval) M" where
  "load_json p =
     bindM (read_node p) (\<lambda>n. case n of Json v \<Rightarrow> retM v | _ \<Rightarrow> raiseM (JSONDecodeError ''Expecting value''))"

definition remove_file :: "path \<Rightarrow> ('z fs_scheme, unit) M" where
  "remove_file p =
     bindM next_fault (\<lambda>f s.
       if f \<noteq> NoFault then (Inl io_error, s)
       else case node_at p s of
         None \<Rightarrow> (Inl (FileNotFoundError (concat p)), s)
       | Some Dir \<Rightarrow> (Inl (OSError ''[Errno 21] Is a directory''), s)
       | Some _ \<Rightarrow> (Inr (), drop_node p s))"

text \<open>\<open>os.replace\<close>: atomic.\<close>

definition replace_file :: "path \<Rightarrow> path \<Rightarrow> ('z fs_scheme, unit) M" where
  "replace_file src dst =
     bindM next_fault (\<lambda>f s.
       if f \<noteq> NoFault then (Inl io_error, s)
       else case node_at src s of
         None \<Rightarrow> (Inl (FileNotFoundError (concat src)), s)
       | Some n \<Rightarrow> (if path_isdir dst s then (Inl (OSError ''[Errno 21] Is a directory''), s)
                   else (Inr (), put_node dst n (drop_node src s))))"

text \<open>The names in a directory, in no particular order; \<open>sorted(os.listdir(d))\<close>.\<close>

definition names_in :: "path \<Rightarrow> 'z fs_scheme \<Rightarrow> string list" where
  "names_in d s = remdups (map last (filter (\<lambda>p. p \<noteq> [] \<and> butlast p = d) (dict_keys (fs_files s))))"

definition sorted_listdir :: "path \<Rightarrow> ('z fs_scheme, string list) M" where
  "sorted_listdir d = getM (\<lambda>s. sort (names_in d s))"

definition ends_with :: "string \<Rightarrow> string \<Rightarrow> bool" where
  "ends_with suffix s \<longleftrightarrow> starts_with (rev suffix) (rev s)"

text \<open>\<open>glob(join(d, prefix*suffix))\<close>, sorted.\<close>

definition glob_names :: "path \<Rightarrow> string \<Rightarrow> string \<Rightarrow> 'z fs_scheme \<Rightarrow> string list" where
  "glob_names d prefix suffix s =
     sort (filter (\<lambda>n. starts_with prefix n \<and> ends_with suffix n \<and> length prefix + length suffix \<le> length n)
       (names_in d s))"

definition below :: "path \<Rightarrow> path \<Rightarrow> bool" where
  "below d p \<longleftrightarrow> length d \<le> length p \<and> take (length d) p = d"

text \<open>\<open>os.makedirs(d, exist_ok=True)\<close>: every missing ancestor is created.\<close>

fun prefixes_from :: "path \<Rightarrow> path \<Rightarrow> path list" where
  "prefixes_from done [] = []"
| "prefixes_from done (c # cs) = (done @ [c]) # prefixes_from (done @ [c]) cs"

definition make_dir :: "path \<Rightarrow> ('z fs_scheme, unit) M" where
  "make_dir d =
     bindM next_fault (\<lambda>f s.
       if f \<noteq> NoFault then (Inl no_space, s)
       else case node_at d s of
         None \<Rightarrow> (Inr (), put_node d Dir s)
       | Some Dir \<Rightarrow> (Inr (), s)
       | Some _ \<Rightarrow> (Inl (OSError ''[Errno 17] File exists''), s))"

definition make_dirs :: "path \<Rightarrow> ('z fs_scheme, unit) M" where
  "make_dirs d = forM (prefixes_from [] d) make_dir"

text \<open>\<open>shutil.rmtree(d)\<close> and \<open>shutil.copytree(src, dst)\<close>, file by file.\<close>

definition drop_tree :: "path \<Rightarrow> ('z fs_scheme, unit) M" where
  "drop_tree d =
     bindM (getM (\<lambda>s. filter (below d) (dict_keys (fs_files s)))) (\<lambda>ps.
     forM ps (\<lambda>p. bindM next_fault (\<lambda>f s. if f \<noteq> NoFault then (Inl io_error, s) else (Inr (), drop_node p s))))"

definition copy_one :: "path \<Rightarrow> path \<Rightarrow> path \<times> node \<Rightarrow> ('z fs_scheme, unit) M" where
  "copy_one src dst = (\<lambda>(p, n).
     bindM next_fault (\<lambda>f s.
       let q = dst @ drop (length src) p in
       case f of FailOpen \<Rightarrow> (Inl no_space, s)
       | FailWrite k \<Rightarrow> (Inl no_space, if n = Dir then s else put_node q (torn k n) s)
       | NoFault \<Rightarrow> (Inr (), put_node q n s)))"

definition copy_tree :: "path \<Rightarrow> path \<Rightarrow> ('z fs_scheme, unit) M" where
  "copy_tree src dst =
     bindM (getM (\<lambda>s. filter (\<lambda>(p, n). below src p) (fs_files s))) (\<lambda>es.
     seqM (make_dirs dst) (forM es (copy_one src dst)))"

subsection \<open>Laws\<close>

lemma node_at_put [simp]: "node_at q (put_node p n s) = (if q = p then Some n else node_at q s)"
  by (simp add: node_at_def put_node_def)

lemma node_at_drop [simp]: "node_at q (drop_node p s) = (if q = p then None else node_at q s)"
  by (simp add: node_at_def drop_node_def delete_conv')

lemma fs_faults_put [simp]: "fs_faults (put_node p n s) = fs_faults s" "fs_faults (drop_node p s) = fs_faults s"
  by (simp_all add: put_node_def drop_node_def)

lemma node_at_faults [simp]: "node_at p (s\<lparr>fs_faults := r\<rparr>) = node_at p s"
  by (simp add: node_at_def)

lemma next_fault_none: "fs_faults s = [] \<Longrightarrow> next_fault s = (Inr NoFault, s)"
  by (simp add: next_fault_def)

text \<open>The frame of an operation: the paths outside \<open>P\<close> keep their contents.\<close>

definition only :: "(path \<Rightarrow> bool) \<Rightarrow> 'z fs_scheme \<Rightarrow> 'z fs_scheme \<Rightarrow> bool" where
  "only P s t \<longleftrightarrow> (\<forall>p. \<not> P p \<longrightarrow> node_at p t = node_at p s)"

interpretation frame: preorder_rel "only P" for P
  by unfold_locales (simp_all add: only_def)

named_theorems frame_intros \<open>which paths an operation can change\<close>

lemma frame_next_fault [frame_intros]: "keeps (only P) next_fault"
  by (auto simp: keeps_def only_def next_fault_def split: list.splits)

lemma keeps_fault_then:
  assumes "\<And>f s. only P s (snd (g f s))"
  shows "keeps (only P) (bindM next_fault g)"
proof (rule frame.keeps_bind [OF frame_next_fault])
  show "keeps (only P) (g f)" for f using assms by (simp add: keeps_def)
qed

lemma only_put: "P p \<Longrightarrow> only P s (put_node p n s)" and only_drop: "P p \<Longrightarrow> only P s (drop_node p s)"
  and only_refl: "only P s s"
  by (auto simp: only_def)

lemma only_trans: "only P s t \<Longrightarrow> only P t u \<Longrightarrow> only P s u"
  by (simp add: only_def)

lemma frame_write [frame_intros]: "P p \<Longrightarrow> keeps (only P) (write_node p n)"
  unfolding write_node_def
  by (rule keeps_fault_then) (auto simp: only_refl intro: only_put split: fault.splits)

lemma frame_append [frame_intros]: "P p \<Longrightarrow> keeps (only P) (append_text p t)"
  unfolding append_text_def
  by (rule keeps_fault_then) (auto simp: only_refl Let_def intro: only_put split: fault.splits)

lemma frame_read [frame_intros]: "keeps (only P) (read_node p)"
  unfolding read_node_def
  by (rule keeps_fault_then) (auto simp: only_refl split: option.splits node.splits)

lemma frame_load [frame_intros]: "keeps (only P) (load_json p)"
  unfolding load_json_def
  by (rule frame.keeps_bind [OF frame_read]) (auto simp: frame.keeps_ret frame.keeps_raise split: node.splits)

lemma frame_read_text [frame_intros]: "keeps (only P) (read_text p)"
  unfolding read_text_def by (rule frame.keeps_bind [OF frame_read]) (rule frame.keeps_ret)

lemma frame_remove [frame_intros]: "P p \<Longrightarrow> keeps (only P) (remove_file p)"
  unfolding remove_file_def
  by (rule keeps_fault_then) (auto simp: only_refl intro: only_drop split: option.splits node.splits)

lemma frame_replace [frame_intros]: "P p \<Longrightarrow> P q \<Longrightarrow> keeps (only P) (replace_file p q)"
  unfolding replace_file_def
  by (rule keeps_fault_then)
    (auto simp: only_refl intro: only_trans [OF only_drop only_put] split: option.splits)

lemma frame_make_dir [frame_intros]: "P d \<Longrightarrow> keeps (only P) (make_dir d)"
  unfolding make_dir_def
  by (rule keeps_fault_then) (auto simp: only_refl intro: only_put split: option.splits node.splits)

lemma frame_listdir [frame_intros]: "keeps (only P) (sorted_listdir d)"
  unfolding sorted_listdir_def by (rule frame.keeps_get)

text \<open>Every failure of a file operation is an \<open>OSError\<close>, and reading JSON may also fail to decode.\<close>

lemma raises_next_fault [raises_intros]: "raises_only E next_fault"
  by (auto simp: raises_only_def next_fault_def split: list.splits)

lemma raises_fault_then: "(\<And>f s e. fst (g f s) = Inl e \<Longrightarrow> E e) \<Longrightarrow> raises_only E (bindM next_fault g)"
  by (rule raises_bind [OF raises_next_fault]) (auto simp: raises_only_def)

lemma raises_files [raises_intros]:
  "raises_only is_OSError (write_node p n)"
  "raises_only is_OSError (append_text p t)"
  "raises_only is_OSError (read_node p)"
  "raises_only is_OSError (remove_file p)"
  "raises_only is_OSError (replace_file p q)"
  "raises_only is_OSError (make_dir d)"
  unfolding write_node_def append_text_def read_node_def remove_file_def replace_file_def make_dir_def
  by (rule raises_fault_then;
      auto simp: io_error_def no_space_def Let_def split: option.splits node.splits fault.splits if_splits)+

end
