(* ===== verification/Csv_File.thy ===== *)
theory Csv_File
  imports Fs
begin

section \<open>The results CSV (csv_writer.py, reconciler.py)\<close>

text \<open>
  Appending a row under the sidecar lock, and the reconciler that promotes rows from the
  parser's outputs. The lock itself is modelled by \<open>Csv_Race\<close>; here a run of the code is
  alone, and taking the lock creates the lock file.
\<close>

definition lock_path :: "path \<Rightarrow> path" where
  "lock_path csv_path = butlast csv_path @ [last csv_path @ ''.lock'']"

definition tmp_path :: "path \<Rightarrow> path" where
  "tmp_path p = butlast p @ [last p @ ''.tmp'']"

text \<open>\<open>with csv_lock(p): m\<close>.\<close>

definition csv_lock :: "path \<Rightarrow> ('z fs_scheme, 'a) M \<Rightarrow> ('z fs_scheme, 'a) M" where
  "csv_lock csv_path m = seqM (append_text (lock_path csv_path) []) m"

definition node_size :: "node \<Rightarrow> nat" where
  "node_size n = (case n of Text t \<Rightarrow> length t | Json v \<Rightarrow> length (json_text v) | Dir \<Rightarrow> 4096)"

text \<open>\<open>not os.path.exists(p) or os.path.getsize(p) == 0\<close>.\<close>

definition is_new_file :: "path \<Rightarrow> 'z fs_scheme \<Rightarrow> bool" where
  "is_new_file p s \<longleftrightarrow> (case node_at p s of None \<Rightarrow> True | Some n \<Rightarrow> node_size n = 0)"

text \<open>
  The rows go to one buffer that is written when the file is closed. When the row has a key
  that is not a field name, \<open>writerow\<close> raises after the header was buffered, and the header
  is still written by the close.
\<close>

definition append_row :: "path \<Rightarrow> string list \<Rightarrow> row \<Rightarrow> ('z fs_scheme, unit) M" where
  "append_row csv_path fieldnames r =
     csv_lock csv_path
       (bindM (getM (is_new_file csv_path)) (\<lambda>new_file.
        let header = (if new_file then csv_line fieldnames else []) in
        case row_record fieldnames r of
          Inl e \<Rightarrow> seqM (append_text csv_path header) (raiseM e)
        | Inr rec \<Rightarrow> append_text csv_path (header @ csv_line rec)))"

subsection \<open>Reconciling\<close>

definition METRICS_FILE :: string where
  "METRICS_FILE = ''metrics.json''"

definition ERROR_MARKER :: string where
  "ERROR_MARKER = ''PARSE_ERROR''"

text \<open>\<open>rows_by_id\<close>: the position of the last row with a run id.\<close>

fun str_of :: "jval \<Rightarrow> string" where
  "str_of (JStr s) = s"
| "str_of _ = []"

definition rows_by_id :: "row list \<Rightarrow> (string, nat) dict" where
  "rows_by_id rows =
     dict_update (map (\<lambda>(i, r). (str_of (row_get r ''run_id''), i))
       (filter (\<lambda>(i, r). str_of (row_get r ''run_id'') \<noteq> []) (enum rows))) []"

definition fold_metrics :: "string list \<Rightarrow> (string, jval) dict \<Rightarrow> row \<Rightarrow> row" where
  "fold_metrics fieldnames metrics r =
     row_set ''status'' (JStr ''OK'')
       (fold (\<lambda>(k, v) r. if k \<in> set fieldnames then row_set k v r else r) metrics r)"

definition status_of :: "row \<Rightarrow> string" where
  "status_of r = str_of (row_get r ''status'')"

definition first_error_line :: "string \<Rightarrow> string res" where
  "first_error_line text =
     (case py_splitlines (py_strip text) of
        [] \<Rightarrow> Inl (IndexError ''list index out of range'')
      | l # _ \<Rightarrow> Inr (take 200 l))"

text \<open>One entry of the directory listing.\<close>

definition reconcile_entry ::
  "string list \<Rightarrow> path \<Rightarrow> (string, nat) dict \<Rightarrow> row list \<times> nat \<Rightarrow> string \<Rightarrow> ('z fs_scheme, row list \<times> nat) M" where
  "reconcile_entry fieldnames run_logs_dir by_id = (\<lambda>(rows, upgraded) entry.
     let run_dir = run_logs_dir @ [entry];
         metrics_path = run_dir @ [METRICS_FILE]; error_path = run_dir @ [ERROR_MARKER]
     in bindM (getM (\<lambda>s. (path_isdir run_dir s, path_exists metrics_path s, path_exists error_path s))) (\<lambda>(isdir, has_metrics, has_error).
     if \<not> isdir then retM (rows, upgraded)
     else case dict_get by_id entry of
       None \<Rightarrow> retM (rows, upgraded)
     | Some i \<Rightarrow>
         let r = rows ! i in
         if has_metrics \<and> row_get r ''status'' \<noteq> JStr ''OK'' then
           bindM (catchM (bindM (load_json metrics_path) (\<lambda>v. retM (Some v)))
                    (\<lambda>e. is_OSError e \<or> (case e of JSONDecodeError m \<Rightarrow> True | _ \<Rightarrow> False)) (\<lambda>e. retM None)) (\<lambda>m.
           case m of
             None \<Rightarrow> retM (rows, upgraded)
           | Some (JObj metrics) \<Rightarrow> retM (rows[i := fold_metrics fieldnames metrics r], Suc upgraded)
           | Some _ \<Rightarrow> raiseM (AttributeError ''no attribute items''))
         else if has_error then
           (if status_of r = ''OK'' \<or> starts_with ''PARSE_ERROR'' (status_of r) then retM (rows, upgraded)
            else
              bindM (catchM (bindM (read_text error_path) (\<lambda>t. liftR (first_error_line t))) is_OSError (\<lambda>e. retM ''unknown'')) (\<lambda>err_text.
              retM (rows[i := row_set ''status'' (JStr (''PARSE_ERROR: '' @ err_text)) r], Suc upgraded)))
         else retM (rows, upgraded)))"

text \<open>The records written before the first row that raises.\<close>

fun records_before_error :: "string list \<Rightarrow> row list \<Rightarrow> string list list" where
  "records_before_error fieldnames [] = []"
| "records_before_error fieldnames (r # rs) =
     (case row_record fieldnames r of Inl e \<Rightarrow> [] | Inr rec \<Rightarrow> rec # records_before_error fieldnames rs)"

definition write_rows :: "path \<Rightarrow> string list \<Rightarrow> row list \<Rightarrow> ('z fs_scheme, unit) M" where
  "write_rows csv_path fieldnames rows =
     (case mapR (row_record fieldnames) rows of
        Inl e \<Rightarrow> seqM (write_node (tmp_path csv_path) (Text (csv_print (fieldnames # records_before_error fieldnames rows)))) (raiseM e)
      | Inr recs \<Rightarrow>
          seqM (write_node (tmp_path csv_path) (Text (csv_print (fieldnames # recs))))
            (replace_file (tmp_path csv_path) csv_path))"

definition reconcile_csv :: "path \<Rightarrow> path \<Rightarrow> ('z fs_scheme, nat) M" where
  "reconcile_csv csv_path run_logs_dir =
     bindM (getM (path_exists csv_path)) (\<lambda>ex.
     if \<not> ex then retM 0
     else csv_lock csv_path
       (bindM (read_text csv_path) (\<lambda>text.
        let (fieldnames, rows) = dict_reader text in
        if rows = [] then retM 0
        else
          bindM (getM (path_isdir run_logs_dir)) (\<lambda>isdir.
          if \<not> isdir then retM 0
          else
            bindM (sorted_listdir run_logs_dir) (\<lambda>entries.
            bindM (foldM (reconcile_entry fieldnames run_logs_dir (rows_by_id rows)) (rows, 0) entries) (\<lambda>(rows', upgraded).
            if upgraded = 0 then retM 0
            else seqM (write_rows csv_path fieldnames rows') (retM upgraded)))))))"

subsection \<open>Appending\<close>

lemma translate_no_cr: "CR \<notin> set (translate_newlines t)"
  by (induction t rule: translate_newlines.induct) (auto simp: char_defs)

lemma translate_id: "CR \<notin> set t \<Longrightarrow> translate_newlines t = t"
  using translate_append [of t "[]"] by simp

lemma translate_twice [simp]: "translate_newlines (translate_newlines t) = translate_newlines t"
  by (rule translate_id [OF translate_no_cr])

lemma csv_parse_translated [simp]: "csv_parse (translate_newlines t) = csv_parse t"
  by (simp add: csv_parse_def)

lemma dict_reader_translated [simp]: "dict_reader (translate_newlines t) = dict_reader t"
  by (simp add: dict_reader_def)

text \<open>A well-formed table: a header without duplicates and records of its length.\<close>

definition table_ok :: "string list \<Rightarrow> string list list \<Rightarrow> bool" where
  "table_ok fieldnames recs \<longleftrightarrow> fieldnames \<noteq> [] \<and> distinct fieldnames \<and> no_cr fieldnames
     \<and> (\<forall>rec \<in> set recs. length rec = length fieldnames \<and> no_cr rec)"

lemma table_records: "table_ok fieldnames recs \<Longrightarrow> rec \<in> set (fieldnames # recs) \<Longrightarrow> record_ok rec"
  unfolding table_ok_def record_ok_def by (metis length_0_conv set_ConsD)

lemma dict_reader_print:
  assumes "table_ok fieldnames recs"
  shows "dict_reader (csv_print (fieldnames # recs)) = (fieldnames, map (dict_row fieldnames) recs)"
proof -
  have "csv_parse (csv_print (fieldnames # recs)) = fieldnames # recs"
    using table_records [OF assms] by (rule csvf.parse_print)
  moreover have "filter (\<lambda>r. r \<noteq> []) recs = recs"
    using table_records [OF assms] by (auto simp: filter_id_conv record_ok_def)
  ultimately show ?thesis by (simp add: dict_reader_def)
qed

lemma csv_print_Cons: "csv_print (r # rs) = csv_line r @ csv_print rs"
  by (simp add: csv_print_def)

lemma csv_line_not_Nil [simp]: "csv_line r \<noteq> []"
  by (simp add: csv_line_def)

lemma append_text_ok:
  assumes "fs_faults s = []" "\<not> path_isdir p s" "path_isdir (butlast p) s"
  shows "append_text p t s = (Inr (), put_node p (Text ((case node_at p s of Some (Text u) \<Rightarrow> u | _ \<Rightarrow> []) @ t)) s)"
  using assms by (simp add: append_text_def bindM_Inr [OF next_fault_none] Let_def)

lemma write_node_ok:
  assumes "fs_faults s = []" "\<not> path_isdir p s" "path_isdir (butlast p) s"
  shows "write_node p n s = (Inr (), put_node p n s)"
  using assms by (simp add: write_node_def bindM_Inr [OF next_fault_none])

lemma replace_file_ok:
  assumes "fs_faults s = []" "node_at p s = Some n" "\<not> path_isdir q s"
  shows "replace_file p q s = (Inr (), put_node q n (drop_node p s))"
  using assms by (simp add: replace_file_def bindM_Inr [OF next_fault_none])

text \<open>The place of a table: its directory exists, and neither the lock nor the temporary file is one.\<close>

definition table_place :: "path \<Rightarrow> 'z fs_scheme \<Rightarrow> bool" where
  "table_place p s \<longleftrightarrow> p \<noteq> [] \<and> path_isdir (butlast p) s \<and> \<not> path_isdir p s
     \<and> \<not> path_isdir (lock_path p) s \<and> \<not> path_isdir (tmp_path p) s \<and> fs_faults s = []"

lemma side_paths:
  assumes "p \<noteq> []"
  shows "lock_path p \<noteq> p" "tmp_path p \<noteq> p" "lock_path p \<noteq> tmp_path p"
    "butlast (lock_path p) = butlast p" "butlast (tmp_path p) = butlast p"
    "lock_path p \<noteq> []" "tmp_path p \<noteq> []" "lock_path p \<noteq> butlast p" "tmp_path p \<noteq> butlast p" "p \<noteq> butlast p"
proof -
  have "last (lock_path p) \<noteq> last p" "last (tmp_path p) \<noteq> last p" by (simp_all add: lock_path_def tmp_path_def)
  then show "lock_path p \<noteq> p" "tmp_path p \<noteq> p" by auto
  have "length (butlast p) < length p" using assms by (cases p) auto
  then show "p \<noteq> butlast p" by (metis less_irrefl)
  show "lock_path p \<noteq> butlast p" "tmp_path p \<noteq> butlast p"
    by (metis append_self_conv lock_path_def list.distinct(1), metis append_self_conv tmp_path_def list.distinct(1))
qed (simp_all add: lock_path_def tmp_path_def)

lemma path_isdir_put:
  "path_isdir q (put_node p n s) \<longleftrightarrow> (if q = [] then True else if q = p then n = Dir else path_isdir q s)"
  by (simp add: path_isdir_def)

definition locked :: "path \<Rightarrow> 'z fs_scheme \<Rightarrow> 'z fs_scheme" where
  "locked p s = put_node (lock_path p) (Text (case node_at (lock_path p) s of Some (Text u) \<Rightarrow> u | _ \<Rightarrow> [])) s"

lemma csv_lock_ok:
  assumes "table_place p s"
  shows "csv_lock p m s = m (locked p s)"
proof -
  have "append_text (lock_path p) [] s = (Inr (), locked p s)"
    using assms side_paths [of p] by (simp add: table_place_def append_text_ok locked_def)
  then show ?thesis by (simp add: csv_lock_def seqM_Inr)
qed

lemma locked_place: "table_place p s \<Longrightarrow> table_place p (locked p s)"
  using side_paths [of p] by (auto simp: table_place_def locked_def path_isdir_put)

lemma node_at_locked: "q \<noteq> lock_path p \<Longrightarrow> node_at q (locked p s) = node_at q s"
  by (simp add: locked_def)

lemma table_place_isdir: "table_place p s \<Longrightarrow> node_at p s \<noteq> Some Dir"
  by (simp add: table_place_def path_isdir_def)

lemma append_row_run:
  assumes place: "table_place p s" and recd: "row_record fieldnames r = Inr rec"
    and old: "node_at p s = Some (Text (csv_print (fieldnames # recs)))
      \<or> (recs = [] \<and> (node_at p s = None \<or> node_at p s = Some (Text [])))"
  shows "append_row p fieldnames r s = (Inr (), put_node p (Text (csv_print (fieldnames # recs @ [rec]))) (locked p s))"
proof -
  have p: "p \<noteq> []" "p \<noteq> lock_path p" using place side_paths(1) [of p] by (auto simp: table_place_def)
  have pl: "table_place p (locked p s)" by (rule locked_place [OF place])
  define old_text where "old_text = (case node_at p s of Some (Text u) \<Rightarrow> u | _ \<Rightarrow> [])"
  define header where "header = (if is_new_file p (locked p s) then csv_line fieldnames else [])"
  have new: "is_new_file p (locked p s) \<longleftrightarrow> old_text = []"
    using old by (auto simp: is_new_file_def node_at_locked p old_text_def node_size_def csv_print_Cons)
  have joined: "old_text @ header @ csv_line rec = csv_print (fieldnames # recs @ [rec])"
    using old new unfolding header_def old_text_def by (auto simp: csv_print_def)
  have "append_row p fieldnames r s = append_text p (header @ csv_line rec) (locked p s)"
    unfolding append_row_def csv_lock_ok [OF place]
    by (simp add: bindM_def getM_def recd Let_def header_def)
  also have "\<dots> = (Inr (), put_node p (Text (old_text @ header @ csv_line rec)) (locked p s))"
    using pl unfolding table_place_def
    by (simp add: append_text_ok node_at_locked p old_text_def)
  finally show ?thesis unfolding joined .
qed

text \<open>Appending a row to a results file never disturbs the rows already there: the file reads back as
  the old rows followed by the new one, the header is written exactly when the file was missing or
  empty, and no other file but the lock changes.\<close>

theorem append_row_appends:
  assumes place: "table_place p s" and recd: "row_record fieldnames r = Inr rec"
    and tab: "table_ok fieldnames (recs @ [rec])"
    and old: "node_at p s = Some (Text (csv_print (fieldnames # recs)))
      \<or> (recs = [] \<and> (node_at p s = None \<or> node_at p s = Some (Text [])))"
  shows "\<exists>t. append_row p fieldnames r s = (Inr (), put_node p (Text t) (locked p s))
    \<and> dict_reader t = (fieldnames, map (dict_row fieldnames) (recs @ [rec]))"
  using append_row_run [OF place recd old] dict_reader_print [OF tab] by blast

definition results_path0 :: path where
  "results_path0 = [''out.csv'']"

definition results0 :: fs where
  "results0 = \<lparr>fs_files = [(results_path0, Text (csv_print [[''run_id'', ''status''], [''A,1'', ''OK'']]))], fs_faults = []\<rparr>"

lemma append_row_appends_witness:
  "\<exists>t. append_row results_path0 [''run_id'', ''status'']
        \<lparr>cells = [(''status'', JStr ''DOWNLOADED''), (''run_id'', JStr ''B'')], surplus = []\<rparr> results0
      = (Inr (), put_node results_path0 (Text t) (locked results_path0 results0))
    \<and> dict_reader t = ([''run_id'', ''status''],
        map (dict_row [''run_id'', ''status'']) ([[''A,1'', ''OK'']] @ [[''B'', ''DOWNLOADED'']]))"
  by (rule append_row_appends)
    (simp_all add: table_place_def results0_def results_path0_def path_isdir_def node_at_def lock_path_def tmp_path_def
      row_record_def dict_get_or_def table_ok_def no_cr_def CR_def)

subsection \<open>Reconciling twice\<close>

text \<open>One row against one run directory, as a function of the files: the new row, if it changes.\<close>

definition error_text :: "path \<Rightarrow> 'z fs_scheme \<Rightarrow> string res" where
  "error_text p s =
     (case node_at p s of
        Some (Text t) \<Rightarrow> first_error_line (translate_newlines t)
      | Some (Json v) \<Rightarrow> first_error_line (translate_newlines (json_text v))
      | _ \<Rightarrow> Inr ''unknown'')"

definition row_step :: "string list \<Rightarrow> path \<Rightarrow> 'z fs_scheme \<Rightarrow> string \<Rightarrow> row \<Rightarrow> row option res" where
  "row_step fieldnames d s e r =
     (let mp = d @ [e, METRICS_FILE]; ep = d @ [e, ERROR_MARKER] in
      if path_exists mp s \<and> row_get r ''status'' \<noteq> JStr ''OK'' then
        (case node_at mp s of
           Some (Json (JObj ms)) \<Rightarrow> Inr (Some (fold_metrics fieldnames ms r))
         | Some (Json _) \<Rightarrow> Inl (AttributeError ''no attribute items'')
         | _ \<Rightarrow> Inr None)
      else if path_exists ep s then
        (if status_of r = ''OK'' \<or> starts_with ''PARSE_ERROR'' (status_of r) then Inr None
         else bindR (error_text ep s) (\<lambda>t. Inr (Some (row_set ''status'' (JStr (''PARSE_ERROR: '' @ t)) r))))
      else Inr None)"

definition entry_step ::
  "string list \<Rightarrow> path \<Rightarrow> (string, nat) dict \<Rightarrow> 'z fs_scheme \<Rightarrow> row list \<times> nat \<Rightarrow> string \<Rightarrow> (row list \<times> nat) res" where
  "entry_step fieldnames d by_id s = (\<lambda>(rows, n) e.
     case (if path_isdir (d @ [e]) s then dict_get by_id e else None) of
       None \<Rightarrow> Inr (rows, n)
     | Some i \<Rightarrow> bindR (row_step fieldnames d s e (rows ! i)) (\<lambda>ro.
         Inr (case ro of None \<Rightarrow> (rows, n) | Some r' \<Rightarrow> (rows[i := r'], Suc n))))"

lemma read_node_ok:
  assumes "fs_faults s = []"
  shows "read_node p s = (case node_at p s of None \<Rightarrow> Inl (FileNotFoundError (concat p))
     | Some Dir \<Rightarrow> Inl (OSError ''[Errno 21] Is a directory'') | Some n \<Rightarrow> Inr n, s)"
  using assms by (simp add: read_node_def bindM_Inr [OF next_fault_none] split: option.splits node.splits)

lemma load_catch_ok:
  assumes "fs_faults s = []"
  shows "catchM (bindM (load_json p) (\<lambda>v. retM (Some v)))
      (\<lambda>e. is_OSError e \<or> (case e of JSONDecodeError m \<Rightarrow> True | _ \<Rightarrow> False)) (\<lambda>e. retM None) s =
    (Inr (case node_at p s of Some (Json v) \<Rightarrow> Some v | _ \<Rightarrow> None), s)"
  by (auto simp: load_json_def catchM_def bindM_def read_node_ok [OF assms] retM_def raiseM_def
      split: option.splits node.splits)

lemma load_catch_bind:
  assumes "fs_faults s = []"
  shows "bindM (catchM (bindM (load_json p) (\<lambda>v. retM (Some v)))
      (\<lambda>e. is_OSError e \<or> (case e of JSONDecodeError m \<Rightarrow> True | _ \<Rightarrow> False)) (\<lambda>e. retM None)) f s =
    f (case node_at p s of Some (Json v) \<Rightarrow> Some v | _ \<Rightarrow> None) s"
  unfolding bindM_def [of "catchM _ _ _"] load_catch_ok [OF assms] by simp

lemma error_catch_ok:
  assumes "fs_faults s = []" "path_exists p s" "p \<noteq> []"
  shows "catchM (bindM (read_text p) (\<lambda>t. liftR (first_error_line t))) is_OSError (\<lambda>e. retM ''unknown'') s =
    (error_text p s, s)"
proof -
  have "\<not> is_OSError e" if "first_error_line t = Inl e" for t e
    using that by (auto simp: first_error_line_def split: list.splits)
  then show ?thesis
    using assms(2,3)
    by (auto simp: read_text_def catchM_def bindM_def read_node_ok [OF assms(1)] retM_def liftR_def error_text_def path_exists_def
        split: option.splits node.splits sum.splits)
qed

lemma reconcile_entry_ok:
  assumes "fs_faults s = []"
  shows "reconcile_entry fieldnames d by_id acc e s = (entry_step fieldnames d by_id s acc e, s)"
proof -
  obtain rows n where acc: "acc = (rows, n)" by (cases acc)
  show ?thesis
  proof (cases "if path_isdir (d @ [e]) s then dict_get by_id e else None")
    case None
    then show ?thesis
      by (auto simp: reconcile_entry_def entry_step_def acc bindM_def getM_def retM_def Let_def split: if_splits)
  next
    case (Some i)
    then have d: "path_isdir (d @ [e]) s" "dict_get by_id e = Some i" by (auto split: if_splits)
    let ?mp = "d @ [e, METRICS_FILE]" and ?ep = "d @ [e, ERROR_MARKER]"
    consider (m) "path_exists ?mp s \<and> row_get (rows ! i) ''status'' \<noteq> JStr ''OK''"
      | (e) "\<not> (path_exists ?mp s \<and> row_get (rows ! i) ''status'' \<noteq> JStr ''OK'')" "path_exists ?ep s"
      | (n) "\<not> (path_exists ?mp s \<and> row_get (rows ! i) ''status'' \<noteq> JStr ''OK'')" "\<not> path_exists ?ep s"
      by blast
    then show ?thesis
    proof cases
      case m
      then show ?thesis
        unfolding reconcile_entry_def entry_step_def acc row_step_def
        by (simp add: d Let_def load_catch_bind [OF assms] split: option.splits node.splits jval.splits)
          (simp add: retM_def raiseM_def)
    next
      case e
      then show ?thesis
        using error_catch_ok [OF assms e(2)]
        unfolding reconcile_entry_def entry_step_def acc row_step_def
        by (cases "error_text ?ep s")
          (auto simp: d Let_def bindM_def getM_def retM_def split: option.splits)
    next
      case n
      then show ?thesis
        unfolding reconcile_entry_def entry_step_def acc row_step_def
        by (auto simp: d Let_def bindM_def getM_def retM_def)
    qed
  qed
qed

lemma foldM_pure: "(\<And>b x. f b x s = (g b x, s)) \<Longrightarrow> foldM f b xs s = (foldR g b xs, s)"
  by (induction xs arbitrary: b) (simp_all add: retM_def bindM_def bindR_def split: sum.splits)

lemma str_of_OK: "row_get r ''status'' = JStr ''OK'' \<longleftrightarrow> status_of r = ''OK''"
  by (cases "row_get r ''status''") (simp_all add: status_of_def)

text \<open>Whether a row changes depends only on its status.\<close>

lemma row_step_None_cong:
  assumes "status_of r = status_of r'"
  shows "row_step fieldnames d s e r = Inr None \<longleftrightarrow> row_step fieldnames d s e r' = Inr None"
  using assms unfolding row_step_def Let_def str_of_OK
  by (auto simp: bindR_Inr_iff split: option.splits node.splits jval.splits)

lemma status_fold_metrics [simp]: "row_get (fold_metrics fieldnames ms r) ''status'' = JStr ''OK''"
  by (simp add: fold_metrics_def)

lemma row_step_settles:
  assumes "row_step fieldnames d s e r = Inr (Some r')"
  shows "row_step fieldnames d s e r' = Inr None"
proof -
  consider ms where "r' = fold_metrics fieldnames ms r"
    | t where "r' = row_set ''status'' (JStr (''PARSE_ERROR: '' @ t)) r" "\<not> path_exists (d @ [e, METRICS_FILE]) s"
        "path_exists (d @ [e, ERROR_MARKER]) s"
    using assms
    by (auto simp: row_step_def Let_def bindR_Inr_iff str_of_OK split: option.splits node.splits jval.splits if_splits)
  then show ?thesis
  proof cases
    case 1
    then have "status_of r' = ''OK''" by (simp add: status_of_def)
    then show ?thesis unfolding row_step_def Let_def str_of_OK by simp
  next
    case 2
    then have "starts_with ''PARSE_ERROR'' (status_of r')"
      by (simp add: status_of_def starts_with_def)
    then show ?thesis using 2 unfolding row_step_def Let_def str_of_OK by simp
  qed
qed

definition id_of :: "row \<Rightarrow> string" where
  "id_of r = str_of (row_get r ''run_id'')"

lemma rows_by_id_SomeD:
  assumes "dict_get (rows_by_id rows) e = Some i"
  shows "i < length rows \<and> id_of (rows ! i) = e"
proof -
  have "map_of (rev (map (\<lambda>(i, r). (str_of (row_get r ''run_id''), i))
       (filter (\<lambda>(i, r). str_of (row_get r ''run_id'') \<noteq> []) (enum rows)))) e = Some i"
    using assms by (auto simp: rows_by_id_def dict_get_update split: option.splits)
  then show ?thesis by (auto dest!: map_of_SomeD simp: set_enum id_of_def)
qed

lemma rows_by_id_cong:
  assumes "map id_of rows = map id_of rows'"
  shows "rows_by_id rows = rows_by_id rows'"
proof -
  have eq: "map (\<lambda>(i, r). (str_of (row_get r ''run_id''), i))
       (filter (\<lambda>(i, r). str_of (row_get r ''run_id'') \<noteq> []) (List.enumerate n rows)) =
     map (\<lambda>(i, x). (x, i)) (filter (\<lambda>(i, x). x \<noteq> []) (List.enumerate n (map id_of rows)))" for n rows
    by (induction rows arbitrary: n) (simp_all add: id_of_def)
  show ?thesis unfolding rows_by_id_def enum_def eq assms ..
qed

text \<open>What the first pass keeps true of the rows: ids, columns, and cells that can be written.\<close>

definition plain_cell :: "jval \<Rightarrow> bool" where
  "plain_cell v \<longleftrightarrow> CR \<notin> set (csv_cell v)"

definition row_ok :: "string list \<Rightarrow> row \<Rightarrow> bool" where
  "row_ok fieldnames r \<longleftrightarrow> surplus r = [] \<and> set (dict_keys (cells r)) \<subseteq> set fieldnames
     \<and> (\<forall>k. plain_cell (row_get r k))
     \<and> (\<forall>k \<in> {''run_id'', ''status''}. row_get r k = JStr (str_of (row_get r k)) \<or> row_get r k = JNull)"

text \<open>The metrics documents the parser writes: plain values, and not the two columns that identify
  and classify a row.\<close>

definition metrics_ok :: "path \<Rightarrow> 'z fs_scheme \<Rightarrow> bool" where
  "metrics_ok d s \<longleftrightarrow> (\<forall>e ms. node_at (d @ [e, METRICS_FILE]) s = Some (Json (JObj ms)) \<longrightarrow>
     ''run_id'' \<notin> set (dict_keys ms) \<and> (\<forall>(k, v) \<in> set ms. plain_cell v))"

lemma plain_null: "plain_cell JNull" and plain_ok: "plain_cell (JStr ''OK'')"
  by (simp_all add: plain_cell_def CR_def)

lemma fold_set_get:
  "row_get (fold (\<lambda>(k, v) r. if k \<in> set fieldnames then row_set k v r else r) ms r) k = row_get r k \<or>
   (k \<in> set fieldnames \<and> (k, row_get (fold (\<lambda>(k, v) r. if k \<in> set fieldnames then row_set k v r else r) ms r) k) \<in> set ms)"
proof (induction ms arbitrary: r)
  case (Cons m ms)
  obtain a b where m: "m = (a, b)" by (cases m)
  from Cons.IH [of "if a \<in> set fieldnames then row_set a b r else r"] show ?case
    by (auto simp: m split: if_splits)
qed simp

lemma fold_set_surplus:
  "surplus (fold (\<lambda>(k, v) r. if k \<in> set fieldnames then row_set k v r else r) ms r) = surplus r"
  by (induction ms arbitrary: r) auto

lemma fold_set_keys:
  "set (dict_keys (cells r)) \<subseteq> set fieldnames \<Longrightarrow>
     set (dict_keys (cells (fold (\<lambda>(k, v) r. if k \<in> set fieldnames then row_set k v r else r) ms r))) \<subseteq> set fieldnames"
proof (induction ms arbitrary: r)
  case (Cons m ms)
  obtain a b where m: "m = (a, b)" by (cases m)
  let ?r = "if a \<in> set fieldnames then row_set a b r else r"
  have "set (dict_keys (cells ?r)) \<subseteq> set fieldnames" using row_set_keys [of a b r] Cons.prems by auto
  from Cons.IH [OF this] show ?case by (simp add: m)
qed simp

lemma fold_metrics_ok:
  assumes r: "row_ok fieldnames r" and st: "''status'' \<in> set fieldnames"
    and ms: "''run_id'' \<notin> set (dict_keys ms)" "\<forall>(k, v) \<in> set ms. plain_cell v"
  shows "row_ok fieldnames (fold_metrics fieldnames ms r) \<and> id_of (fold_metrics fieldnames ms r) = id_of r"
proof -
  define r1 where "r1 = fold (\<lambda>(k, v) r. if k \<in> set fieldnames then row_set k v r else r) ms r"
  have fm: "fold_metrics fieldnames ms r = row_set ''status'' (JStr ''OK'') r1"
    by (simp add: fold_metrics_def r1_def)
  have id: "row_get r1 ''run_id'' = row_get r ''run_id''"
    using fold_set_get [of fieldnames ms r "''run_id''"] ms(1) unfolding r1_def by force
  have pl: "plain_cell (row_get r1 k)" for k
  proof -
    have "plain_cell (row_get r k)" using r by (simp add: row_ok_def)
    moreover have "plain_cell v" if "(k, v) \<in> set ms" for v using ms(2) that by blast
    ultimately show ?thesis
      using fold_set_get [of fieldnames ms r k, folded r1_def] by (elim disjE conjE) simp_all
  qed
  have sh: "surplus r1 = []" "set (dict_keys (cells r1)) \<subseteq> set fieldnames"
    using fold_set_surplus [of fieldnames ms r] fold_set_keys [of r fieldnames ms] r
    by (simp_all add: r1_def row_ok_def)
  have "set (dict_keys (cells (row_set ''status'' (JStr ''OK'') r1))) \<subseteq> set fieldnames"
    using sh(2) st unfolding row_set_keys by blast
  with sh(1) show ?thesis
    using id pl r plain_ok unfolding row_ok_def fm id_of_def by simp
qed

lemma drop_last_empty_subset: "set (drop_last_empty ws) \<subseteq> set ws"
  by (induction ws rule: drop_last_empty.induct) auto

lemma first_error_line_plain:
  assumes "first_error_line (translate_newlines t) = Inr l"
  shows "CR \<notin> set l"
proof -
  obtain w ws where w: "py_splitlines (py_strip (translate_newlines t)) = w # ws" "l = take 200 w"
    using assms by (auto simp: first_error_line_def split: list.splits)
  then have "w \<in> set (split_by is_line_break (translate_newlines (py_strip (translate_newlines t))))"
    using drop_last_empty_subset unfolding py_splitlines_def by (metis list.set_intros(1) subsetD)
  then have "CR \<notin> set w" using split_by_no_sep by (fastforce simp: is_line_break_def CR_def)
  then show ?thesis using w(2) by (auto dest: in_set_takeD)
qed

lemma row_step_ok:
  assumes r: "row_ok fieldnames r" and st: "''status'' \<in> set fieldnames" and ms: "metrics_ok d s"
    and step: "row_step fieldnames d s e r = Inr (Some r')"
  shows "row_ok fieldnames r' \<and> id_of r' = id_of r"
proof -
  consider m where "node_at (d @ [e, METRICS_FILE]) s = Some (Json (JObj m))" "r' = fold_metrics fieldnames m r"
    | t where "error_text (d @ [e, ERROR_MARKER]) s = Inr t" "r' = row_set ''status'' (JStr (''PARSE_ERROR: '' @ t)) r"
    using step
    by (auto simp: row_step_def Let_def bindR_Inr_iff split: option.splits node.splits jval.splits if_splits)
  then show ?thesis
  proof cases
    case 1
    with ms fold_metrics_ok [OF r st, of m] show ?thesis unfolding metrics_ok_def by blast
  next
    case 2
    have "CR \<notin> set t"
      using 2(1) first_error_line_plain by (auto simp: error_text_def CR_def split: option.splits node.splits)
    then have pl: "plain_cell (JStr (''PARSE_ERROR: '' @ t))" by (simp add: plain_cell_def CR_def)
    have "set (dict_keys (cells r')) \<subseteq> set fieldnames"
      using r st unfolding 2(2) row_set_keys row_ok_def by blast
    then show ?thesis using r pl unfolding row_ok_def 2(2) id_of_def by simp
  qed
qed

text \<open>The state of the rows after some entries: \<open>done\<close> entries need no further change.\<close>

definition settled :: "string list \<Rightarrow> path \<Rightarrow> 'z fs_scheme \<Rightarrow> (string, nat) dict \<Rightarrow> row list \<Rightarrow> string \<Rightarrow> bool" where
  "settled fieldnames d s by_id rows e \<longleftrightarrow>
     (\<forall>i. path_isdir (d @ [e]) s \<longrightarrow> dict_get by_id e = Some i \<longrightarrow> row_step fieldnames d s e (rows ! i) = Inr None)"

lemma entry_step_settles:
  assumes len: "length rows = length rows0" and ids: "map id_of rows = map id_of rows0"
    and ok: "\<forall>r \<in> set rows. row_ok fieldnames r" and st: "''status'' \<in> set fieldnames" and ms: "metrics_ok d s"
    and step: "entry_step fieldnames d (rows_by_id rows0) s (rows, n) e = Inr (rows', n')"
  shows "map id_of rows' = map id_of rows0 \<and> (\<forall>r \<in> set rows'. row_ok fieldnames r) \<and> n \<le> n' \<and> (n' = n \<longrightarrow> rows' = rows)
    \<and> settled fieldnames d s (rows_by_id rows0) rows' e
    \<and> (\<forall>e'. settled fieldnames d s (rows_by_id rows0) rows e' \<longrightarrow> settled fieldnames d s (rows_by_id rows0) rows' e')"
proof (cases "if path_isdir (d @ [e]) s then dict_get (rows_by_id rows0) e else None")
  case None
  then show ?thesis
    using step ids ok by (auto simp: entry_step_def settled_def split: if_splits)
next
  case (Some i)
  have d: "dict_get (rows_by_id rows0) e = Some i" using Some by (simp split: if_splits)
  have i: "i < length rows" "id_of (rows0 ! i) = e" using rows_by_id_SomeD [OF d] len by auto
  have ri: "row_ok fieldnames (rows ! i)" using ok i(1) by simp
  obtain ro where ro: "row_step fieldnames d s e (rows ! i) = Inr ro"
    and res: "(rows', n') = (case ro of None \<Rightarrow> (rows, n) | Some r' \<Rightarrow> (rows[i := r'], Suc n))"
    using step Some by (auto simp: entry_step_def bindR_Inr_iff)
  show ?thesis
  proof (cases ro)
    case None
    then show ?thesis using ro res ids ok d by (auto simp: settled_def)
  next
    case r': (Some r')
    have rr: "row_ok fieldnames r'" "id_of r' = id_of (rows ! i)"
      using row_step_ok [OF ri st ms ro [unfolded r']] by auto
    have rows': "rows' = rows[i := r']" "n' = Suc n" using res r' by auto
    have "map id_of rows' = map id_of rows"
      using rr(2) i(1) unfolding rows' map_update by (metis list_update_id nth_map)
    moreover have "\<forall>r \<in> set rows'. row_ok fieldnames r"
      using ok rr(1) unfolding rows' by (metis in_set_conv_nth length_list_update nth_list_update_eq nth_list_update_neq nth_mem)
    moreover have "settled fieldnames d s (rows_by_id rows0) rows' e"
      using row_step_settles [OF ro [unfolded r']] d i(1) by (simp add: settled_def rows')
    moreover have "settled fieldnames d s (rows_by_id rows0) rows' e'"
      if s': "settled fieldnames d s (rows_by_id rows0) rows e'" for e'
    proof (cases "e' = e")
      case False
      have "j \<noteq> i" if "dict_get (rows_by_id rows0) e' = Some j" for j
        using rows_by_id_SomeD [OF that] i(2) False by blast
      then show ?thesis using s' by (auto simp: settled_def rows')
    qed (use \<open>settled fieldnames d s (rows_by_id rows0) rows' e\<close> in simp)
    ultimately show ?thesis using ids rows'(2) by auto
  qed
qed

lemma fold_settles:
  assumes "foldR (entry_step fieldnames d (rows_by_id rows0) s) (rows, n) es = Inr (rows', n')"
    and "map id_of rows = map id_of rows0" "\<forall>r \<in> set rows. row_ok fieldnames r"
    and "''status'' \<in> set fieldnames" "metrics_ok d s"
  shows "map id_of rows' = map id_of rows0 \<and> (\<forall>r \<in> set rows'. row_ok fieldnames r) \<and> n \<le> n' \<and> (n' = n \<longrightarrow> rows' = rows)
    \<and> (\<forall>e. e \<in> set es \<or> settled fieldnames d s (rows_by_id rows0) rows e \<longrightarrow> settled fieldnames d s (rows_by_id rows0) rows' e)"
  using assms(1-3)
proof (induction es arbitrary: rows n)
  case (Cons e es)
  obtain rows1 n1 where one: "entry_step fieldnames d (rows_by_id rows0) s (rows, n) e = Inr (rows1, n1)"
    and rest: "foldR (entry_step fieldnames d (rows_by_id rows0) s) (rows1, n1) es = Inr (rows', n')"
    using Cons.prems(1) by (auto simp: bindR_Inr_iff)
  have len: "length rows = length rows0" using Cons.prems(2) by (metis length_map)
  note a = entry_step_settles [OF len Cons.prems(2,3) assms(4,5) one]
  note b = Cons.IH [OF rest]
  have "map id_of rows1 = map id_of rows0" "\<forall>r \<in> set rows1. row_ok fieldnames r" using a by blast+
  from b [OF this] a show ?case by fastforce
qed simp

lemma fold_settled_none:
  assumes "\<And>e. e \<in> set es \<Longrightarrow> settled fieldnames d s by_id rows e"
  shows "foldR (entry_step fieldnames d by_id s) (rows, n) es = Inr (rows, n)"
  using assms
proof (induction es)
  case (Cons e es)
  have "entry_step fieldnames d by_id s (rows, n) e = Inr (rows, n)"
    using Cons.prems [of e] by (auto simp: entry_step_def settled_def split: option.splits)
  with Cons show ?case by simp
qed simp

text \<open>A pass over a well-formed table, without faults.\<close>

lemma read_text_ok:
  assumes "fs_faults s = []" "node_at p s = Some (Text t)"
  shows "read_text p s = (Inr (translate_newlines t), s)"
  using assms by (simp add: read_text_def bindM_def read_node_ok retM_def)

lemma reconcile_run:
  assumes place: "table_place p s" and node: "node_at p s = Some (Text (csv_print (fn # recs)))" and tab: "table_ok fn recs"
  shows "reconcile_csv p d s =
    (let L = locked p s; R = map (dict_row fn) recs in
     if R = [] \<or> \<not> path_isdir d L then (Inr 0, L)
     else case foldR (entry_step fn d (rows_by_id R) L) (R, 0) (sort (names_in d L)) of
       Inl e \<Rightarrow> (Inl e, L)
     | Inr (rows', n) \<Rightarrow> if n = 0 then (Inr 0, L) else seqM (write_rows p fn rows') (retM n) L)"
proof -
  have p: "p \<noteq> lock_path p" using place side_paths(1) [of p] by (auto simp: table_place_def)
  have L: "fs_faults (locked p s) = []" "node_at p (locked p s) = Some (Text (csv_print (fn # recs)))"
    using locked_place [OF place] node by (simp_all add: table_place_def node_at_locked [OF p])
  have rd: "read_text p (locked p s) = (Inr (translate_newlines (csv_print (fn # recs))), locked p s)"
    using L by (rule read_text_ok)
  have fold: "foldM (reconcile_entry fn d by_id) acc es (locked p s) = (foldR (entry_step fn d by_id (locked p s)) acc es, locked p s)"
    for by_id acc es by (rule foldM_pure) (rule reconcile_entry_ok [OF L(1)])
  have "path_exists p s" using node by (simp add: path_exists_def)
  then show ?thesis
    unfolding reconcile_csv_def csv_lock_ok [OF place]
    by (simp add: csv_lock_ok [OF place] bindM_def [of "read_text p"] rd dict_reader_print [OF tab] sorted_listdir_def Let_def retM_def
        bindM_def [of "foldM _ _ _"] fold split: sum.splits prod.splits)
qed

definition written :: "row \<Rightarrow> string \<Rightarrow> string" where
  "written r k = csv_cell (row_get r k)"

lemma row_record_ok: "row_ok fn r \<Longrightarrow> row_record fn r = Inr (map (written r) fn)"
proof -
  have "csv_cell (dict_get_or (cells r) k (JStr [])) = written r k" for k
    by (simp add: written_def row_get_def dict_get_or_def split: option.splits)
  then show "row_ok fn r \<Longrightarrow> row_record fn r = Inr (map (written r) fn)"
    by (simp add: row_record_def row_ok_def)
qed

lemma reread_get:
  assumes "distinct fn" "k \<in> set fn"
  shows "row_get (dict_row fn (map (written r) fn)) k = JStr (written r k)"
proof -
  obtain i where i: "i < length fn" "fn ! i = k" using assms(2) by (meson in_set_conv_nth)
  with dict_row_get [of "map (written r) fn" fn i] assms(1) show ?thesis
    by (simp add: row_get_def dict_get_or_def)
qed

lemma reread_same:
  assumes "row_ok fn r" "distinct fn" "''run_id'' \<in> set fn" "''status'' \<in> set fn"
  shows "id_of (dict_row fn (map (written r) fn)) = id_of r" "status_of (dict_row fn (map (written r) fn)) = status_of r"
proof -
  have "str_of (JStr (written r k)) = str_of (row_get r k)" if "k \<in> {''run_id'', ''status''}" for k
  proof -
    have "row_get r k = JStr (str_of (row_get r k)) \<or> row_get r k = JNull"
      using assms(1) that unfolding row_ok_def by blast
    then show ?thesis unfolding written_def by (cases "row_get r k") simp_all
  qed
  then show "id_of (dict_row fn (map (written r) fn)) = id_of r" "status_of (dict_row fn (map (written r) fn)) = status_of r"
    by (simp_all add: id_of_def status_of_def reread_get [OF assms(2)] assms(3,4))
qed

lemma read_row_ok:
  assumes "table_ok fn recs" "rec \<in> set recs"
  shows "row_ok fn (dict_row fn rec)"
proof -
  have l: "length rec = length fn" "no_cr rec" "distinct fn" using assms by (auto simp: table_ok_def)
  have get: "\<exists>t. row_get (dict_row fn rec) k = JStr t \<and> CR \<notin> set t" if k: "k \<in> set fn" for k
  proof -
    obtain i where "i < length fn" "fn ! i = k" using k by (meson in_set_conv_nth)
    with dict_row_get [OF l(1,3)] l show ?thesis by (auto simp: row_get_def dict_get_or_def no_cr_def)
  qed
  have none: "row_get (dict_row fn rec) k = JNull" if "k \<notin> set fn" for k
    using dict_row_get_None [OF l(1) that] by (simp add: row_get_def dict_get_or_def)
  have form: "row_get (dict_row fn rec) k = JStr (str_of (row_get (dict_row fn rec) k)) \<or> row_get (dict_row fn rec) k = JNull" for k
    using get [of k] none [of k] by (cases "k \<in> set fn") auto
  have "plain_cell (row_get (dict_row fn rec) k)" for k
    using get [of k] none [of k] by (cases "k \<in> set fn") (auto simp: plain_cell_def CR_def)
  then show ?thesis
    using dict_row_keys [OF l(1)] form unfolding row_ok_def by simp
qed

lemma table_ok_written:
  assumes "table_ok fn recs" "\<forall>r \<in> set rows. row_ok fn r"
  shows "table_ok fn (map (\<lambda>r. map (written r) fn) rows)"
proof -
  have "no_cr (map (written r) fn)" if "row_ok fn r" for r
    using that by (auto simp: no_cr_def written_def row_ok_def plain_cell_def)
  with assms show ?thesis by (auto simp: table_ok_def)
qed

text \<open>Rows that are settled stay as they are.\<close>

lemma settled_pass:
  assumes place: "table_place p s" and node: "node_at p s = Some (Text (csv_print (fn # recs)))" and tab: "table_ok fn recs"
    and set: "\<And>e. settled fn d (locked p s) (rows_by_id (map (dict_row fn) recs)) (map (dict_row fn) recs) e"
  shows "reconcile_csv p d s = (Inr 0, locked p s)"
  unfolding reconcile_run [OF place node tab] Let_def
  using fold_settled_none [where es = "sort (names_in d (locked p s))" and n = 0, OF set] by simp

lemma row_step_frame:
  assumes "\<And>q. below d q \<Longrightarrow> node_at q t = node_at q s"
  shows "row_step fn d t e r = row_step fn d s e r" "path_isdir (d @ [e]) t = path_isdir (d @ [e]) s"
proof -
  have "node_at (d @ [e]) t = node_at (d @ [e]) s" "node_at (d @ [e, x]) t = node_at (d @ [e, x]) s" for x
    using assms by (simp_all add: below_def)
  then show "row_step fn d t e r = row_step fn d s e r" "path_isdir (d @ [e]) t = path_isdir (d @ [e]) s"
    by (simp_all add: row_step_def path_exists_def error_text_def path_isdir_def Let_def)
qed

lemma settled_frame:
  assumes "\<And>q. below d q \<Longrightarrow> node_at q t = node_at q s"
  shows "settled fn d t by_id rows e = settled fn d s by_id rows e"
  by (simp add: settled_def row_step_frame [of d t s, OF assms])

lemma isdir_named:
  assumes "path_isdir (d @ [e]) s"
  shows "e \<in> set (names_in d s)"
proof -
  have "node_at (d @ [e]) s = Some Dir" using assms by (simp add: path_isdir_def)
  then have "d @ [e] \<in> set (dict_keys (fs_files s))" unfolding node_at_def dict_get_in_keys by simp
  then have "last (d @ [e]) \<in> last ` {p \<in> set (dict_keys (fs_files s)). p \<noteq> [] \<and> butlast p = d}"
    by (intro imageI) simp
  then show ?thesis by (simp add: names_in_def)
qed

lemma settled_all:
  assumes "\<And>e. e \<in> set (sort (names_in d s)) \<Longrightarrow> settled fn d s by_id rows e"
  shows "settled fn d s by_id rows e"
  using assms [of e] isdir_named [of d e s] by (auto simp: settled_def)

lemma settled_cong:
  assumes "map id_of rows' = map id_of rows" "map status_of rows' = map status_of rows"
    and "settled fn d s (rows_by_id rows) rows e"
  shows "settled fn d s (rows_by_id rows') rows' e"
proof -
  have b: "rows_by_id rows' = rows_by_id rows" by (rule rows_by_id_cong [OF assms(1)])
  have "row_step fn d s e (rows' ! i) = Inr None"
    if "path_isdir (d @ [e]) s" "dict_get (rows_by_id rows) e = Some i" for i
  proof -
    have "i < length rows" "length rows' = length rows" using rows_by_id_SomeD [OF that(2)] assms(1) map_eq_imp_length_eq by auto
    then have "status_of (rows' ! i) = status_of (rows ! i)"
      using arg_cong [OF assms(2), of "\<lambda>xs. xs ! i"] by simp
    with assms(3) that row_step_None_cong show ?thesis unfolding settled_def by blast
  qed
  then show ?thesis by (simp add: settled_def b)
qed

lemma settled_reread:
  assumes tab: "table_ok fn recs" and cols: "''run_id'' \<in> set fn" "''status'' \<in> set fn"
    and ids: "map id_of rows' = map id_of rows" and ok: "\<forall>r \<in> set rows'. row_ok fn r"
    and st: "settled fn d s (rows_by_id rows) rows' e"
  shows "settled fn d s (rows_by_id (map (\<lambda>r. dict_row fn (map (written r) fn)) rows'))
    (map (\<lambda>r. dict_row fn (map (written r) fn)) rows') e"
proof (rule settled_cong [where rows = rows'])
  have d: "distinct fn" using tab by (simp add: table_ok_def)
  show "map id_of (map (\<lambda>r. dict_row fn (map (written r) fn)) rows') = map id_of rows'"
    "map status_of (map (\<lambda>r. dict_row fn (map (written r) fn)) rows') = map status_of rows'"
    using reread_same [OF _ d cols] ok by simp_all
  show "settled fn d s (rows_by_id rows') rows' e"
    using st rows_by_id_cong [OF ids] by simp
qed

text \<open>The place of the logs: away from the table and its side files.\<close>

definition apart :: "path \<Rightarrow> path \<Rightarrow> bool" where
  "apart d p \<longleftrightarrow> \<not> below d p \<and> \<not> below d (lock_path p) \<and> \<not> below d (tmp_path p)"

lemma below_locked: "apart d p \<Longrightarrow> below d q \<Longrightarrow> node_at q (locked p s) = node_at q s"
  by (auto simp: apart_def locked_def)

lemma locked_twice: "node_at q (locked p (locked p s)) = node_at q (locked p s)"
  by (simp add: locked_def)

lemma write_rows_ok:
  assumes place: "table_place p s" and ok: "\<forall>r \<in> set rows. row_ok fn r"
  shows "write_rows p fn rows s = (Inr (), put_node p (Text (csv_print (fn # map (\<lambda>r. map (written r) fn) rows)))
    (drop_node (tmp_path p) (put_node (tmp_path p) (Text (csv_print (fn # map (\<lambda>r. map (written r) fn) rows))) s)))"
proof -
  have m: "mapR (row_record fn) rows = Inr (map (\<lambda>r. map (written r) fn) rows)"
    using ok row_record_ok by (intro mapR_total) blast
  let ?t = "Text (csv_print (fn # map (\<lambda>r. map (written r) fn) rows))"
  have s: "fs_faults s = []" "\<not> path_isdir (tmp_path p) s" "path_isdir (butlast (tmp_path p)) s"
    "\<not> path_isdir p s" "p \<noteq> tmp_path p"
    using place side_paths(2,5) [of p] by (auto simp: table_place_def)
  have w: "write_node (tmp_path p) ?t s = (Inr (), put_node (tmp_path p) ?t s)"
    using s by (intro write_node_ok)
  have r: "replace_file (tmp_path p) p (put_node (tmp_path p) ?t s) =
      (Inr (), put_node p ?t (drop_node (tmp_path p) (put_node (tmp_path p) ?t s)))"
    using s by (intro replace_file_ok) (simp_all add: path_isdir_put path_isdir_def)
  show ?thesis
    by (simp add: write_rows_def m seqM_def bindM_def w r)
qed

text \<open>The state after a pass that wrote the rows.\<close>

definition rewritten :: "path \<Rightarrow> string list \<Rightarrow> string list list \<Rightarrow> 'z fs_scheme \<Rightarrow> 'z fs_scheme" where
  "rewritten p fn recs s =
     put_node p (Text (csv_print (fn # recs))) (drop_node (tmp_path p) (put_node (tmp_path p) (Text (csv_print (fn # recs))) s))"

lemma rewritten_facts:
  assumes "table_place p s"
  shows "table_place p (rewritten p fn recs (locked p s))" "node_at p (rewritten p fn recs (locked p s)) = Some (Text (csv_print (fn # recs)))"
    "node_at q (locked p (rewritten p fn recs (locked p s))) = node_at q (rewritten p fn recs (locked p s))"
    "apart d p \<Longrightarrow> below d q \<Longrightarrow> node_at q (rewritten p fn recs (locked p s)) = node_at q (locked p s)"
proof -
  have p: "p \<noteq> lock_path p" "p \<noteq> tmp_path p" "lock_path p \<noteq> tmp_path p" "p \<noteq> []"
    using assms side_paths [of p] by (auto simp: table_place_def)
  show "table_place p (rewritten p fn recs (locked p s))"
    using locked_place [OF assms] side_paths [OF p(4)] p unfolding rewritten_def table_place_def path_isdir_def by simp
  show "node_at p (rewritten p fn recs (locked p s)) = Some (Text (csv_print (fn # recs)))" by (simp add: rewritten_def)
  show "node_at q (locked p (rewritten p fn recs (locked p s))) = node_at q (rewritten p fn recs (locked p s))"
    using p by (auto simp: rewritten_def locked_def)
  show "apart d p \<Longrightarrow> below d q \<Longrightarrow> node_at q (rewritten p fn recs (locked p s)) = node_at q (locked p s)"
    by (auto simp: rewritten_def apart_def)
qed

text \<open>A pass over a table whose entries are settled, and a pass that has nothing to look at.\<close>

lemma second_pass:
  assumes "table_place p t" "node_at p t = Some (Text (csv_print (fn # recs)))" "table_ok fn recs"
    and st: "\<And>e. settled fn d s (rows_by_id (map (dict_row fn) recs)) (map (dict_row fn) recs) e"
    and fr: "\<And>q. below d q \<Longrightarrow> node_at q t = node_at q s"
    and lk: "\<And>q. node_at q (locked p t) = node_at q t"
  shows "\<exists>u. reconcile_csv p d t = (Inr 0, u) \<and> (\<forall>q. node_at q u = node_at q t)"
proof -
  have "settled fn d (locked p t) (rows_by_id (map (dict_row fn) recs)) (map (dict_row fn) recs) e" for e
    using st [of e] settled_frame [of d "locked p t" s] lk fr by simp
  from settled_pass [OF assms(1-3) this] lk show ?thesis by blast
qed

lemma idle_pass:
  assumes "table_place p (locked p s)" "node_at p (locked p s) = Some (Text (csv_print (fn # recs)))" "table_ok fn recs"
    and "recs = [] \<or> \<not> path_isdir d (locked p s)"
  shows "\<exists>u. reconcile_csv p d (locked p s) = (Inr 0, u) \<and> (\<forall>q. node_at q u = node_at q (locked p s))"
proof -
  have "path_isdir d (locked p (locked p s)) = path_isdir d (locked p s)" by (simp add: path_isdir_def locked_twice)
  then have "reconcile_csv p d (locked p s) = (Inr 0, locked p (locked p s))"
    using assms(4) unfolding reconcile_run [OF assms(1-3)] Let_def by auto
  then show ?thesis by (auto simp: locked_twice)
qed

text \<open>What a successful pass over the entries leaves: the state unchanged, or the rows written.\<close>

lemma active_pass:
  assumes place: "table_place p s" and tab: "table_ok fn recs" and cols: "''run_id'' \<in> set fn" "''status'' \<in> set fn"
    and ms: "metrics_ok d (locked p s)"
    and fold: "foldR (entry_step fn d (rows_by_id (map (dict_row fn) recs)) (locked p s)) (map (dict_row fn) recs, 0) es = Inr (rows, k)"
    and es: "es = sort (names_in d (locked p s))"
    and res: "(if k = 0 then (Inr 0, locked p s) else seqM (write_rows p fn rows) (retM k) (locked p s)) = (Inr n, t)"
  shows "\<exists>recs'. table_ok fn recs' \<and> (\<forall>e. settled fn d (locked p s) (rows_by_id (map (dict_row fn) recs')) (map (dict_row fn) recs') e)
    \<and> (t = rewritten p fn recs' (locked p s) \<or> t = locked p s \<and> recs' = recs)"
proof -
  let ?L = "locked p s" and ?R = "map (dict_row fn) recs"
  have pL: "table_place p ?L" by (rule locked_place [OF place])
  have "\<forall>r \<in> set ?R. row_ok fn r" using read_row_ok [OF tab] by simp
  note fs = fold_settles [OF fold [unfolded es] refl this cols(2) ms]
  have ids: "map id_of rows = map id_of ?R" and ok: "\<forall>r \<in> set rows. row_ok fn r"
    and st: "settled fn d ?L (rows_by_id ?R) rows e" for e
    using fs settled_all [of d ?L fn "rows_by_id ?R" rows e] by blast+
  show ?thesis
  proof (cases "k = 0")
    case True
    then have "rows = ?R" "t = ?L" using fs res by auto
    then show ?thesis using st tab by (intro exI [of _ recs]) auto
  next
    case False
    define recs' where "recs' = map (\<lambda>r. map (written r) fn) rows"
    have "t = rewritten p fn recs' ?L"
      using res False by (simp add: seqM_def bindM_def write_rows_ok [OF pL ok] retM_def rewritten_def recs'_def)
    moreover have "map (dict_row fn) recs' = map (\<lambda>r. dict_row fn (map (written r) fn)) rows" by (simp add: recs'_def)
    then have "settled fn d ?L (rows_by_id (map (dict_row fn) recs')) (map (dict_row fn) recs') e" for e
      using settled_reread [OF tab cols ids ok st, of e] by simp
    ultimately show ?thesis using table_ok_written [OF tab ok] by (intro exI [of _ recs']) (simp add: recs'_def)
  qed
qed

text \<open>C33. Reconciling is idempotent: when a pass over a well-formed results file succeeds, a second pass
  right after it upgrades nothing and leaves every file as it is.\<close>

theorem reconcile_idempotent:
  assumes place: "table_place p s" and node: "node_at p s = Some (Text (csv_print (fn # recs)))" and tab: "table_ok fn recs"
    and cols: "''run_id'' \<in> set fn" "''status'' \<in> set fn" and ms: "metrics_ok d s" and ap: "apart d p"
    and run: "reconcile_csv p d s = (Inr n, t)"
  shows "\<exists>u. reconcile_csv p d t = (Inr 0, u) \<and> (\<forall>q. node_at q u = node_at q t)"
proof -
  let ?L = "locked p s" and ?R = "map (dict_row fn) recs"
  have pL: "table_place p ?L" by (rule locked_place [OF place])
  have "p \<noteq> lock_path p" using place side_paths [of p] by (auto simp: table_place_def)
  then have nL: "node_at p ?L = Some (Text (csv_print (fn # recs)))" using node by (simp add: node_at_locked)
  have "node_at (d @ [e, METRICS_FILE]) ?L = node_at (d @ [e, METRICS_FILE]) s" for e
    by (rule below_locked [OF ap]) (simp add: below_def)
  then have msL: "metrics_ok d ?L" using ms by (simp add: metrics_ok_def)
  note pass = run [unfolded reconcile_run [OF place node tab] Let_def]
  show ?thesis
  proof (cases "?R = [] \<or> \<not> path_isdir d ?L")
    case True
    then have "t = ?L" using pass by auto
    then show ?thesis using idle_pass [OF pL nL tab] True by simp
  next
    case False
    obtain rows k where "foldR (entry_step fn d (rows_by_id ?R) ?L) (?R, 0) (sort (names_in d ?L)) = Inr (rows, k)"
      "(if k = 0 then (Inr 0, ?L) else seqM (write_rows p fn rows) (retM k) ?L) = (Inr n, t)"
      using pass False by (auto split: sum.splits prod.splits)
    from active_pass [OF place tab cols msL this(1) refl this(2)] obtain recs' where ok: "table_ok fn recs'"
      and st: "\<And>e. settled fn d ?L (rows_by_id (map (dict_row fn) recs')) (map (dict_row fn) recs') e"
      and t: "t = rewritten p fn recs' ?L \<or> t = ?L \<and> recs' = recs" by blast
    from t have "table_place p t" "node_at p t = Some (Text (csv_print (fn # recs')))"
      "\<And>q. below d q \<Longrightarrow> node_at q t = node_at q ?L" "\<And>q. node_at q (locked p t) = node_at q t"
      using rewritten_facts [where fn = fn and recs = recs', OF place] pL nL ap by (auto simp: locked_twice)
    then show ?thesis by (intro second_pass [OF _ _ ok st])
  qed
qed

definition run_logs0 :: path where
  "run_logs0 = [''run_logs'']"

definition results1 :: fs where
  "results1 = \<lparr>fs_files =
     [(results_path0, Text (csv_print ([''run_id'', ''status'', ''tps''] #
         [[''A'', ''DOWNLOADED'', ''''], [''B'', ''DOWNLOADED'', ''''], [''C'', ''OK'', ''7'']]))),
      (run_logs0, Dir), (run_logs0 @ [''A''], Dir), (run_logs0 @ [''B''], Dir),
      (run_logs0 @ [''A'', METRICS_FILE], Json (JObj [(''tps'', JInt 120), (''extra'', JBool True)])),
      (run_logs0 @ [''B'', ERROR_MARKER], Text (''ParseError: no commits'' @ [LF]))], fs_faults = []\<rparr>"

lemma results1_pass: "fst (reconcile_csv results_path0 run_logs0 results1) = Inr 2"
  by code_simp

lemma reconcile_idempotent_witness:
  "\<exists>t. reconcile_csv results_path0 run_logs0 results1 = (Inr 2, t) \<and>
     (\<exists>u. reconcile_csv results_path0 run_logs0 t = (Inr 0, u) \<and> (\<forall>q. node_at q u = node_at q t))"
proof -
  obtain t where t: "reconcile_csv results_path0 run_logs0 results1 = (Inr 2, t)"
    using results1_pass by (metis prod.collapse)
  have files: "node_at q results1 = map_of (fs_files results1) q" for q by (simp add: node_at_def)
  have tp: "table_place results_path0 results1"
    by (simp add: table_place_def path_isdir_def node_at_def results1_def results_path0_def run_logs0_def
        lock_path_def tmp_path_def)
  have n: "node_at results_path0 results1 = Some (Text (csv_print ([''run_id'', ''status'', ''tps''] #
         [[''A'', ''DOWNLOADED'', ''''], [''B'', ''DOWNLOADED'', ''''], [''C'', ''OK'', ''7'']])))"
    by (simp add: node_at_def results1_def)
  have m: "metrics_ok run_logs0 results1"
    by (auto simp: metrics_ok_def node_at_def results1_def results_path0_def run_logs0_def plain_cell_def CR_def
        METRICS_FILE_def ERROR_MARKER_def show_int_def show_nat_no_char is_digit_def split: if_splits)
  have "\<exists>u. reconcile_csv results_path0 run_logs0 t = (Inr 0, u) \<and> (\<forall>q. node_at q u = node_at q t)"
    by (rule reconcile_idempotent [OF tp n _ _ _ m _ t])
      (simp_all add: table_ok_def no_cr_def CR_def apart_def below_def results_path0_def run_logs0_def lock_path_def tmp_path_def)
  with t show ?thesis by blast
qed
end
