(* ===== verification/Csv_Race.thy ===== *)
theory Csv_Race
  imports Prelude
begin

section \<open>Writers of the results CSV under the sidecar lock\<close>

text \<open>
  The experiment loop appends rows to the results file while the parser daemon rewrites it
  with \<open>os.replace\<close>, which puts a new inode under the path. This theory interleaves any number
  of appenders and reconcilers step by step, at the granularity of the system calls of
  \<open>append_row\<close> and \<open>reconcile_csv\<close>: acquire the lock, open, write, replace, release. A process
  may die at any point, and its lock dies with it. The flag \<open>locking\<close> switches the lock off to
  show what it is for.
\<close>

subsection \<open>States and steps\<close>

text \<open>A row is its run id with its other cells; a reconciler updates cells and keeps ids.\<close>

type_synonym 'c entry = "string \<times> 'c"

datatype 'c job = Append "'c entry" | Reconcile "string \<Rightarrow> 'c \<Rightarrow> 'c"

datatype 'c pc =
    Start
  | Acquired
  | Opened nat
  | Wrote
  | HasRead "'c entry list"
  | TmpWritten nat
  | Replaced
  | Finished
  | Dead

record 'c race =
  inode :: nat
  store :: "nat \<Rightarrow> 'c entry list"
  next_inode :: nat
  holder :: "nat option"
  pcs :: "nat \<Rightarrow> 'c pc"
  history :: "'c job list"

definition update_entry :: "(string \<Rightarrow> 'c \<Rightarrow> 'c) \<Rightarrow> 'c entry \<Rightarrow> 'c entry" where
  "update_entry u x = (fst x, u (fst x) (snd x))"

definition content :: "'c race \<Rightarrow> 'c entry list" where
  "content s = store s (inode s)"

definition goto :: "nat \<Rightarrow> 'c pc \<Rightarrow> 'c race \<Rightarrow> 'c race" where
  "goto i pc s = s\<lparr>pcs := (pcs s)(i := pc)\<rparr>"

text \<open>\<open>fcntl.flock(LOCK_EX)\<close> waits until the lock is free; without locking it never waits.\<close>

definition can_acquire :: "bool \<Rightarrow> 'c race \<Rightarrow> bool" where
  "can_acquire locking s \<longleftrightarrow> (locking \<longrightarrow> holder s = None)"

inductive race_step :: "bool \<Rightarrow> (nat \<Rightarrow> 'c job) \<Rightarrow> 'c race \<Rightarrow> 'c race \<Rightarrow> bool"
  for locking :: bool and jobs :: "nat \<Rightarrow> 'c job"
where
  acquire: "pcs s i = Start \<Longrightarrow> can_acquire locking s \<Longrightarrow>
     race_step locking jobs s (goto i Acquired (s\<lparr>holder := Some i\<rparr>))"
| open_append: "pcs s i = Acquired \<Longrightarrow> jobs i = Append r \<Longrightarrow>
     race_step locking jobs s (goto i (Opened (inode s)) s)"
| write_append: "pcs s i = Opened n \<Longrightarrow> jobs i = Append r \<Longrightarrow>
     race_step locking jobs s
       (goto i Wrote (s\<lparr>store := (store s)(n := store s n @ [r]), history := history s @ [Append r]\<rparr>))"
| read_all: "pcs s i = Acquired \<Longrightarrow> jobs i = Reconcile u \<Longrightarrow>
     race_step locking jobs s (goto i (HasRead (content s)) s)"
| write_tmp: "pcs s i = HasRead xs \<Longrightarrow> jobs i = Reconcile u \<Longrightarrow>
     race_step locking jobs s
       (goto i (TmpWritten (next_inode s))
          (s\<lparr>store := (store s)(next_inode s := map (update_entry u) xs), next_inode := Suc (next_inode s)\<rparr>))"
| os_replace: "pcs s i = TmpWritten n \<Longrightarrow> jobs i = Reconcile u \<Longrightarrow>
     race_step locking jobs s
       (goto i Replaced (s\<lparr>inode := n, history := history s @ [Reconcile u]\<rparr>))"
| release: "pcs s i \<in> {Wrote, Replaced} \<Longrightarrow>
     race_step locking jobs s (goto i Finished (s\<lparr>holder := None\<rparr>))"
| die: "pcs s i \<notin> {Finished, Dead} \<Longrightarrow>
     race_step locking jobs s (goto i Dead (s\<lparr>holder := (if holder s = Some i then None else holder s)\<rparr>))"

definition race_init :: "'c entry list \<Rightarrow> 'c race" where
  "race_init xs = \<lparr>inode = 0, store = (\<lambda>n. if n = 0 then xs else []), next_inode = 1, holder = None,
     pcs = (\<lambda>_. Start), history = []\<rparr>"

inductive race_reach :: "bool \<Rightarrow> (nat \<Rightarrow> 'c job) \<Rightarrow> 'c entry list \<Rightarrow> 'c race \<Rightarrow> bool"
  for locking :: bool and jobs :: "nat \<Rightarrow> 'c job" and xs :: "'c entry list"
where
  init: "race_reach locking jobs xs (race_init xs)"
| step: "race_reach locking jobs xs s \<Longrightarrow> race_step locking jobs s t \<Longrightarrow> race_reach locking jobs xs t"

inductive_cases race_stepE: "race_step locking jobs s t"

subsection \<open>The sequential specification\<close>

text \<open>The committed operations, one after another.\<close>

fun commit :: "'c job \<Rightarrow> 'c entry list \<Rightarrow> 'c entry list" where
  "commit (Append r) xs = xs @ [r]"
| "commit (Reconcile u) xs = map (update_entry u) xs"

definition replay :: "'c job list \<Rightarrow> 'c entry list \<Rightarrow> 'c entry list" where
  "replay js xs = fold commit js xs"

fun appended_id :: "'c job \<Rightarrow> string list" where
  "appended_id (Append r) = [fst r]"
| "appended_id (Reconcile u) = []"

lemma fst_update [simp]: "fst (update_entry u x) = fst x"
  by (simp add: update_entry_def)

lemma replay_ids: "map fst (replay js xs) = map fst xs @ concat (map appended_id js)"
proof (induction js arbitrary: xs)
  case (Cons j js)
  then show ?case by (cases j) (simp_all add: replay_def)
qed (simp add: replay_def)

lemma replay_snoc [simp]: "replay (js @ [j]) xs = commit j (replay js xs)"
  by (simp add: replay_def)

subsection \<open>The invariant of the locked system\<close>

definition critical :: "'c pc \<Rightarrow> bool" where
  "critical p \<longleftrightarrow> p \<notin> {Start, Finished, Dead}"

fun pc_ok :: "'c race \<Rightarrow> 'c job \<Rightarrow> 'c pc \<Rightarrow> bool" where
  "pc_ok s j (Opened n) = (n = inode s)"
| "pc_ok s j (HasRead ys) = (ys = content s)"
| "pc_ok s j (TmpWritten n) = (n \<noteq> inode s \<and> n < next_inode s \<and>
     (\<forall>u. j = Reconcile u \<longrightarrow> store s n = map (update_entry u) (content s)))"
| "pc_ok s j p = True"

definition race_inv :: "(nat \<Rightarrow> 'c job) \<Rightarrow> 'c entry list \<Rightarrow> 'c race \<Rightarrow> bool" where
  "race_inv jobs xs s \<longleftrightarrow>
     inode s < next_inode s \<and> content s = replay (history s) xs \<and>
     (\<forall>i. critical (pcs s i) \<longrightarrow> holder s = Some i) \<and> (\<forall>i. pc_ok s (jobs i) (pcs s i))"

lemma goto_simps [simp]:
  "inode (goto i p s) = inode s" "store (goto i p s) = store s" "next_inode (goto i p s) = next_inode s"
  "holder (goto i p s) = holder s" "pcs (goto i p s) = (pcs s)(i := p)" "history (goto i p s) = history s"
  "content (goto i p s) = content s"
  by (simp_all add: goto_def content_def)

lemma critical_simps [simp]:
  "critical Acquired" "critical (Opened n)" "critical Wrote" "critical (HasRead ys)" "critical (TmpWritten n)"
  "critical Replaced" "\<not> critical Start" "\<not> critical Finished" "\<not> critical Dead"
  by (simp_all add: critical_def)

lemma pc_ok_idle [simp]: "\<not> critical p \<Longrightarrow> pc_ok s j p"
  by (cases p) auto

text \<open>Only the holder is inside; every other process is idle.\<close>

lemma others_idle: "race_inv jobs xs s \<Longrightarrow> critical (pcs s i) \<Longrightarrow> k \<noteq> i \<Longrightarrow> \<not> critical (pcs s k)"
  unfolding race_inv_def by (metis option.inject)

text \<open>A step of the process that is inside: the others stay idle, so only its own place matters.\<close>

lemma inv_step:
  assumes inv: "race_inv jobs xs s" and idle: "\<And>k. k \<noteq> i \<Longrightarrow> \<not> critical (pcs s k)"
    and pcs: "pcs t = (pcs s)(i := p)" and own: "pc_ok t (jobs i) p" "critical p \<longrightarrow> holder t = Some i"
    and rest: "inode t < next_inode t" "content t = replay (history t) xs"
  shows "race_inv jobs xs t"
  using assms unfolding race_inv_def by auto

lemma race_inv_step:
  assumes "race_step True jobs s t" and inv: "race_inv jobs xs s"
  shows "race_inv jobs xs t"
  using assms(1)
proof (cases rule: race_step.cases)
  case (acquire i)
  then have "\<not> critical (pcs s k)" for k using inv by (auto simp: race_inv_def can_acquire_def)
  then show ?thesis
    using acquire inv by (intro inv_step [OF inv, of i]) (auto simp: race_inv_def content_def)
next
  case (open_append i r)
  note idle = others_idle [OF inv, of i]
  show ?thesis using open_append inv idle by (intro inv_step [OF inv, of i]) (auto simp: race_inv_def)
next
  case (write_append i n r)
  note idle = others_idle [OF inv, of i]
  have "n = inode s" using inv write_append(2) unfolding race_inv_def by (metis pc_ok.simps(1))
  then show ?thesis
    using write_append inv idle by (intro inv_step [OF inv, of i]) (auto simp: race_inv_def content_def)
next
  case (read_all i u)
  note idle = others_idle [OF inv, of i]
  show ?thesis using read_all inv idle by (intro inv_step [OF inv, of i]) (auto simp: race_inv_def)
next
  case (write_tmp i ys u)
  note idle = others_idle [OF inv, of i]
  have "ys = content s" using inv write_tmp(2) unfolding race_inv_def by (metis pc_ok.simps(2))
  then show ?thesis
    using write_tmp inv idle by (intro inv_step [OF inv, of i]) (auto simp: race_inv_def content_def)
next
  case (os_replace i n u)
  note idle = others_idle [OF inv, of i]
  have "pc_ok s (jobs i) (TmpWritten n)" using inv os_replace(2) unfolding race_inv_def by metis
  then show ?thesis
    using os_replace inv idle by (intro inv_step [OF inv, of i]) (auto simp: race_inv_def content_def)
next
  case (release i)
  then have "critical (pcs s i)" by auto
  note idle = others_idle [OF inv this]
  show ?thesis using release inv idle by (intro inv_step [OF inv, of i]) (auto simp: race_inv_def content_def)
next
  case (die i)
  have crit: "\<forall>k. critical (pcs s k) \<longrightarrow> holder s = Some k" using inv by (simp add: race_inv_def)
  have ok: "pc_ok t j p = pc_ok s j p" for j p unfolding die(1) by (cases p) (simp_all add: content_def)
  show ?thesis
    using inv crit unfolding race_inv_def ok unfolding die(1)
    by (auto simp: content_def)
qed

lemma race_inv_reach: "race_reach True jobs xs s \<Longrightarrow> race_inv jobs xs s"
proof (induction rule: race_reach.induct)
  case init
  show ?case by (simp add: race_inv_def race_init_def content_def replay_def)
next
  case (step s t)
  show ?case by (rule race_inv_step [OF step.hyps(2) step.IH])
qed

text \<open>An append that completed is in the history.\<close>

definition append_committed :: "(nat \<Rightarrow> 'c job) \<Rightarrow> 'c race \<Rightarrow> bool" where
  "append_committed jobs s \<longleftrightarrow>
     (\<forall>i r. pcs s i \<in> {Wrote, Finished} \<longrightarrow> jobs i = Append r \<longrightarrow> Append r \<in> set (history s))
     \<and> (\<forall>i r. jobs i = Append r \<longrightarrow> pcs s i \<noteq> Replaced)"

lemma append_committed_reach: "race_reach locking jobs xs s \<Longrightarrow> append_committed jobs s"
proof (induction rule: race_reach.induct)
  case init
  show ?case by (simp add: append_committed_def race_init_def)
next
  case (step s t)
  from step.hyps(2) step.IH show ?case
    by (cases rule: race_step.cases) (auto simp: append_committed_def split: if_splits)
qed

text \<open>C32. However appends and reconciliations interleave, and whichever writers die on the way, under the
  lock the results file is at every moment the outcome of running the committed operations one after
  another: no appended row is lost and none is duplicated or reordered.\<close>

theorem locked_no_lost_row:
  assumes "race_reach True jobs xs s"
  shows "content s = replay (history s) xs
    \<and> map fst (content s) = map fst xs @ concat (map appended_id (history s))
    \<and> (\<forall>i r. pcs s i = Finished \<longrightarrow> jobs i = Append r \<longrightarrow> fst r \<in> set (map fst (content s)))
    \<and> (\<forall>i k. critical (pcs s i) \<longrightarrow> critical (pcs s k) \<longrightarrow> i = k)"
proof -
  note inv = race_inv_reach [OF assms]
  have c: "content s = replay (history s) xs" using inv by (simp add: race_inv_def)
  have ids: "map fst (content s) = map fst xs @ concat (map appended_id (history s))"
    unfolding c by (rule replay_ids)
  have "fst r \<in> set (map fst (content s))" if "pcs s i = Finished" "jobs i = Append r" for i r
  proof -
    have "Append r \<in> set (history s)"
      using append_committed_reach [OF assms] that unfolding append_committed_def by blast
    then show ?thesis unfolding ids by force
  qed
  then show ?thesis using c ids others_idle [OF inv] by blast
qed

definition two_jobs :: "nat \<Rightarrow> nat job" where
  "two_jobs i = (if i = 0 then Append (''B'', 1) else Reconcile (\<lambda>rid c. c + 10))"

lemma step_then: "race_reach l jobs xs s \<Longrightarrow> race_step l jobs s t \<Longrightarrow> t = t' \<Longrightarrow> race_reach l jobs xs t'"
  by (blast intro: race_reach.step)

text \<open>The appender runs alone, under the lock.\<close>

lemma append_alone:
  "race_reach True two_jobs [(''A'', 0)]
     \<lparr>inode = 0, store = (\<lambda>n. if n = 0 then [(''A'', 0), (''B'', 1)] else []), next_inode = 1, holder = None,
      pcs = (\<lambda>_. Start)(0 := Finished), history = [Append (''B'', 1)]\<rparr>"
proof -
  let ?s1 = "goto 0 Acquired ((race_init [(''A'', 0 :: nat)])\<lparr>holder := Some 0\<rparr>)"
  let ?s2 = "goto 0 (Opened 0) ?s1"
  let ?s3 = "goto 0 Wrote (?s2\<lparr>store := (store ?s2)(0 := store ?s2 0 @ [(''B'', 1)]), history := history ?s2 @ [Append (''B'', 1)]\<rparr>)"
  have 1: "race_reach True two_jobs [(''A'', 0)] ?s1"
    by (rule race_reach.step [OF race_reach.init]) (rule race_step.acquire; simp add: race_init_def can_acquire_def)
  have 2: "race_reach True two_jobs [(''A'', 0)] ?s2"
    by (rule step_then [OF 1 race_step.open_append [where i = 0]]) (simp_all add: two_jobs_def race_init_def)
  have 3: "race_reach True two_jobs [(''A'', 0)] ?s3"
    by (rule race_reach.step [OF 2]) (rule race_step.write_append; simp add: two_jobs_def)
  show ?thesis
    by (rule step_then [OF 3 race_step.release [where i = 0]])
      (auto simp: goto_def race_init_def fun_eq_iff)
qed

lemma locked_no_lost_row_witness:
  "\<exists>s. race_reach True two_jobs [(''A'', 0)] s \<and> pcs s 0 = Finished
    \<and> content s = replay (history s) [(''A'', 0 :: nat)] \<and> ''B'' \<in> set (map fst (content s))"
proof -
  let ?s = "\<lparr>inode = 0, store = (\<lambda>n. if n = 0 then [(''A'', 0), (''B'', 1)] else []), next_inode = 1, holder = None,
      pcs = (\<lambda>_. Start)(0 := Finished), history = [Append (''B'', 1)]\<rparr> :: nat race"
  note n = locked_no_lost_row [OF append_alone]
  have fin: "pcs ?s 0 = Finished" by simp
  have job: "two_jobs 0 = Append (''B'', 1)" by (simp add: two_jobs_def)
  have rows: "\<forall>i r. pcs ?s i = Finished \<longrightarrow> two_jobs i = Append r \<longrightarrow> fst r \<in> set (map fst (content ?s))"
    using n by blast
  from rows [rule_format, OF fin job] have "''B'' \<in> set (map fst (content ?s))" by (simp only: fst_conv)
  with n append_alone fin show ?thesis by blast
qed

text \<open>The lock is needed: without it an append that completed can vanish, because the reconciler
  replaced the inode the appender had already opened.\<close>

theorem unlocked_loses_row:
  "\<exists>s. race_reach False two_jobs [(''A'', 0)] s \<and> pcs s 0 = Finished \<and> pcs s 1 = Finished
     \<and> two_jobs 0 = Append (''B'', 1) \<and> ''B'' \<notin> set (map fst (content s))"
proof -
  let ?s1 = "goto 0 Acquired ((race_init [(''A'', 0 :: nat)])\<lparr>holder := Some 0\<rparr>)"
  let ?s2 = "goto 0 (Opened 0) ?s1"
  let ?s3 = "goto 1 Acquired (?s2\<lparr>holder := Some 1\<rparr>)"
  let ?s4 = "goto 1 (HasRead (content ?s3)) ?s3"
  let ?s5 = "goto 1 (TmpWritten (next_inode ?s4)) (?s4\<lparr>store := (store ?s4)(next_inode ?s4 := map (update_entry (\<lambda>rid c. c + 10)) (content ?s3)),
      next_inode := Suc (next_inode ?s4)\<rparr>)"
  let ?s6 = "goto 1 Replaced (?s5\<lparr>inode := next_inode ?s4, history := history ?s5 @ [Reconcile (\<lambda>rid c. c + 10)]\<rparr>)"
  let ?s7 = "goto 0 Wrote (?s6\<lparr>store := (store ?s6)(0 := store ?s6 0 @ [(''B'', 1)]), history := history ?s6 @ [Append (''B'', 1)]\<rparr>)"
  let ?s8 = "goto 0 Finished (?s7\<lparr>holder := None\<rparr>)"
  let ?s9 = "goto 1 Finished (?s8\<lparr>holder := None\<rparr>)"
  have 1: "race_reach False two_jobs [(''A'', 0)] ?s1"
    by (rule race_reach.step [OF race_reach.init]) (rule race_step.acquire; simp add: race_init_def can_acquire_def)
  have 2: "race_reach False two_jobs [(''A'', 0)] ?s2"
    by (rule step_then [OF 1 race_step.open_append [where i = 0]]) (simp_all add: two_jobs_def race_init_def)
  have 3: "race_reach False two_jobs [(''A'', 0)] ?s3"
    by (rule race_reach.step [OF 2]) (rule race_step.acquire; simp add: race_init_def can_acquire_def)
  have 4: "race_reach False two_jobs [(''A'', 0)] ?s4"
    by (rule race_reach.step [OF 3]) (rule race_step.read_all; simp add: two_jobs_def)
  have 5: "race_reach False two_jobs [(''A'', 0)] ?s5"
    by (rule race_reach.step [OF 4]) (rule race_step.write_tmp; simp add: two_jobs_def)
  have 6: "race_reach False two_jobs [(''A'', 0)] ?s6"
    by (rule race_reach.step [OF 5]) (rule race_step.os_replace; simp add: two_jobs_def)
  have 7: "race_reach False two_jobs [(''A'', 0)] ?s7"
    by (rule race_reach.step [OF 6]) (rule race_step.write_append; simp add: two_jobs_def)
  have 8: "race_reach False two_jobs [(''A'', 0)] ?s8"
    by (rule race_reach.step [OF 7]) (rule race_step.release; simp)
  have 9: "race_reach False two_jobs [(''A'', 0)] ?s9"
    by (rule race_reach.step [OF 8]) (rule race_step.release; simp)
  have "pcs ?s9 0 = Finished" "pcs ?s9 1 = Finished" "''B'' \<notin> set (map fst (content ?s9))"
    by (simp_all add: content_def race_init_def update_entry_def)
  with 9 show ?thesis by (intro exI [of _ ?s9]) (simp add: two_jobs_def)
qed

end
