(* ===== verification/Parser_Daemon.thy ===== *)
theory Parser_Daemon
  imports Logs Csv_File
begin

section \<open>The parser daemon (benchmark/benchmark/parser_daemon.py)\<close>

text \<open>
  The daemon turns run directories marked READY into \<open>metrics.json\<close> or \<open>PARSE_ERROR\<close>, prunes
  the raw client logs afterwards, and reconciles the results CSV. Every file operation may fail
  by the fault script of the file system, so the theorems cover a disk that fills up at any
  point.
\<close>

definition READY_MARKER :: string where
  "READY_MARKER = ''READY''"

definition META_FILE :: string where
  "META_FILE = ''meta.json''"

definition RESULT_FILE :: string where
  "RESULT_FILE = ''result.txt''"

definition SUMMARY_FILE :: string where
  "SUMMARY_FILE = ''summaries.txt''"

definition KEEP_MARKERS :: "string list" where
  "KEEP_MARKERS = [''[hotstuff summary]'', ''[hotstuff steady]'', ''[hotstuff buckets]'', ''[hotstuff latsums]'']"

definition atomic_write :: "path \<Rightarrow> node \<Rightarrow> ('z fs_scheme, unit) M" where
  "atomic_write p content = seqM (write_node (tmp_path p) content) (replace_file (tmp_path p) p)"

subsection \<open>Parsing a run directory\<close>

definition client_logs :: "path \<Rightarrow> 'z fs_scheme \<Rightarrow> string list" where
  "client_logs run_dir s = glob_names run_dir ''client-'' ''.log'' s"

definition replica_logs :: "path \<Rightarrow> 'z fs_scheme \<Rightarrow> string list" where
  "replica_logs run_dir s = glob_names run_dir ''replica-'' ''.log'' s"

text \<open>\<open>LogParser.process\<close> on the files: each log is read and parsed in turn.\<close>

definition log_process :: "(int \<Rightarrow> int) \<Rightarrow> path \<Rightarrow> jval \<Rightarrow> ('z fs_scheme, log_parser) M" where
  "log_process tz run_dir meta =
     bindM (getM (path_isdir run_dir)) (\<lambda>isdir.
     if \<not> isdir then raiseM (LogParseError (''log directory does not exist: '' @ py_join ''/'' run_dir))
     else
       bindM (getM (client_logs run_dir)) (\<lambda>clients.
       if clients = [] then raiseM (LogParseError (''no client-*.log files found under '' @ py_join ''/'' run_dir))
       else
         bindM (mapM (\<lambda>n. bindM (read_text (run_dir @ [n])) (\<lambda>t. liftR (read_client_log tz t))) clients) (\<lambda>samples.
         bindM (liftR (check_samples (py_join ''/'' run_dir) samples)) (\<lambda>_.
         bindM (getM (replica_logs run_dir)) (\<lambda>replicas.
         bindM (mapM (\<lambda>n. bindM (read_text (run_dir @ [n])) (\<lambda>t. retM (read_replica_log t))) replicas) (\<lambda>booted.
         retM \<lparr>lp_client_samples = samples, lp_replica_booted = length (filter id booted),
               lp_meta = meta_dict meta\<rparr>))))))"

subsection \<open>Pruning\<close>

definition kept_lines :: "string \<Rightarrow> string \<Rightarrow> string list" where
  "kept_lines name txt =
     map (\<lambda>line. name @ '': '' @ py_rstrip line)
       (filter (\<lambda>line. \<exists>m \<in> set KEEP_MARKERS. py_in m line) (text_lines txt))"

definition summary_text :: "string list \<Rightarrow> string" where
  "summary_text lines = py_join [LF] lines @ [LF]"

text \<open>The removal loop: \<open>freed += getsize; remove\<close>, an \<open>OSError\<close> skips the file.\<close>

definition remove_sized :: "path \<Rightarrow> nat \<Rightarrow> ('z fs_scheme, nat) M" where
  "remove_sized p freed =
     (\<lambda>s. case remove_file p s of
        (Inr u, t) \<Rightarrow> (Inr (freed + (case node_at p s of None \<Rightarrow> 0 | Some n \<Rightarrow> node_size n)), t)
      | (Inl e, t) \<Rightarrow> (if is_OSError e then Inr (freed + (case node_at p s of None \<Rightarrow> 0 | Some n \<Rightarrow> node_size n)) else Inl e, t))"

definition prune_client_logs :: "path \<Rightarrow> ('z fs_scheme, nat) M" where
  "prune_client_logs run_dir =
     bindM (getM (client_logs run_dir)) (\<lambda>logs.
     if logs = [] then retM 0
     else
       bindM (catchM (bindM (mapM (\<lambda>n. bindM (read_text (run_dir @ [n])) (\<lambda>t. retM (kept_lines n t))) logs)
                        (\<lambda>ls. retM (Some (concat ls)))) is_OSError (\<lambda>e. retM None)) (\<lambda>lines.
       if lines = None \<or> lines = Some [] then retM 0
       else
         bindM (catchM (seqM (atomic_write (run_dir @ [SUMMARY_FILE]) (Text (summary_text (the lines)))) (retM True))
                  is_OSError (\<lambda>e. retM False)) (\<lambda>saved.
         if \<not> saved then retM 0
         else foldM (\<lambda>freed n. remove_sized (run_dir @ [n]) freed) 0 logs)))"

text \<open>\<open>gz\<close> is the compression of the gzip module.\<close>

definition gzip_replica_logs :: "(node \<Rightarrow> node) \<Rightarrow> path \<Rightarrow> ('z fs_scheme, unit) M" where
  "gzip_replica_logs gz run_dir =
     bindM (getM (replica_logs run_dir)) (\<lambda>logs.
     forM logs (\<lambda>n.
       catchM
         (bindM (read_node (run_dir @ [n])) (\<lambda>src.
          seqM (write_node (run_dir @ [n @ ''.gz'']) (gz src)) (remove_file (run_dir @ [n]))))
         is_OSError (\<lambda>e. retM ())))"

subsection \<open>One run directory\<close>

datatype outcome = Parsed | Failed | Skipped

text \<open>The \<open>except\<close> clause of \<open>_process_dir\<close>.\<close>

fun is_parse_failure :: "exn \<Rightarrow> bool" where
  "is_parse_failure (LogParseError _) = True"
| "is_parse_failure (IndexError _) = True"
| "is_parse_failure (AttributeError _) = True"
| "is_parse_failure (AssertionError _) = True"
| "is_parse_failure (KeyError _) = True"
| "is_parse_failure e = (is_OSError e \<or> is_ValueError e)"

definition read_meta :: "path \<Rightarrow> ('z fs_scheme, jval) M" where
  "read_meta meta_path =
     bindM (getM (path_exists meta_path)) (\<lambda>ex.
     if ex then catchM (load_json meta_path) (\<lambda>e. is_OSError e \<or> is_ValueError e) (\<lambda>e. retM (JObj []))
     else retM (JObj []))"

definition parse_and_publish :: "(int \<Rightarrow> int) \<Rightarrow> path \<Rightarrow> bool \<Rightarrow> jval \<Rightarrow> ('z fs_scheme, outcome) M" where
  "parse_and_publish tz run_dir prune meta =
     bindM (log_process tz run_dir meta) (\<lambda>logger.
     seqM (atomic_write (run_dir @ [METRICS_FILE]) (Json (JObj (result_dict logger))))
    (seqM (catchM (atomic_write (run_dir @ [RESULT_FILE]) (Text (result_text logger))) is_Exception (\<lambda>e. retM ()))
    (seqM (remove_file (run_dir @ [READY_MARKER]))
    (bindM (if prune then prune_client_logs run_dir else retM 0) (\<lambda>freed. retM Parsed)))))"

definition report_failure :: "(exn \<Rightarrow> string) \<Rightarrow> path \<Rightarrow> exn \<Rightarrow> ('z fs_scheme, outcome) M" where
  "report_failure tb run_dir e =
     seqM (catchM (atomic_write (run_dir @ [ERROR_MARKER])
             (Text (exn_name e @ '': '' @ exn_msg e @ [LF, LF] @ tb e))) is_OSError (\<lambda>_. retM ()))
    (seqM (catchM (remove_file (run_dir @ [READY_MARKER])) is_OSError (\<lambda>_. retM ()))
    (retM Failed))"

definition process_dir :: "(int \<Rightarrow> int) \<Rightarrow> (exn \<Rightarrow> string) \<Rightarrow> bool \<Rightarrow> path \<Rightarrow> ('z fs_scheme, outcome) M" where
  "process_dir tz tb prune run_dir =
     bindM (getM (\<lambda>s. (path_exists (run_dir @ [READY_MARKER]) s, path_exists (run_dir @ [METRICS_FILE]) s,
                       path_exists (run_dir @ [ERROR_MARKER]) s))) (\<lambda>(ready, metrics, error).
     if \<not> ready then retM Skipped
     else if metrics \<or> error then
       seqM (catchM (remove_file (run_dir @ [READY_MARKER])) is_OSError (\<lambda>_. retM ())) (retM Skipped)
     else
       bindM (read_meta (run_dir @ [META_FILE])) (\<lambda>meta.
       catchM (parse_and_publish tz run_dir prune meta) is_parse_failure (report_failure tb run_dir)))"

subsection \<open>The daemon\<close>

record daemon_args =
  da_run_logs_dir :: path
  da_csv_path :: "path option"
  da_prune :: bool
  da_gzip :: bool
  da_once :: bool

text \<open>\<open>_reconcile_if_possible\<close>.\<close>

definition reconcile_if_possible :: "path option \<Rightarrow> path \<Rightarrow> ('z fs_scheme, unit) M" where
  "reconcile_if_possible csv_path run_logs_dir =
     (case csv_path of
        None \<Rightarrow> retM ()
      | Some p \<Rightarrow>
          bindM (getM (path_exists p)) (\<lambda>ex.
          if \<not> ex then retM ()
          else catchM (bindM (reconcile_csv p run_logs_dir) (\<lambda>n. retM ())) is_Exception (\<lambda>e. retM ())))"

text \<open>
  One pass of the loop. A signal handler clears \<open>_running\<close>; the script \<open>running\<close> gives the value
  each test of the flag sees (an exhausted script means no signal).
\<close>

definition take_flag :: "bool list \<Rightarrow> bool \<times> bool list" where
  "take_flag running = (case running of [] \<Rightarrow> (True, []) | b # bs \<Rightarrow> (b, if b then bs else [False]))"

fun daemon_entries ::
  "(int \<Rightarrow> int) \<Rightarrow> (exn \<Rightarrow> string) \<Rightarrow> (node \<Rightarrow> node) \<Rightarrow> daemon_args \<Rightarrow> bool list \<Rightarrow> bool \<Rightarrow> string list
     \<Rightarrow> ('z fs_scheme, bool \<times> bool list) M" where
  "daemon_entries tz tb gz args running parsed_any [] = retM (parsed_any, running)"
| "daemon_entries tz tb gz args running parsed_any (entry # rest) =
     (let (go, running') = take_flag running; run_dir = da_run_logs_dir args @ [entry] in
      if \<not> go then retM (parsed_any, running')
      else
        bindM (getM (path_isdir run_dir)) (\<lambda>isdir.
        if \<not> isdir then daemon_entries tz tb gz args running' parsed_any rest
        else
          bindM (process_dir tz tb (da_prune args) run_dir) (\<lambda>out.
          seqM (whenM (out = Parsed \<and> da_gzip args) (gzip_replica_logs gz run_dir))
            (daemon_entries tz tb gz args running' (parsed_any \<or> out \<in> {Parsed, Failed}) rest))))"

definition daemon_pass ::
  "(int \<Rightarrow> int) \<Rightarrow> (exn \<Rightarrow> string) \<Rightarrow> (node \<Rightarrow> node) \<Rightarrow> daemon_args \<Rightarrow> bool list \<Rightarrow> ('z fs_scheme, bool list) M" where
  "daemon_pass tz tb gz args running =
     bindM (getM (path_isdir (da_run_logs_dir args))) (\<lambda>isdir.
     bindM (if isdir then bindM (sorted_listdir (da_run_logs_dir args)) (daemon_entries tz tb gz args running False)
            else retM (False, running)) (\<lambda>(parsed_any, running').
     seqM (whenM parsed_any (reconcile_if_possible (da_csv_path args) (da_run_logs_dir args)))
       (retM running')))"

text \<open>
  \<open>while _running\<close>, for at most \<open>passes\<close> passes: the loop ends only by a signal or with
  \<open>--once\<close>. The one-second naps between passes only test the flag again.
\<close>

fun daemon_loop ::
  "(int \<Rightarrow> int) \<Rightarrow> (exn \<Rightarrow> string) \<Rightarrow> (node \<Rightarrow> node) \<Rightarrow> daemon_args \<Rightarrow> nat \<Rightarrow> bool list \<Rightarrow> ('z fs_scheme, unit) M" where
  "daemon_loop tz tb gz args 0 running = retM ()"
| "daemon_loop tz tb gz args (Suc passes) running =
     (let (go, running') = take_flag running in
      if \<not> go then retM ()
      else bindM (daemon_pass tz tb gz args running') (\<lambda>running''.
        if da_once args then retM () else daemon_loop tz tb gz args passes running''))"

subsection \<open>The daemon survives every run directory\<close>

definition never :: "exn \<Rightarrow> bool" where
  "never e \<longleftrightarrow> False"

lemma raises_never: "raises_only never m \<Longrightarrow> raises_only E m"
  by (auto simp: raises_only_def never_def)

lemma never_raises: "raises_only never m \<Longrightarrow> \<exists>x t. m s = (Inr x, t)"
  unfolding raises_only_def never_def by (cases "fst (m s)") (metis, metis prod.collapse)

lemma catch_OS: "raises_only is_OSError m \<Longrightarrow> (\<And>e. raises_only E (h e)) \<Longrightarrow> raises_only E (catchM m is_OSError h)"
  by (rule raises_catch [where F = is_OSError]) auto

lemma catch_any: "raises_only is_OSError m \<Longrightarrow> (\<And>e. raises_only E (h e)) \<Longrightarrow> raises_only E (catchM m is_Exception h)"
  by (rule raises_catch [where F = is_OSError]) (auto simp: is_Exception_def elim: is_OSError.elims)

lemma raises_mapM [raises_intros]: "(\<And>x. x \<in> set xs \<Longrightarrow> raises_only E (f x)) \<Longrightarrow> raises_only E (mapM f xs)"
  by (induction xs) (auto intro!: raises_ret raises_bind)

lemma raises_read_text [raises_intros]: "raises_only is_OSError (read_text p)"
  unfolding read_text_def by (intro raises_intros)

lemma raises_atomic [raises_intros]: "raises_only is_OSError (atomic_write p n)"
  unfolding atomic_write_def by (intro raises_intros)

lemma OS_failure: "raises_only is_OSError m \<Longrightarrow> raises_only is_parse_failure m"
  by (erule raises_weaken) (auto elim: is_OSError.elims)

lemma float_group_error: "float_group x = Inl e \<Longrightarrow> is_ValueError e"
  by (auto simp: float_group_def bindR_Inl_iff split: option.splits pyfloat.splits)

lemma int_group_error: "int_group x = Inl e \<Longrightarrow> is_ValueError e"
  by (auto simp: int_group_def split: option.splits)

lemma mapR_error: "mapR f xs = Inl e \<Longrightarrow> \<exists>x \<in> set xs. f x = Inl e"
  by (induction xs) (auto simp: bindR_Inl_iff)

lemma parse_ts_error: "parse_ts tz s = Inl e \<Longrightarrow> is_ValueError e"
  by (auto simp: parse_ts_def Let_def split: if_splits)

lemma commit_line_total: "commit_line tz st line \<noteq> Inl e"
  using parse_ts_error float_group_error
  by (fastforce simp: commit_line_def bindR_Inl_iff split: option.splits sum.splits)

lemma client_line_error: "client_line tz st line = Inl e \<Longrightarrow> is_ValueError e"
  using commit_line_total [of tz st line e]
  by (auto simp: client_line_def bindR_Inl_iff steady_of_groups_def summary_of_groups_def
      dest!: mapR_error intro: float_group_error int_group_error split: option.splits if_splits)

lemma foldR_error: "foldR f s xs = Inl e \<Longrightarrow> \<exists>s x. x \<in> set xs \<and> f s x = Inl e"
  by (induction xs arbitrary: s) (fastforce simp: bindR_Inl_iff)+

lemma read_client_log_error: "read_client_log tz t = Inl e \<Longrightarrow> is_parse_failure e"
proof -
  assume "read_client_log tz t = Inl e"
  then have "foldR (client_line tz) client_state0 (file_lines t) = Inl e"
    by (simp add: read_client_log_def bindR_Inl_iff)
  from foldR_error [OF this] obtain st x where "client_line tz st x = Inl e" by blast
  then have "is_ValueError e" by (rule client_line_error)
  then show ?thesis by (cases e) auto
qed

lemma raises_log_process: "raises_only is_parse_failure (log_process tz run_dir meta)"
proof -
  have read: "raises_only is_parse_failure (read_text p)" for p :: path
    by (rule OS_failure [OF raises_read_text])
  have parse: "raises_only is_parse_failure (liftR (read_client_log tz t))" for t
    by (rule raises_lift) (rule read_client_log_error)
  have check: "raises_only is_parse_failure (liftR (check_samples d samples))" for d samples
    by (rule raises_lift) (auto simp: check_samples_def Let_def split: if_splits)
  have err: "raises_only is_parse_failure (raiseM (LogParseError m))" for m by (rule raises_raise) simp
  show ?thesis
    unfolding log_process_def by (auto intro!: raises_intros err read parse check)
qed

lemma raises_remove_sized: "raises_only never (remove_sized p freed)"
proof -
  have "is_OSError e" if "remove_file p s = (Inl e, t)" for s :: "'a fs_scheme" and e t
    using raises_files(4) [of p] that unfolding raises_only_def by (metis fst_conv)
  then show ?thesis by (auto simp: raises_only_def never_def remove_sized_def split: sum.splits prod.splits)
qed

lemma raises_prune: "raises_only never (prune_client_logs run_dir)"
  unfolding prune_client_logs_def
  by (auto intro!: raises_intros catch_OS raises_remove_sized)

lemma raises_report: "raises_only never (report_failure tb run_dir e)"
  unfolding report_failure_def by (intro raises_intros catch_OS)

lemma raises_read_meta: "raises_only never (read_meta p)"
proof -
  have j: "raises_only (\<lambda>e. is_OSError e \<or> is_ValueError e) (load_json p :: ('a fs_scheme, jval) M)"
    unfolding load_json_def
    by (rule raises_bind [OF raises_weaken [OF raises_files(3)]])
      (auto intro!: raises_ret raises_raise split: node.splits)
  show ?thesis
    unfolding read_meta_def
    by (auto intro!: raises_intros raises_catch [OF j])
qed

lemma raises_publish: "raises_only is_parse_failure (parse_and_publish tz run_dir prune meta)"
proof -
  have os: "raises_only is_parse_failure (atomic_write p n)" "raises_only is_parse_failure (remove_file p)" for p n
    by (rule OS_failure [OF raises_atomic], rule OS_failure [OF raises_files(4)])
  show ?thesis
    unfolding parse_and_publish_def
    by (auto intro!: raises_bind raises_seq raises_ret raises_log_process os raises_atomic
        catch_any raises_never [OF raises_prune])
qed

lemma raises_process_dir: "raises_only never (process_dir tz tb prune run_dir)"
proof -
  have "raises_only never (catchM (parse_and_publish tz run_dir prune meta) is_parse_failure (report_failure tb run_dir))" for meta
    by (rule raises_catch [OF raises_publish _ raises_report]) simp
  then show ?thesis
    unfolding process_dir_def
    by (auto intro!: raises_intros catch_OS raises_read_meta split: prod.splits)
qed

text \<open>Whatever a run directory contains and whatever file operations fail, processing it ends normally
  with one of the three outcomes: a bad run can never stop the daemon.\<close>

theorem process_dir_total: "\<exists>out t. process_dir tz tb prune run_dir s = (Inr out, t)"
  by (rule never_raises [OF raises_process_dir])

subsection \<open>What processing can touch\<close>

lemma below_member [simp]: "below d (d @ xs)"
  by (simp add: below_def)

lemma tmp_member: "tmp_path (d @ [n]) = d @ [n @ ''.tmp'']"
  by (simp add: tmp_path_def)

lemma frame_atomic [frame_intros]: "P p \<Longrightarrow> P (tmp_path p) \<Longrightarrow> keeps (only P) (atomic_write p n)"
  unfolding atomic_write_def by (intro frame.keeps_seq frame_intros)

lemma frame_log_process [frame_intros]: "keeps (only P) (log_process tz run_dir meta)"
  unfolding log_process_def
  by (auto intro!: frame.keeps_rules frame_intros)

lemma frame_read_meta [frame_intros]: "keeps (only P) (read_meta p)"
  unfolding read_meta_def by (auto intro!: frame.keeps_rules frame_intros)

lemma frame_remove_sized [frame_intros]: "P p \<Longrightarrow> keeps (only P) (remove_sized p freed)"
proof -
  assume "P p"
  then have "only P s (snd (remove_file p s))" for s :: "'a fs_scheme"
    using frame_remove unfolding keeps_def by blast
  moreover have "snd (remove_sized p freed s) = snd (remove_file p s)" for s :: "'a fs_scheme"
    by (simp add: remove_sized_def split: prod.splits sum.splits)
  ultimately show ?thesis by (simp add: keeps_def)
qed

text \<open>Where the steps before pruning write: the named outputs, never a client log.\<close>

definition output_path :: "path \<Rightarrow> path \<Rightarrow> bool" where
  "output_path run_dir p \<longleftrightarrow> (\<exists>n \<in> {METRICS_FILE, RESULT_FILE, ERROR_MARKER, SUMMARY_FILE}.
     p = run_dir @ [n] \<or> p = run_dir @ [n @ ''.tmp'']) \<or> p = run_dir @ [READY_MARKER]"

lemmas file_name_defs = METRICS_FILE_def RESULT_FILE_def ERROR_MARKER_def SUMMARY_FILE_def READY_MARKER_def META_FILE_def

lemma client_log_not_output:
  "starts_with ''client-'' n \<Longrightarrow> \<not> output_path run_dir (run_dir @ [n])"
  by (auto simp: output_path_def file_name_defs starts_with_def)

lemma output_members:
  "n \<in> {METRICS_FILE, RESULT_FILE, ERROR_MARKER, SUMMARY_FILE} \<Longrightarrow> output_path d (d @ [n])"
  "n \<in> {METRICS_FILE, RESULT_FILE, ERROR_MARKER, SUMMARY_FILE} \<Longrightarrow> output_path d (tmp_path (d @ [n]))"
  "output_path d (d @ [READY_MARKER])"
  by (auto simp: output_path_def tmp_member)

lemma frame_report: "keeps (only (output_path run_dir)) (report_failure tb run_dir e)"
  unfolding report_failure_def
  by (intro frame.keeps_rules frame_intros output_members) simp_all

lemma in_glob: "n \<in> set (glob_names d pre suf s) \<Longrightarrow> starts_with pre n \<and> ends_with suf n"
  by (simp add: glob_names_def)

lemma frame_prune:
  "keeps (only (\<lambda>p. output_path run_dir p \<or> (\<exists>n. p = run_dir @ [n] \<and> starts_with ''client-'' n \<and> ends_with ''.log'' n)))
     (prune_client_logs run_dir)"
proof -
  let ?P = "\<lambda>p. output_path run_dir p \<or> (\<exists>n. p = run_dir @ [n] \<and> starts_with ''client-'' n \<and> ends_with ''.log'' n)"
  have rest: "keeps (only ?P)
      (if logs = [] then retM 0
     else
       bindM (catchM (bindM (mapM (\<lambda>n. bindM (read_text (run_dir @ [n])) (\<lambda>t. retM (kept_lines n t))) logs)
                        (\<lambda>ls. retM (Some (concat ls)))) is_OSError (\<lambda>e. retM None)) (\<lambda>lines.
       if lines = None \<or> lines = Some [] then retM 0
       else
         bindM (catchM (seqM (atomic_write (run_dir @ [SUMMARY_FILE]) (Text (summary_text (the lines)))) (retM True))
                  is_OSError (\<lambda>e. retM False)) (\<lambda>saved.
         if \<not> saved then retM 0
         else foldM (\<lambda>freed n. remove_sized (run_dir @ [n]) freed) 0 logs)))"
    if "\<And>n. n \<in> set logs \<Longrightarrow> starts_with ''client-'' n \<and> ends_with ''.log'' n" for logs
    using that output_members(1,2) [of SUMMARY_FILE run_dir]
    by (auto intro!: frame.keeps_rules frame_intros)
  show ?thesis
    unfolding keeps_def
  proof
    fix s :: "'a fs_scheme"
    show "only ?P s (snd (prune_client_logs run_dir s))"
    using rest [of "client_logs run_dir s"] in_glob [of _ run_dir "''client-''" "''.log''" s]
    unfolding prune_client_logs_def bindM_getM client_logs_def keeps_def by blast
  qed
qed

lemma keeps_only_mono: "keeps (only P) m \<Longrightarrow> (\<And>p. P p \<Longrightarrow> Q p) \<Longrightarrow> keeps (only Q) m"
  by (auto simp: keeps_def only_def)

lemma output_below: "output_path d p \<Longrightarrow> below d p"
  by (auto simp: output_path_def)

lemma frame_process_dir: "keeps (only (below run_dir)) (process_dir tz tb prune run_dir)"
proof -
  have rep: "keeps (only (below run_dir)) (report_failure tb run_dir e)" for e
    by (rule keeps_only_mono [OF frame_report output_below])
  have pr: "keeps (only (below run_dir)) (prune_client_logs run_dir)"
    by (rule keeps_only_mono [OF frame_prune]) (auto simp: output_below)
  show ?thesis
    unfolding process_dir_def parse_and_publish_def
    by (auto intro!: frame.keeps_rules frame_intros rep pr simp: tmp_member split: prod.splits)
qed

text \<open>Processing a run directory changes nothing outside it, under any faults: the results file and the
  other runs are safe from it.\<close>

theorem process_dir_frame:
  assumes "\<not> below run_dir p"
  shows "node_at p (snd (process_dir tz tb prune run_dir s)) = node_at p s"
  using assms frame_process_dir unfolding keeps_def only_def by blast

lemma process_dir_frame_witness:
  "node_at [''out.csv''] (snd (process_dir (\<lambda>x. x) (\<lambda>e. []) True [''runs'', ''r1'']
     \<lparr>fs_files = [([''out.csv''], Text ''tps''), ([''runs'', ''r1'', ''READY''], Text [])], fs_faults = [FailOpen]\<rparr>))
   = Some (Text ''tps'')"
  by (subst process_dir_frame) (simp_all add: below_def node_at_def)

end
