(* ===== verification/Parser_Publish.thy ===== *)
theory Parser_Publish
  imports Parser_Daemon
begin

section \<open>What the parser daemon publishes, and what pruning keeps\<close>

text \<open>
  Facts about the disk after one run directory has been processed: \<open>metrics.json\<close> is complete or
  absent, client logs are deleted only after the lines the summary needs have been saved, and
  without faults every READY directory ends with exactly one of the two result files.
\<close>

subsection \<open>Reading leaves the files alone\<close>

lemma bindM_InrD: "bindM m f s = (Inr y, t) \<Longrightarrow> \<exists>x u. m s = (Inr x, u) \<and> f x u = (Inr y, t)"
  by (auto simp: bindM_def split: sum.splits prod.splits)

lemma seqM_InrD: "seqM m n s = (Inr y, t) \<Longrightarrow> \<exists>x u. m s = (Inr x, u) \<and> n u = (Inr y, t)"
  unfolding seqM_def by (rule bindM_InrD)

lemma keepsD: "keeps I m \<Longrightarrow> m s = (r, t) \<Longrightarrow> I s t"
  unfolding keeps_def by (metis snd_conv)

definition same_files :: "'z fs_scheme \<Rightarrow> 'z fs_scheme \<Rightarrow> bool" where
  "same_files s t \<longleftrightarrow> (\<forall>q. node_at q t = node_at q s)"

lemma same_only: "only (\<lambda>_. False) s t \<longleftrightarrow> same_files s t"
  by (simp add: only_def same_files_def)

definition text_at :: "path \<Rightarrow> 'z fs_scheme \<Rightarrow> string" where
  "text_at p s = translate_newlines (case node_at p s of Some (Text t) \<Rightarrow> t | Some (Json v) \<Rightarrow> json_text v | _ \<Rightarrow> [])"

lemma read_nodeD: "read_node p s = (Inr n, t) \<Longrightarrow> node_at p s = Some n \<and> n \<noteq> Dir \<and> same_files s t"
  by (auto simp: read_node_def bindM_def next_fault_def same_files_def
      split: list.splits if_splits option.splits node.splits)

lemma read_textD: "read_text p s = (Inr x, t) \<Longrightarrow> x = text_at p s \<and> same_files s t"
  using bindM_InrD [of "read_node p" _ s x t, folded read_text_def] read_nodeD [of p s _ t]
  by (fastforce simp: read_text_def retM_def text_at_def split: node.splits)

lemma mapM_readsD:
  assumes step: "\<And>n s y t. f n s = (Inr y, t) \<Longrightarrow> y = g n s \<and> same_files s t"
    and g: "\<And>n s t. same_files s t \<Longrightarrow> g n t = g n s"
    and run: "mapM f xs s = (Inr ys, t)"
  shows "ys = map (\<lambda>n. g n s) xs \<and> same_files s t"
  using run
proof (induction xs arbitrary: s ys)
  case Nil
  then show ?case by (simp add: retM_def same_files_def)
next
  case (Cons x xs)
  from bindM_InrD [OF Cons.prems [unfolded mapM.simps]]
  obtain y u where y: "f x s = (Inr y, u)" and r: "bindM (mapM f xs) (\<lambda>ys. retM (y # ys)) u = (Inr ys, t)"
    by blast
  from bindM_InrD [OF r] obtain zs where zs: "mapM f xs u = (Inr zs, t)" "ys = y # zs"
    by (auto simp: retM_def)
  have u: "y = g x s" "same_files s u" using step [OF y] by auto
  have "zs = map (\<lambda>n. g n u) xs" "same_files u t" using Cons.IH [OF zs(1)] by auto
  then show ?case using u zs(2) g [OF u(2)] by (simp add: same_files_def)
qed

lemma atomic_write_InrD:
  assumes "atomic_write p n s = (Inr x, t)"
  shows "node_at p t = Some n"
proof -
  obtain u where u: "write_node (tmp_path p) n s = (Inr (), u)" "replace_file (tmp_path p) p u = (Inr x, t)"
    using seqM_InrD [OF assms [unfolded atomic_write_def]] by auto
  have "node_at (tmp_path p) u = Some n"
    using u(1) by (auto simp: write_node_def bindM_def next_fault_def split: list.splits if_splits fault.splits)
  then show ?thesis
    using u(2) by (auto simp: replace_file_def bindM_def next_fault_def split: list.splits if_splits)
qed

lemma atomic_write_InlD:
  assumes "atomic_write p n s = (Inl e, t)" "p \<noteq> []"
  shows "node_at p t = node_at p s"
proof -
  have np: "tmp_path p \<noteq> p" by (rule side_paths(2) [OF assms(2)])
  consider "write_node (tmp_path p) n s = (Inl e, t)"
    | u where "write_node (tmp_path p) n s = (Inr (), u)" "replace_file (tmp_path p) p u = (Inl e, t)"
    using assms(1) unfolding atomic_write_def seqM_def bindM_def by (auto split: sum.splits prod.splits)
  then show ?thesis
  proof cases
    case 1
    from keepsD [OF frame_write [of "\<lambda>q. q = tmp_path p"] 1] np show ?thesis by (simp add: only_def)
  next
    case 2
    from keepsD [OF frame_write [of "\<lambda>q. q = tmp_path p"] 2(1)] np
    have u: "node_at p u = node_at p s" by (simp add: only_def)
    have "t = u \<or> (\<exists>r. t = u\<lparr>fs_faults := r\<rparr>)"
      using 2(2) by (auto simp: replace_file_def bindM_def next_fault_def split: list.splits if_splits option.splits)
    then show ?thesis using u by auto
  qed
qed

lemma names_in_iff: "n \<in> set (names_in d s) \<longleftrightarrow> node_at (d @ [n]) s \<noteq> None"
proof
  assume "n \<in> set (names_in d s)"
  then obtain p where "p \<in> set (dict_keys (fs_files s))" "p \<noteq> []" "butlast p = d" "last p = n"
    by (auto simp: names_in_def)
  then have "d @ [n] \<in> set (dict_keys (fs_files s))" by (metis append_butlast_last_id)
  then show "node_at (d @ [n]) s \<noteq> None" unfolding node_at_def dict_get_in_keys .
next
  assume "node_at (d @ [n]) s \<noteq> None"
  then have "d @ [n] \<in> set (dict_keys (fs_files s))" unfolding node_at_def dict_get_in_keys .
  then have "last (d @ [n]) \<in> last ` {p \<in> set (dict_keys (fs_files s)). p \<noteq> [] \<and> butlast p = d}"
    by (intro imageI) simp
  then show "n \<in> set (names_in d s)" by (simp add: names_in_def)
qed

lemma glob_cong:
  assumes "\<And>n. starts_with pre n \<Longrightarrow> ends_with suf n \<Longrightarrow> (node_at (d @ [n]) t = None) = (node_at (d @ [n]) s = None)"
  shows "glob_names d pre suf t = glob_names d pre suf s"
proof (rule sorted_distinct_set_unique)
  show "set (glob_names d pre suf t) = set (glob_names d pre suf s)"
    using assms unfolding glob_names_def by (fastforce simp: names_in_iff)
qed (simp_all add: glob_names_def names_in_def)

definition client_path :: "path \<Rightarrow> path \<Rightarrow> bool" where
  "client_path d p \<longleftrightarrow> (\<exists>n. p = d @ [n] \<and> starts_with ''client-'' n \<and> ends_with ''.log'' n)"

text \<open>The summary of all client logs of a directory, as pruning writes it.\<close>

definition kept_summary :: "path \<Rightarrow> 'z fs_scheme \<Rightarrow> string list" where
  "kept_summary d s = concat (map (\<lambda>n. kept_lines n (text_at (d @ [n]) s)) (client_logs d s))"

lemma kept_summary_cong:
  assumes "\<And>p. client_path d p \<Longrightarrow> node_at p t = node_at p s"
  shows "kept_summary d t = kept_summary d s"
proof -
  have c: "client_logs d t = client_logs d s"
    unfolding client_logs_def by (rule glob_cong) (metis assms client_path_def)
  have "text_at (d @ [n]) t = text_at (d @ [n]) s" if "n \<in> set (client_logs d s)" for n
  proof -
    have "client_path d (d @ [n])" using in_glob that unfolding client_logs_def client_path_def by blast
    with assms show ?thesis by (simp add: text_at_def)
  qed
  then show ?thesis unfolding kept_summary_def c by (simp cong: map_cong)
qed

lemma client_not_output: "client_path d p \<Longrightarrow> \<not> output_path d p"
  using client_log_not_output by (auto simp: client_path_def)

lemma remove_loop_frame:
  "keeps (only (client_path d)) (foldM (\<lambda>freed n. remove_sized (d @ [n]) freed) k ns)"
  if "\<And>n. n \<in> set ns \<Longrightarrow> client_path d (d @ [n])"
  using that by (auto intro!: frame.keeps_foldM frame_remove_sized)

text \<open>Pruning either leaves every client log alone or has saved their summary first.\<close>

lemma retM_apply: "retM x s = (Inr x, s)"
  by (simp add: retM_def)

lemma catch_OS_cases:
  assumes "raises_only is_OSError m"
  obtains (ok) x t where "m s = (Inr x, t)" "catchM m is_OSError (\<lambda>e. retM c) s = (Inr x, t)"
    | (failed) e t where "m s = (Inl e, t)" "catchM m is_OSError (\<lambda>e. retM c) s = (Inr c, t)"
  using assms by (cases "m s"; cases "fst (m s)") (auto simp: raises_only_def catchM_def retM_def dest: spec [of _ s])

definition read_kept :: "path \<Rightarrow> string list \<Rightarrow> ('z fs_scheme, string list option) M" where
  "read_kept d logs =
     bindM (mapM (\<lambda>n. bindM (read_text (d @ [n])) (\<lambda>t. retM (kept_lines n t))) logs) (\<lambda>ls. retM (Some (concat ls)))"

lemma read_keptD:
  assumes "read_kept d logs s = (Inr ls, t)"
  shows "ls = Some (concat (map (\<lambda>n. kept_lines n (text_at (d @ [n]) s)) logs)) \<and> same_files s t"
proof -
  from bindM_InrD [OF assms [unfolded read_kept_def]] obtain yss
    where m: "mapM (\<lambda>n. bindM (read_text (d @ [n])) (\<lambda>t. retM (kept_lines n t))) logs s = (Inr yss, t)"
      and ls: "ls = Some (concat yss)"
    by (auto simp: retM_def)
  have "yss = map (\<lambda>n. kept_lines n (text_at (d @ [n]) s)) logs \<and> same_files s t"
  proof (rule mapM_readsD [OF _ _ m])
    fix n y and s' t' :: "'a fs_scheme"
    assume "bindM (read_text (d @ [n])) (\<lambda>t. retM (kept_lines n t)) s' = (Inr y, t')"
    from bindM_InrD [OF this] show "y = kept_lines n (text_at (d @ [n]) s') \<and> same_files s' t'"
      by (auto dest!: read_textD simp: retM_def)
  qed (simp add: text_at_def same_files_def)
  with ls show ?thesis by simp
qed

definition save_summary :: "path \<Rightarrow> string list \<Rightarrow> ('z fs_scheme, bool) M" where
  "save_summary d ls = seqM (atomic_write (d @ [SUMMARY_FILE]) (Text (summary_text ls))) (retM True)"

lemma prune_unfold:
  "prune_client_logs d s =
     (if client_logs d s = [] then (Inr 0, s)
      else bindM (catchM (read_kept d (client_logs d s)) is_OSError (\<lambda>e. retM None)) (\<lambda>lines.
        if lines = None \<or> lines = Some [] then retM 0
        else bindM (catchM (save_summary d (the lines)) is_OSError (\<lambda>e. retM False)) (\<lambda>saved.
          if \<not> saved then retM 0 else foldM (\<lambda>freed n. remove_sized (d @ [n]) freed) 0 (client_logs d s))) s)"
  unfolding prune_client_logs_def read_kept_def save_summary_def by (simp add: retM_apply)

lemma prune_saves:
  assumes run: "prune_client_logs d s = (r, t)" and p: "client_path d p" "node_at p t \<noteq> node_at p s"
  shows "kept_summary d s \<noteq> [] \<and> node_at (d @ [SUMMARY_FILE]) t = Some (Text (summary_text (kept_summary d s)))"
proof -
  let ?logs = "client_logs d s"
  have cl: "client_path d (d @ [n])" if "n \<in> set ?logs" for n
    using that in_glob unfolding client_logs_def client_path_def by blast
  have ne: "?logs \<noteq> []" using run p(2) by (auto simp: prune_unfold)
  have os: "raises_only is_OSError (read_kept d ?logs)" "raises_only is_OSError (save_summary d ls)" for ls
    unfolding read_kept_def save_summary_def by (intro raises_intros)+
  have frame: "keeps (only (\<lambda>_. False)) (read_kept d ?logs)" "keeps (only (output_path d)) (save_summary d ls)" for ls
    unfolding read_kept_def save_summary_def
    using output_members(1,2) [of SUMMARY_FILE d] by (auto intro!: frame.keeps_rules frame_intros)
  show ?thesis
  proof (cases rule: catch_OS_cases [OF os(1), where s = s and c = None, case_names ok failed])
    case (failed e u)
    with run ne frame(1) have "r = Inr 0" "node_at p t = node_at p s"
      by (auto simp: prune_unfold bindM_def retM_def dest!: keepsD simp: only_def)
    with p(2) show ?thesis by simp
  next
    case (ok lines u)
    from read_keptD [OF ok(1)] have ls: "lines = Some (kept_summary d s)" and u: "same_files s u"
      by (simp_all add: kept_summary_def)
    show ?thesis
    proof (cases "kept_summary d s = []")
      case True
      with run ne ok(2) ls u p(2) show ?thesis by (simp add: prune_unfold bindM_def retM_def same_files_def)
    next
      case False
      show ?thesis
      proof (cases rule: catch_OS_cases [OF os(2) [of "kept_summary d s"], where s = u and c = False, case_names ok failed])
        case (failed e v)
        with run ne ok(2) ls False have "t = v" by (simp add: prune_unfold bindM_def retM_def)
        with keepsD [OF frame(2) failed(1)] u p client_not_output show ?thesis
          by (auto simp: only_def same_files_def)
      next
        case (ok saved v)
        from seqM_InrD [OF ok(1) [unfolded save_summary_def]]
        have sm: "saved" "node_at (d @ [SUMMARY_FILE]) v = Some (Text (summary_text (kept_summary d s)))"
          by (auto simp: retM_def dest: atomic_write_InrD)
        have "foldM (\<lambda>freed n. remove_sized (d @ [n]) freed) 0 ?logs v = (r, t)"
          using run ne \<open>catchM (read_kept d ?logs) is_OSError (\<lambda>e. retM None) s = (Inr lines, u)\<close> ls False ok(2) sm(1)
          by (simp add: prune_unfold bindM_def)
        from keepsD [OF remove_loop_frame [OF cl] this] sm(2) False show ?thesis
          by (simp add: only_def client_path_def SUMMARY_FILE_def starts_with_def)
      qed
    qed
  qed
qed

subsection \<open>The disk after one run directory\<close>

definition disk_process :: "(int \<Rightarrow> int) \<Rightarrow> path \<Rightarrow> jval \<Rightarrow> 'z fs_scheme \<Rightarrow> log_parser res" where
  "disk_process tz d meta s =
     process tz (py_join ''/'' d) (path_isdir d s) (map (\<lambda>n. text_at (d @ [n]) s) (client_logs d s))
       (map (\<lambda>n. text_at (d @ [n]) s) (replica_logs d s)) meta"

lemma same_files_cong:
  "same_files s t \<Longrightarrow> text_at p t = text_at p s"
  "same_files s t \<Longrightarrow> path_isdir p t = path_isdir p s"
  "same_files s t \<Longrightarrow> path_exists p t = path_exists p s"
  by (simp_all add: same_files_def text_at_def path_isdir_def path_exists_def)

lemma same_files_glob: "same_files s t \<Longrightarrow> glob_names d pre suf t = glob_names d pre suf s"
  by (rule glob_cong) (simp add: same_files_def)

lemma same_files_trans: "same_files s t \<Longrightarrow> same_files t u \<Longrightarrow> same_files s u"
  by (simp add: same_files_def)

lemma liftRD: "liftR r s = (Inr x, t) \<Longrightarrow> r = Inr x \<and> t = s"
  by (simp add: liftR_def)

lemma mapM_parseD:
  assumes "mapM (\<lambda>n. bindM (read_text (d @ [n])) (\<lambda>t. liftR (f t))) ns s = (Inr ys, t)"
  shows "mapR f (map (\<lambda>n. text_at (d @ [n]) s) ns) = Inr ys \<and> same_files s t"
  using assms
proof (induction ns arbitrary: s ys)
  case Nil
  then show ?case by (simp add: retM_def same_files_def)
next
  case (Cons n ns)
  from bindM_InrD [OF Cons.prems [unfolded mapM.simps]]
  obtain y u where y: "bindM (read_text (d @ [n])) (\<lambda>t. liftR (f t)) s = (Inr y, u)"
    and r: "bindM (mapM (\<lambda>n. bindM (read_text (d @ [n])) (\<lambda>t. liftR (f t))) ns) (\<lambda>ys. retM (y # ys)) u = (Inr ys, t)"
    by blast
  from bindM_InrD [OF y] have fy: "f (text_at (d @ [n]) s) = Inr y" "same_files s u"
    by (auto dest!: read_textD liftRD)
  from bindM_InrD [OF r] obtain zs where
    z: "mapM (\<lambda>n. bindM (read_text (d @ [n])) (\<lambda>t. liftR (f t))) ns u = (Inr zs, t)" "ys = y # zs"
    by (auto simp: retM_def)
  from Cons.IH [OF z(1)] fy z(2) show ?case
    by (simp add: same_files_cong(1) [OF fy(2)] same_files_trans [OF fy(2)])
qed

lemma read_allD:
  fixes s :: "'z fs_scheme"
  assumes "mapM (\<lambda>n. bindM (read_text (d @ [n])) (\<lambda>t. retM (g t))) ns s = (Inr ys, t)"
  shows "ys = map (\<lambda>n. g (text_at (d @ [n]) s)) ns \<and> same_files s t"
proof (rule mapM_readsD [where g = "\<lambda>n s. g (text_at (d @ [n]) s)", OF _ _ assms])
  fix n y and s' t' :: "'z fs_scheme"
  assume "bindM (read_text (d @ [n])) (\<lambda>t. retM (g t)) s' = (Inr y, t')"
  from bindM_InrD [OF this] show "y = g (text_at (d @ [n]) s') \<and> same_files s' t'"
    by (auto dest!: read_textD simp: retM_def)
qed (simp add: same_files_cong)

text \<open>Whatever faults happen, a parse that succeeds is the parse of the log files as they are.\<close>

lemma log_process_disk:
  assumes "log_process tz d meta s = (Inr lp, t)"
  shows "disk_process tz d meta s = Inr lp \<and> same_files s t"
proof -
  have d: "path_isdir d s" "client_logs d s \<noteq> []"
    using assms by (auto simp: log_process_def raiseM_def split: if_splits)
  from d assms have "bindM (mapM (\<lambda>n. bindM (read_text (d @ [n])) (\<lambda>t. liftR (read_client_log tz t))) (client_logs d s))
      (\<lambda>samples. bindM (liftR (check_samples (py_join ''/'' d) samples)) (\<lambda>_.
         bindM (getM (replica_logs d)) (\<lambda>replicas.
         bindM (mapM (\<lambda>n. bindM (read_text (d @ [n])) (\<lambda>t. retM (read_replica_log t))) replicas) (\<lambda>booted.
         retM \<lparr>lp_client_samples = samples, lp_replica_booted = length (filter id booted),
               lp_meta = meta_dict meta\<rparr>)))) s = (Inr lp, t)"
    by (simp add: log_process_def)
  from bindM_InrD [OF this] obtain samples u where
    sm: "mapM (\<lambda>n. bindM (read_text (d @ [n])) (\<lambda>t. liftR (read_client_log tz t))) (client_logs d s) s = (Inr samples, u)"
    and r: "bindM (liftR (check_samples (py_join ''/'' d) samples)) (\<lambda>_.
         bindM (getM (replica_logs d)) (\<lambda>replicas.
         bindM (mapM (\<lambda>n. bindM (read_text (d @ [n])) (\<lambda>t. retM (read_replica_log t))) replicas) (\<lambda>booted.
         retM \<lparr>lp_client_samples = samples, lp_replica_booted = length (filter id booted),
               lp_meta = meta_dict meta\<rparr>))) u = (Inr lp, t)"
    by blast
  from mapM_parseD [OF sm] have s1: "mapR (read_client_log tz) (map (\<lambda>n. text_at (d @ [n]) s) (client_logs d s)) = Inr samples"
    "same_files s u" by auto
  from bindM_InrD [OF r] have ck: "check_samples (py_join ''/'' d) samples = Inr ()"
    and r2: "bindM (mapM (\<lambda>n. bindM (read_text (d @ [n])) (\<lambda>t. retM (read_replica_log t))) (replica_logs d u)) (\<lambda>booted.
         retM \<lparr>lp_client_samples = samples, lp_replica_booted = length (filter id booted), lp_meta = meta_dict meta\<rparr>) u = (Inr lp, t)"
    by (auto dest!: liftRD)
  from bindM_InrD [OF r2] obtain bs where
    "mapM (\<lambda>n. bindM (read_text (d @ [n])) (\<lambda>t. retM (read_replica_log t))) (replica_logs d u) u = (Inr bs, t)"
    "lp = \<lparr>lp_client_samples = samples, lp_replica_booted = length (filter id bs), lp_meta = meta_dict meta\<rparr>"
    by (auto simp: retM_def)
  with read_allD [OF this(1)] have bs: "bs = map (\<lambda>n. read_replica_log (text_at (d @ [n]) s)) (replica_logs d s)"
    and t: "same_files s t" and lp: "lp = \<lparr>lp_client_samples = samples, lp_replica_booted = length (filter id bs), lp_meta = meta_dict meta\<rparr>"
    using same_files_cong(1) [OF s1(2)] same_files_glob [OF s1(2)] same_files_trans [OF s1(2)]
    by (simp_all add: replica_logs_def)
  have "length (filter id bs) = length (filter read_replica_log (map (\<lambda>n. text_at (d @ [n]) s) (replica_logs d s)))"
    unfolding bs by (simp add: filter_map comp_def)
  with d s1(1) ck t lp show ?thesis by (simp add: disk_process_def process_def)
qed

subsection \<open>Published before pruned\<close>

definition at_file :: "path \<Rightarrow> string \<Rightarrow> path \<Rightarrow> bool" where
  "at_file d n p \<longleftrightarrow> p = d @ [n] \<or> p = d @ [n @ ''.tmp'']"

lemma at_file_iff [simp]:
  "at_file d n (d @ [m]) \<longleftrightarrow> m = n \<or> m = n @ ''.tmp''"
  by (auto simp: at_file_def)

lemma frame_atomic_at: "keeps (only (at_file d n)) (atomic_write (d @ [n]) x)"
  by (rule frame_atomic) (simp_all add: at_file_def tmp_member)

lemma frame_prune_tight: "keeps (only (\<lambda>p. at_file d SUMMARY_FILE p \<or> client_path d p)) (prune_client_logs d)"
proof -
  let ?P = "\<lambda>p. at_file d SUMMARY_FILE p \<or> client_path d p"
  have k: "keeps (only ?P) (read_kept d logs)" "keeps (only ?P) (save_summary d ls)" for logs ls
    unfolding read_kept_def save_summary_def
    by (auto intro!: frame.keeps_rules frame_intros simp: tmp_member)
  have rest: "keeps (only ?P) (bindM (catchM (read_kept d logs) is_OSError (\<lambda>e. retM None)) (\<lambda>lines.
        if lines = None \<or> lines = Some [] then retM 0
        else bindM (catchM (save_summary d (the lines)) is_OSError (\<lambda>e. retM False)) (\<lambda>saved.
          if \<not> saved then retM 0 else foldM (\<lambda>freed n. remove_sized (d @ [n]) freed) 0 logs)))"
    if "\<And>n. n \<in> set logs \<Longrightarrow> client_path d (d @ [n])" for logs
    using that by (auto intro!: frame.keeps_rules frame_remove_sized k)
  have "client_path d (d @ [n])" if "n \<in> set (client_logs d s)" for n and s :: "'a fs_scheme"
    using that in_glob unfolding client_logs_def client_path_def by blast
  then have "only ?P s (snd (prune_client_logs d s))" for s :: "'a fs_scheme"
    using rest [of "client_logs d s"] unfolding keeps_def prune_unfold by (auto simp: only_refl)
  then show ?thesis unfolding keeps_def ..
qed

text \<open>The steps of \<open>_process_dir\<close> after \<open>metrics.json\<close> is written.\<close>

definition publish_tail :: "path \<Rightarrow> bool \<Rightarrow> log_parser \<Rightarrow> ('z fs_scheme, outcome) M" where
  "publish_tail d prune lp =
     seqM (catchM (atomic_write (d @ [RESULT_FILE]) (Text (result_text lp))) is_Exception (\<lambda>e. retM ()))
    (seqM (remove_file (d @ [READY_MARKER]))
    (bindM (if prune then prune_client_logs d else retM 0) (\<lambda>freed. retM Parsed)))"

text \<open>Every client log is as it was, or its summary is on disk.\<close>

definition logs_safe :: "path \<Rightarrow> 'z fs_scheme \<Rightarrow> 'z fs_scheme \<Rightarrow> bool" where
  "logs_safe d s t \<longleftrightarrow>
     (\<forall>p. client_path d p \<longrightarrow> node_at p t = node_at p s) \<or>
     (kept_summary d s \<noteq> [] \<and> node_at (d @ [SUMMARY_FILE]) t = Some (Text (summary_text (kept_summary d s))))"

lemma remove_fileD: "remove_file p s = (Inr x, t) \<Longrightarrow> node_at p t = None"
  by (auto simp: remove_file_def bindM_def next_fault_def split: list.splits if_splits option.splits node.splits)

lemma prune_safe: "logs_safe d s (snd (prune_client_logs d s))"
  using prune_saves [of d s "fst (prune_client_logs d s)" "snd (prune_client_logs d s)"]
  unfolding logs_safe_def by auto

lemma logs_safe_cong:
  "(\<And>p. client_path d p \<Longrightarrow> node_at p u = node_at p s) \<Longrightarrow> logs_safe d u t \<Longrightarrow> logs_safe d s t"
  using kept_summary_cong [of d u s] unfolding logs_safe_def by auto

lemma client_path_names:
  "client_path d p \<Longrightarrow> n \<in> {METRICS_FILE, RESULT_FILE, ERROR_MARKER, SUMMARY_FILE} \<Longrightarrow> \<not> at_file d n p"
  "client_path d p \<Longrightarrow> p \<noteq> d @ [READY_MARKER]"
  by (auto simp: client_path_def at_file_def file_name_defs starts_with_def)

lemma tail_frame:
  "keeps (only (\<lambda>p. at_file d RESULT_FILE p \<or> p = d @ [READY_MARKER] \<or> at_file d SUMMARY_FILE p \<or> client_path d p))
     (publish_tail d prune lp)"
  unfolding publish_tail_def
  by (auto intro!: frame.keeps_rules keeps_only_mono [OF frame_atomic_at] keeps_only_mono [OF frame_prune_tight]
      frame_remove)

lemma tail_steps:
  assumes "publish_tail d prune lp v = (r, t)"
  shows "logs_safe d v t \<and> (\<forall>x. r = Inr x \<longrightarrow> x = Parsed \<and> node_at (d @ [READY_MARKER]) t = None)"
proof -
  obtain rr u where res: "catchM (atomic_write (d @ [RESULT_FILE]) (Text (result_text lp))) is_Exception (\<lambda>e. retM ()) v = (rr, u)"
    by (meson surj_pair)
  have "keeps (only (at_file d RESULT_FILE)) (catchM (atomic_write (d @ [RESULT_FILE]) (Text (result_text lp))) is_Exception (\<lambda>e. retM ()))"
    by (intro frame.keeps_catch frame.keeps_ret frame_atomic_at)
  from keepsD [OF this res] have u: "node_at p u = node_at p v" if "client_path d p" for p
    using client_path_names(1) [OF that, of RESULT_FILE] by (simp add: only_def)
  obtain rd w where rm: "remove_file (d @ [READY_MARKER]) u = (rd, w)" by (meson surj_pair)
  from keepsD [OF frame_remove [of "\<lambda>p. p = d @ [READY_MARKER]"] rm]
  have w: "node_at p w = node_at p v" if "client_path d p" for p
    using client_path_names(2) [OF that] u [OF that] by (simp add: only_def)
  show ?thesis
  proof (cases "\<exists>x y. rr = Inr x \<and> rd = Inr y \<and> prune")
    case True
    then have "t = snd (prune_client_logs d w)" and gone: "node_at (d @ [READY_MARKER]) w = None"
      using assms res rm remove_fileD [of _ u _ w]
      by (auto simp: publish_tail_def seqM_def bindM_def retM_def split: sum.splits prod.splits)
    moreover have "node_at (d @ [READY_MARKER]) t = node_at (d @ [READY_MARKER]) w"
    proof -
      have "\<not> (at_file d SUMMARY_FILE (d @ [READY_MARKER]) \<or> client_path d (d @ [READY_MARKER]))"
        using client_path_names(2) [of d "d @ [READY_MARKER]"] by (auto simp: file_name_defs)
      with frame_prune_tight [of d] \<open>t = _\<close> show ?thesis unfolding keeps_def only_def by blast
    qed
    moreover have "\<forall>x. r = Inr x \<longrightarrow> x = Parsed"
      using assms by (auto simp: publish_tail_def seqM_def bindM_def retM_def split: sum.splits prod.splits)
    ultimately show ?thesis using prune_safe [of d w] logs_safe_cong [OF w] by simp
  next
    case False
    then have "t = u \<and> (\<exists>e. r = Inl e) \<or> t = w \<and> (r = Inr Parsed \<and> (\<exists>y. rd = Inr y) \<or> (\<exists>e. r = Inl e))"
      using assms res rm by (auto simp: publish_tail_def seqM_def bindM_def retM_def split: sum.splits prod.splits if_splits)
    with u w rm remove_fileD show ?thesis by (auto simp: logs_safe_def)
  qed
qed

lemma publish_split:
  "parse_and_publish tz d prune meta =
     bindM (log_process tz d meta) (\<lambda>lp. seqM (atomic_write (d @ [METRICS_FILE]) (Json (JObj (result_dict lp)))) (publish_tail d prune lp))"
  by (simp add: parse_and_publish_def publish_tail_def)

definition logs_intact :: "path \<Rightarrow> 'z fs_scheme \<Rightarrow> 'z fs_scheme \<Rightarrow> bool" where
  "logs_intact d s t \<longleftrightarrow> (\<forall>p. client_path d p \<longrightarrow> node_at p t = node_at p s)"

text \<open>The metrics document on disk is the complete result of the parse of the logs as they were.\<close>

definition published :: "(int \<Rightarrow> int) \<Rightarrow> path \<Rightarrow> jval \<Rightarrow> 'z fs_scheme \<Rightarrow> 'z fs_scheme \<Rightarrow> bool" where
  "published tz d meta s t \<longleftrightarrow>
     (\<exists>lp. disk_process tz d meta s = Inr lp \<and> node_at (d @ [METRICS_FILE]) t = Some (Json (JObj (result_dict lp))))"

lemma metrics_not_tail:
  "\<not> (at_file d RESULT_FILE (d @ [METRICS_FILE]) \<or> d @ [METRICS_FILE] = d @ [READY_MARKER]
     \<or> at_file d SUMMARY_FILE (d @ [METRICS_FILE]) \<or> client_path d (d @ [METRICS_FILE]))"
  "\<not> (at_file d RESULT_FILE (d @ [ERROR_MARKER]) \<or> d @ [ERROR_MARKER] = d @ [READY_MARKER]
     \<or> at_file d SUMMARY_FILE (d @ [ERROR_MARKER]) \<or> client_path d (d @ [ERROR_MARKER]))"
  by (auto simp: file_name_defs client_path_def starts_with_def)

lemma publish_outcome:
  assumes "parse_and_publish tz d prune meta s = (r, t)"
  shows "node_at (d @ [METRICS_FILE]) t = node_at (d @ [METRICS_FILE]) s \<and> logs_intact d s t \<and> (\<exists>e. r = Inl e)
    \<or> published tz d meta s t \<and> logs_safe d s t
      \<and> (\<forall>x. r = Inr x \<longrightarrow> x = Parsed \<and> node_at (d @ [READY_MARKER]) t = None)"
proof -
  obtain pl u where lg: "log_process tz d meta s = (pl, u)" by (meson surj_pair)
  have u: "same_files s u" using keepsD [OF frame_log_process [where P = "\<lambda>_. False"] lg] by (simp add: same_only)
  show ?thesis
  proof (cases pl)
    case (Inl e)
    with assms lg have "t = u" "r = Inl e" by (simp_all add: publish_split bindM_def)
    with u show ?thesis by (simp add: same_files_def logs_intact_def)
  next
    case (Inr lp)
    from log_process_disk [OF lg [unfolded Inr]] have dp: "disk_process tz d meta s = Inr lp" by simp
    obtain ra v where aw: "atomic_write (d @ [METRICS_FILE]) (Json (JObj (result_dict lp))) u = (ra, v)" by (meson surj_pair)
    have v: "node_at p v = node_at p s" if "client_path d p" for p
      using keepsD [OF frame_atomic_at aw] client_path_names(1) [OF that, of METRICS_FILE] u
      by (simp add: only_def same_files_def)
    show ?thesis
    proof (cases ra)
      case (Inl e)
      with assms lg aw \<open>pl = Inr lp\<close> have "t = v" "r = Inl e" by (simp_all add: publish_split bindM_def seqM_def)
      with atomic_write_InlD [OF aw [unfolded Inl]] v u show ?thesis by (simp add: logs_intact_def same_files_def)
    next
      case (Inr x)
      with assms lg aw \<open>pl = Inr lp\<close> have tl: "publish_tail d prune lp v = (r, t)"
        by (simp add: publish_split bindM_def seqM_def)
      have "node_at (d @ [METRICS_FILE]) t = node_at (d @ [METRICS_FILE]) v"
        using keepsD [OF tail_frame tl] metrics_not_tail(1) [of d] unfolding only_def by blast
      with atomic_write_InrD [OF aw [unfolded Inr]] dp tail_steps [OF tl] logs_safe_cong [OF v]
      show ?thesis by (auto simp: published_def)
    qed
  qed
qed

lemma report_frame_tight:
  "keeps (only (\<lambda>p. at_file d ERROR_MARKER p \<or> p = d @ [READY_MARKER])) (report_failure tb d e)"
  unfolding report_failure_def
  by (auto intro!: frame.keeps_rules keeps_only_mono [OF frame_atomic_at] frame_remove)

lemma report_keeps:
  assumes "report_failure tb d e s = (r, t)"
  shows "node_at (d @ [METRICS_FILE]) t = node_at (d @ [METRICS_FILE]) s" "logs_intact d s t"
    "node_at (d @ [SUMMARY_FILE]) t = node_at (d @ [SUMMARY_FILE]) s"
  using keepsD [OF report_frame_tight assms] client_path_names [of d] unfolding only_def logs_intact_def
  by (auto simp: file_name_defs)

lemma read_metaD:
  assumes "read_meta p s = (Inr m, t)"
  shows "same_files s t \<and> (m = JObj [] \<or> node_at p s = Some (Json m))"
proof
  show "same_files s t"
    using keepsD [OF frame_read_meta [where P = "\<lambda>_. False"] assms] by (simp add: same_only)
  show "m = JObj [] \<or> node_at p s = Some (Json m)"
    using assms
    by (auto simp: read_meta_def retM_def catchM_def load_json_def bindM_def raiseM_def getM_def
        dest!: read_nodeD split: if_splits sum.splits prod.splits node.splits)
qed

lemma process_fresh:
  assumes "path_exists (d @ [READY_MARKER]) s" "\<not> path_exists (d @ [METRICS_FILE]) s" "\<not> path_exists (d @ [ERROR_MARKER]) s"
  shows "process_dir tz tb prune d s =
    bindM (read_meta (d @ [META_FILE])) (\<lambda>meta. catchM (parse_and_publish tz d prune meta) is_parse_failure (report_failure tb d)) s"
  using assms by (simp add: process_dir_def)

lemma safe_cong:
  assumes "same_files s u"
  shows "published tz d m u = published tz d m s" "logs_safe d u = logs_safe d s" "logs_intact d u = logs_intact d s"
proof -
  have "disk_process tz d m u = disk_process tz d m s"
    unfolding disk_process_def client_logs_def replica_logs_def same_files_cong [OF assms] same_files_glob [OF assms] ..
  then show "published tz d m u = published tz d m s" by (simp add: fun_eq_iff published_def)
  show "logs_safe d u = logs_safe d s" "logs_intact d u = logs_intact d s"
    using assms kept_summary_cong [of d u s]
    by (auto simp: fun_eq_iff logs_safe_def logs_intact_def same_files_def)
qed


subsection \<open>Without faults\<close>

lemma next_fault_nf: "fs_faults s = [] \<Longrightarrow> bindM next_fault g s = g NoFault s"
  by (simp add: bindM_def next_fault_def)

lemma write_nf:
  "fs_faults s = [] \<Longrightarrow> path_isdir (butlast p) s \<Longrightarrow> \<not> path_isdir p s \<Longrightarrow> write_node p n s = (Inr (), put_node p n s)"
  by (simp add: write_node_def next_fault_nf)

lemma atomic_nf:
  assumes "fs_faults s = []" "path_isdir d s" "\<not> path_isdir (d @ [n]) s" "\<not> path_isdir (d @ [n @ ''.tmp'']) s"
  shows "atomic_write (d @ [n]) x s =
    (Inr (), put_node (d @ [n]) x (drop_node (d @ [n @ ''.tmp'']) (put_node (d @ [n @ ''.tmp'']) x s)))"
  using assms
  by (simp add: atomic_write_def seqM_def bindM_def write_nf tmp_member replace_file_def next_fault_def path_isdir_def)

lemma remove_nf: "fs_faults s = [] \<Longrightarrow> node_at p s = Some n \<Longrightarrow> n \<noteq> Dir \<Longrightarrow> remove_file p s = (Inr (), drop_node p s)"
  by (cases n) (simp_all add: remove_file_def next_fault_nf)

lemma read_text_nf:
  "fs_faults s = [] \<Longrightarrow> node_at p s = Some n \<Longrightarrow> n \<noteq> Dir \<Longrightarrow> read_text p s = (Inr (text_at p s), s)"
  by (cases n) (simp_all add: read_text_def bindM_def read_node_def next_fault_def text_at_def retM_def)

lemma mapM_nf:
  assumes "fs_faults s = []" "\<And>n. n \<in> set ns \<Longrightarrow> \<exists>x. node_at (d @ [n]) s = Some x \<and> x \<noteq> Dir"
  shows "mapM (\<lambda>n. bindM (read_text (d @ [n])) (\<lambda>t. liftR (f t))) ns s = (mapR f (map (\<lambda>n. text_at (d @ [n]) s) ns), s)"
  using assms(2)
proof (induction ns)
  case Nil
  then show ?case by (simp add: retM_def)
next
  case (Cons n ns)
  from Cons.prems [of n] obtain x where "node_at (d @ [n]) s = Some x" "x \<noteq> Dir" by auto
  from read_text_nf [OF assms(1) this] Cons show ?case
    by (simp add: bindM_def liftR_def retM_def bindR_def split: sum.splits)
qed

text \<open>A run directory the harness has finished writing: a directory whose logs, marker and side files are files.\<close>

definition ready_dir :: "path \<Rightarrow> 'z fs_scheme \<Rightarrow> bool" where
  "ready_dir d s \<longleftrightarrow>
     path_isdir d s
     \<and> (case node_at (d @ [READY_MARKER]) s of None \<Rightarrow> False | Some n \<Rightarrow> n \<noteq> Dir)
     \<and> node_at (d @ [METRICS_FILE]) s = None \<and> node_at (d @ [ERROR_MARKER]) s = None
     \<and> node_at (d @ [METRICS_FILE @ ''.tmp'']) s \<noteq> Some Dir \<and> node_at (d @ [ERROR_MARKER @ ''.tmp'']) s \<noteq> Some Dir
     \<and> list_all (\<lambda>n. node_at (d @ [n]) s \<noteq> Some Dir) (client_logs d s @ replica_logs d s)"

text \<open>The metadata as \<open>_process_dir\<close> sees it: an unreadable file counts as empty.\<close>

definition disk_meta :: "path \<Rightarrow> 'z fs_scheme \<Rightarrow> jval" where
  "disk_meta d s = (case node_at (d @ [META_FILE]) s of Some (Json v) \<Rightarrow> v | _ \<Rightarrow> JObj [])"

lemma read_meta_nf:
  "fs_faults s = [] \<Longrightarrow> read_meta (d @ [META_FILE]) s = (Inr (disk_meta d s), s)"
  by (auto simp: read_meta_def disk_meta_def path_exists_def catchM_def load_json_def bindM_def read_node_def
      next_fault_def raiseM_def retM_def getM_def split: option.splits node.splits)

lemma log_process_nf:
  assumes "fs_faults s = []" "list_all (\<lambda>n. node_at (d @ [n]) s \<noteq> Some Dir) (client_logs d s @ replica_logs d s)"
  shows "log_process tz d meta s = (disk_process tz d meta s, s)"
proof -
  have logs: "\<exists>x. node_at (d @ [n]) s = Some x \<and> x \<noteq> Dir" if "n \<in> set (client_logs d s) \<union> set (replica_logs d s)" for n
  proof -
    from that have "n \<in> set (names_in d s)" by (auto simp: client_logs_def replica_logs_def glob_names_def)
    then obtain x where "node_at (d @ [n]) s = Some x" unfolding names_in_iff by blast
    moreover from that assms(2) have "node_at (d @ [n]) s \<noteq> Some Dir" by (auto simp: list_all_iff)
    ultimately show ?thesis by simp
  qed
  have c: "mapM (\<lambda>n. bindM (read_text (d @ [n])) (\<lambda>t. liftR (read_client_log tz t))) (client_logs d s) s
      = (mapR (read_client_log tz) (map (\<lambda>n. text_at (d @ [n]) s) (client_logs d s)), s)"
    by (rule mapM_nf) (use assms logs in auto)
  have r: "mapM (\<lambda>n. bindM (read_text (d @ [n])) (\<lambda>t. retM (read_replica_log t))) (replica_logs d s) s
      = (Inr (map (\<lambda>n. read_replica_log (text_at (d @ [n]) s)) (replica_logs d s)), s)"
    using mapM_nf [where f = "\<lambda>t. Inr (read_replica_log t)" and ns = "replica_logs d s" and d = d, OF assms(1)] logs
    by (simp add: retM_def liftR_def mapR_total [where g = read_replica_log] comp_def)
  show ?thesis
    using c r
    by (auto simp: log_process_def disk_process_def process_def M_apply(2,3) bindM_def [of "mapM _ _"]
        bindM_def [of "liftR _"] retM_apply bindR_def filter_map comp_def split: sum.splits)
qed

lemma no_faults: "keeps (\<lambda>s t. fs_faults s = [] \<longrightarrow> fs_faults t = []) (atomic_write p n)"
  by (auto simp: keeps_def atomic_write_def seqM_def bindM_def write_node_def replace_file_def next_fault_def
      split: list.splits option.splits)

lemma tail_nf:
  assumes "fs_faults v = []" "node_at (d @ [READY_MARKER]) v = Some n" "n \<noteq> Dir"
  shows "\<exists>w. publish_tail d prune lp v = bindM (if prune then prune_client_logs d else retM 0) (\<lambda>freed. retM Parsed) w
    \<and> fs_faults w = [] \<and> only (\<lambda>p. p \<in> {d @ [RESULT_FILE], tmp_path (d @ [RESULT_FILE]), d @ [READY_MARKER]}) v w"
proof -
  obtain ra w where aw: "atomic_write (d @ [RESULT_FILE]) (Text (result_text lp)) v = (ra, w)" by (meson surj_pair)
  have "ra = Inl e \<Longrightarrow> is_OSError e" for e
    using raises_atomic [of "d @ [RESULT_FILE]" "Text (result_text lp)"] aw unfolding raises_only_def by (metis fst_conv)
  then have c: "catchM (atomic_write (d @ [RESULT_FILE]) (Text (result_text lp))) is_Exception (\<lambda>e. retM ()) v = (Inr (), w)"
    using aw by (cases ra) (auto simp: catchM_def retM_def is_Exception_def elim: is_OSError.elims)
  have "fs_faults w = []" using keepsD [OF no_faults aw] assms(1) by simp
  moreover have "node_at (d @ [READY_MARKER]) w = Some n"
    using keepsD [OF frame_atomic_at aw] assms(2) by (auto simp: only_def file_name_defs)
  ultimately have rm: "remove_file (d @ [READY_MARKER]) w = (Inr (), drop_node (d @ [READY_MARKER]) w)"
    using remove_nf assms(3) by blast
  have "only (\<lambda>p. p \<in> {d @ [RESULT_FILE], tmp_path (d @ [RESULT_FILE]), d @ [READY_MARKER]}) v (drop_node (d @ [READY_MARKER]) w)"
    using keepsD [OF frame_atomic_at aw] by (auto simp: only_def tmp_member at_file_def)
  then show ?thesis
    using c rm \<open>fs_faults w = []\<close> by (intro exI [of _ "drop_node (d @ [READY_MARKER]) w"]) (auto simp: publish_tail_def seqM_def bindM_def retM_def)
qed

lemma tail_ends:
  assumes "fs_faults v = []" "node_at (d @ [READY_MARKER]) v = Some n" "n \<noteq> Dir"
  shows "\<exists>t. publish_tail d prune lp v = (Inr Parsed, t)"
proof -
  obtain w where w: "publish_tail d prune lp v = bindM (if prune then prune_client_logs d else retM 0) (\<lambda>freed. retM Parsed) w"
    using tail_nf [OF assms] by blast
  obtain x t where "prune_client_logs d w = (Inr x, t)" using never_raises [OF raises_prune] by blast
  then show ?thesis unfolding w by (auto simp: bindM_def retM_def)
qed

lemma ready_dirD:
  assumes "ready_dir d s"
  shows "path_isdir d s" "path_exists (d @ [READY_MARKER]) s" "\<not> path_exists (d @ [METRICS_FILE]) s"
    "\<not> path_exists (d @ [ERROR_MARKER]) s"
    "\<exists>n. node_at (d @ [READY_MARKER]) s = Some n \<and> n \<noteq> Dir"
    "list_all (\<lambda>n. node_at (d @ [n]) s \<noteq> Some Dir) (client_logs d s @ replica_logs d s)"
  using assms by (auto simp: ready_dir_def path_exists_def split: option.splits)

lemma ready_atomic:
  assumes "ready_dir d s" "fs_faults s = []" "n \<in> {METRICS_FILE, ERROR_MARKER}"
  shows "atomic_write (d @ [n]) x s =
    (Inr (), put_node (d @ [n]) x (drop_node (d @ [n @ ''.tmp'']) (put_node (d @ [n @ ''.tmp'']) x s)))"
  using assms by (intro atomic_nf) (auto simp: ready_dir_def path_isdir_def)

lemma process_failed:
  assumes s: "ready_dir d s" "fs_faults s = []" and dp: "disk_process tz d (disk_meta d s) s = Inl e"
  shows "\<exists>t. process_dir tz tb prune d s = (Inr Failed, t) \<and> node_at (d @ [READY_MARKER]) t = None
    \<and> node_at (d @ [METRICS_FILE]) t = None
    \<and> node_at (d @ [ERROR_MARKER]) t = Some (Text (exn_name e @ '': '' @ exn_msg e @ [LF, LF] @ tb e))"
proof -
  note r = ready_dirD [OF s(1)]
  have lp: "log_process tz d (disk_meta d s) s = (Inl e, s)" using log_process_nf [OF s(2) r(6)] dp by simp
  then have pf: "is_parse_failure e" using raises_log_process unfolding raises_only_def by (metis fst_conv)
  let ?x = "Text (exn_name e @ '': '' @ exn_msg e @ [LF, LF] @ tb e)"
  let ?u = "put_node (d @ [ERROR_MARKER]) ?x (drop_node (d @ [ERROR_MARKER @ ''.tmp'']) (put_node (d @ [ERROR_MARKER @ ''.tmp'']) ?x s))"
  have aw: "atomic_write (d @ [ERROR_MARKER]) ?x s = (Inr (), ?u)" by (rule ready_atomic [OF s]) simp
  from r(5) obtain n where "node_at (d @ [READY_MARKER]) ?u = Some n" "n \<noteq> Dir" by (auto simp: file_name_defs)
  with s(2) have rm: "remove_file (d @ [READY_MARKER]) ?u = (Inr (), drop_node (d @ [READY_MARKER]) ?u)"
    using remove_nf [of ?u "d @ [READY_MARKER]" n] by simp
  have "report_failure tb d e s = (Inr Failed, drop_node (d @ [READY_MARKER]) ?u)"
    using aw rm by (simp add: report_failure_def seqM_def bindM_def catchM_def retM_def)
  then have "process_dir tz tb prune d s = (Inr Failed, drop_node (d @ [READY_MARKER]) ?u)"
    using lp pf read_meta_nf [OF s(2), of d] by (simp add: process_fresh [OF r(2-4)] publish_split bindM_def catchM_def)
  then show ?thesis using r(3) by (simp add: path_exists_def file_name_defs)
qed

lemma process_publishes:
  assumes s: "ready_dir d s" "fs_faults s = []" and dp: "disk_process tz d (disk_meta d s) s = Inr lp"
  shows "\<exists>u. process_dir tz tb prune d s = (case publish_tail d prune lp u of (Inl e, t) \<Rightarrow> (if is_parse_failure e then report_failure tb d e t else (Inl e, t)) | (Inr x, t) \<Rightarrow> (Inr x, t))
    \<and> fs_faults u = [] \<and> node_at (d @ [METRICS_FILE]) u = Some (Json (JObj (result_dict lp)))
    \<and> only (\<lambda>p. p \<in> {d @ [METRICS_FILE], tmp_path (d @ [METRICS_FILE])}) s u"
proof -
  note r = ready_dirD [OF s(1)]
  have lg: "log_process tz d (disk_meta d s) s = (Inr lp, s)" using log_process_nf [OF s(2) r(6)] dp by simp
  let ?x = "Json (JObj (result_dict lp))"
  let ?u = "put_node (d @ [METRICS_FILE]) ?x (drop_node (d @ [METRICS_FILE @ ''.tmp'']) (put_node (d @ [METRICS_FILE @ ''.tmp'']) ?x s))"
  have aw: "atomic_write (d @ [METRICS_FILE]) ?x s = (Inr (), ?u)" by (rule ready_atomic [OF s]) simp
  have "process_dir tz tb prune d s = (case publish_tail d prune lp ?u of (Inl e, t) \<Rightarrow> (if is_parse_failure e then report_failure tb d e t else (Inl e, t)) | (Inr x, t) \<Rightarrow> (Inr x, t))"
    using lg aw read_meta_nf [OF s(2), of d]
    by (simp add: process_fresh [OF r(2-4)] publish_split bindM_def [of "read_meta _"] bindM_def [of "log_process _ _ _"]
        seqM_def bindM_def [of "atomic_write _ _"] catchM_def split: prod.split sum.split)
  then show ?thesis using s(2) by (intro exI [of _ ?u]) (simp add: only_def tmp_member)
qed

lemma process_parsed:
  assumes s: "ready_dir d s" "fs_faults s = []" and dp: "disk_process tz d (disk_meta d s) s = Inr lp"
  shows "\<exists>t. process_dir tz tb prune d s = (Inr Parsed, t) \<and> node_at (d @ [READY_MARKER]) t = None
    \<and> node_at (d @ [METRICS_FILE]) t = Some (Json (JObj (result_dict lp))) \<and> node_at (d @ [ERROR_MARKER]) t = None"
proof -
  note r = ready_dirD [OF s(1)]
  obtain u where u: "process_dir tz tb prune d s = (case publish_tail d prune lp u of (Inl e, t) \<Rightarrow> (if is_parse_failure e then report_failure tb d e t else (Inl e, t)) | (Inr x, t) \<Rightarrow> (Inr x, t))"
    "fs_faults u = []" "node_at (d @ [METRICS_FILE]) u = Some (Json (JObj (result_dict lp)))"
    "only (\<lambda>p. p \<in> {d @ [METRICS_FILE], tmp_path (d @ [METRICS_FILE])}) s u"
    using process_publishes [OF assms] by blast
  from r(5) u(4) obtain n where n: "node_at (d @ [READY_MARKER]) u = Some n" "n \<noteq> Dir" by (auto simp: only_def tmp_member file_name_defs)
  from tail_ends [OF u(2) n] obtain t where tl: "publish_tail d prune lp u = (Inr Parsed, t)" by blast
  have "node_at (d @ [METRICS_FILE]) t = node_at (d @ [METRICS_FILE]) u" "node_at (d @ [ERROR_MARKER]) t = node_at (d @ [ERROR_MARKER]) s"
    using keepsD [OF tail_frame tl] metrics_not_tail [of d] u(4) unfolding only_def by (auto simp: file_name_defs tmp_member)
  then show ?thesis using r(4) tail_steps [OF tl] u(1,3) tl by (simp add: path_exists_def)
qed

text \<open>C31. Without faults a finished run directory is settled in one pass: its READY marker goes, and it holds
  either the complete metrics of its logs and no \<open>PARSE_ERROR\<close>, or the error and no metrics.\<close>

theorem process_dir_settles:
  assumes "ready_dir d s" "fs_faults s = []"
  shows "\<exists>out t. process_dir tz tb prune d s = (Inr out, t) \<and> node_at (d @ [READY_MARKER]) t = None \<and>
    (case disk_process tz d (disk_meta d s) s of
       Inr lp \<Rightarrow> out = Parsed \<and> node_at (d @ [METRICS_FILE]) t = Some (Json (JObj (result_dict lp)))
                \<and> node_at (d @ [ERROR_MARKER]) t = None
     | Inl e \<Rightarrow> out = Failed \<and> node_at (d @ [METRICS_FILE]) t = None
                \<and> node_at (d @ [ERROR_MARKER]) t = Some (Text (exn_name e @ '': '' @ exn_msg e @ [LF, LF] @ tb e)))"
proof (cases "disk_process tz d (disk_meta d s) s")
  case (Inl e)
  with process_failed [OF assms this] show ?thesis by auto
next
  case (Inr lp)
  with process_parsed [OF assms this] show ?thesis by auto
qed

definition run1_disk :: fs where
  "run1_disk = \<lparr>fs_files = [([''runs''], Dir), ([''runs'', ''r1''], Dir), ([''runs'', ''r1'', ''READY''], Text [])], fs_faults = []\<rparr>"

lemma run1_facts:
  "node_at p run1_disk = (if p = [''runs''] \<or> p = [''runs'', ''r1''] then Some Dir
     else if p = [''runs'', ''r1'', ''READY''] then Some (Text []) else None)"
  "names_in [''runs'', ''r1''] run1_disk = [''READY'']"
  by (auto simp: node_at_def run1_disk_def names_in_def)

lemma run1_ready: "ready_dir [''runs'', ''r1''] run1_disk"
  by (simp add: ready_dir_def path_isdir_def run1_facts client_logs_def replica_logs_def glob_names_def starts_with_def
      file_name_defs)

lemma process_dir_settles_witness:
  "\<exists>out t. process_dir (\<lambda>x. x) (\<lambda>e. []) True [''runs'', ''r1''] run1_disk = (Inr out, t)
     \<and> node_at [''runs'', ''r1'', ''READY''] t = None"
  using process_dir_settles [OF run1_ready, of "\<lambda>x. x" "\<lambda>e. []" True]
  by (auto simp: run1_disk_def READY_MARKER_def)


end
