(* ===== verification/Argparse.thy ===== *)
theory Argparse
  imports PyStr
begin

section \<open>Command lines (the standard library's argparse)\<close>

text \<open>
  What the scripts use of \<open>argparse\<close>: optional arguments with one value, converted by a type, and
  \<open>store_true\<close> flags. A command line is first classified word by word, an option may be given as
  \<open>--flag value\<close>, \<open>--flag=value\<close> or by an unambiguous prefix, a later occurrence overrides an
  earlier one, and every error ends the program with exit status 2.
\<close>

datatype opt_kind = StoreStr | StoreInt | StoreFloat | StoreTrue | ShowHelp

record opt =
  op_flag :: string
  op_dest :: string
  op_kind :: opt_kind
  op_default :: pyval

type_synonym namespace = "(string, pyval) dict"

text \<open>\<open>add_argument('--a-b', ...)\<close> stores under \<open>a_b\<close>.\<close>

definition dest_of :: "string \<Rightarrow> string" where
  "dest_of flag = map (\<lambda>c. if c = CHR ''-'' then CHR ''_'' else c) (drop 2 flag)"

definition add_argument :: "string \<Rightarrow> opt_kind \<Rightarrow> pyval \<Rightarrow> opt" where
  "add_argument flag k d = \<lparr>op_flag = flag, op_dest = dest_of flag, op_kind = k, op_default = d\<rparr>"

text \<open>Every parser has \<open>-h\<close> and \<open>--help\<close>.\<close>

definition help_options :: "opt list" where
  "help_options = [add_argument ''-h'' ShowHelp PNone, add_argument ''--help'' ShowHelp PNone]"

datatype word_class = Positional | Flag opt "string option" | UnknownFlag | Ambiguous

definition find_flag :: "opt list \<Rightarrow> string \<Rightarrow> opt option" where
  "find_flag opts f = find (\<lambda>q. op_flag q = f) opts"

text \<open>\<open>^-\d+$|^-\d*\.\d+$\<close>: a negative number is a value, not an option.\<close>

definition negative_number :: "string \<Rightarrow> bool" where
  "negative_number w =
     (case w of
        [] \<Rightarrow> False
      | c # r \<Rightarrow> c = CHR ''-'' \<and>
          (let (a, b) = py_partition (CHR ''.'') r in
           if CHR ''.'' \<in> set r then list_all is_digit a \<and> b \<noteq> [] \<and> list_all is_digit b
           else r \<noteq> [] \<and> list_all is_digit r))"

definition prefix_matches :: "opt list \<Rightarrow> string \<Rightarrow> (opt \<times> string option) list" where
  "prefix_matches opts w =
     (if starts_with ''--'' w then
        (let (p, v) = py_partition (CHR ''='') w; e = (if CHR ''='' \<in> set w then Some v else None) in
         map (\<lambda>q. (q, e)) (filter (\<lambda>q. starts_with p (op_flag q)) opts))
      else
        map (\<lambda>q. (q, Some (drop 2 w))) (filter (\<lambda>q. op_flag q = take 2 w) opts))"

definition classify :: "opt list \<Rightarrow> string \<Rightarrow> word_class" where
  "classify opts w =
     (if w = [] \<or> hd w \<noteq> CHR ''-'' then Positional
      else case find_flag opts w of
        Some q \<Rightarrow> Flag q None
      | None \<Rightarrow>
          if w = ''-'' then Positional
          else
            (let (p, v) = py_partition (CHR ''='') w in
             case (if CHR ''='' \<in> set w then find_flag opts p else None) of
               Some q \<Rightarrow> Flag q (Some v)
             | None \<Rightarrow>
                 (case prefix_matches opts w of
                    [(q, e)] \<Rightarrow> Flag q e
                  | [] \<Rightarrow> if negative_number w \<or> CHR '' '' \<in> set w then Positional else UnknownFlag
                  | _ \<Rightarrow> Ambiguous)))"

text \<open>After \<open>--\<close> every word is positional; the scripts declare no positional argument.\<close>

fun classify_all :: "opt list \<Rightarrow> string list \<Rightarrow> (string \<times> word_class) list" where
  "classify_all opts [] = []"
| "classify_all opts (w # ws) =
     (if w = ''--'' then (w, UnknownFlag) # map (\<lambda>v. (v, Positional)) ws
      else (w, classify opts w) # classify_all opts ws)"

fun convert :: "opt_kind \<Rightarrow> string \<Rightarrow> pyval option" where
  "convert StoreStr v = Some (PStr v)"
| "convert StoreInt v = map_option PInt (int_of_string v)"
| "convert StoreFloat v = map_option PFloat (float_of_string v)"
| "convert _ v = None"

definition usage_error :: "'a res" where
  "usage_error = Inl (SystemExit 2)"

fun run_options :: "namespace \<Rightarrow> bool \<Rightarrow> (string \<times> word_class) list \<Rightarrow> namespace res" where
  "run_options ns extras [] = (if extras then usage_error else Inr ns)"
| "run_options ns extras ((w, Flag q e) # ws) =
     (case op_kind q of
        ShowHelp \<Rightarrow> if e = None then Inl (SystemExit 0) else usage_error
      | StoreTrue \<Rightarrow> if e = None then run_options (dict_set (op_dest q) (PBool True) ns) extras ws else usage_error
      | k \<Rightarrow>
          (case e of
             Some v \<Rightarrow>
               (case convert k v of
                  None \<Rightarrow> usage_error
                | Some x \<Rightarrow> run_options (dict_set (op_dest q) x ns) extras ws)
           | None \<Rightarrow>
               (case ws of
                  (v, Positional) # rest \<Rightarrow>
                    (case convert k v of
                       None \<Rightarrow> usage_error
                     | Some x \<Rightarrow> run_options (dict_set (op_dest q) x ns) extras rest)
                | _ \<Rightarrow> usage_error)))"
| "run_options ns extras (_ # ws) = run_options ns True ws"

definition defaults :: "opt list \<Rightarrow> namespace" where
  "defaults opts = map (\<lambda>q. (op_dest q, op_default q)) opts"

definition parse_args :: "opt list \<Rightarrow> string list \<Rightarrow> namespace res" where
  "parse_args opts argv =
     (let ws = classify_all (help_options @ opts) argv in
      if Ambiguous \<in> snd ` set ws then usage_error
      else run_options (defaults opts) False ws)"

text \<open>\<open>args.name\<close>.\<close>

definition arg :: "namespace \<Rightarrow> string \<Rightarrow> pyval" where
  "arg ns name = (case dict_get ns name of None \<Rightarrow> PNone | Some v \<Rightarrow> v)"

subsection \<open>Flag and value pairs\<close>

text \<open>A word that \<open>argparse\<close> takes as the value of the option before it.\<close>

definition value_word :: "opt list \<Rightarrow> string \<Rightarrow> bool" where
  "value_word opts w \<longleftrightarrow> w \<noteq> ''--'' \<and> classify (help_options @ opts) w = Positional"

lemma plain_value: "w = [] \<or> hd w \<noteq> CHR ''-'' \<Longrightarrow> value_word opts w"
  by (auto simp: value_word_def classify_def)

fun flag_values :: "(string \<times> string) list \<Rightarrow> string list" where
  "flag_values [] = []"
| "flag_values ((f, v) # fvs) = f # v # flag_values fvs"

text \<open>The effect of a list of flags with their values, each converted by its option.\<close>

fun store_all :: "opt list \<Rightarrow> (string \<times> string) list \<Rightarrow> namespace \<Rightarrow> namespace option" where
  "store_all opts [] ns = Some ns"
| "store_all opts ((f, v) # fvs) ns =
     (case find_flag opts f of
        None \<Rightarrow> None
      | Some q \<Rightarrow> (case convert (op_kind q) v of None \<Rightarrow> None | Some x \<Rightarrow> store_all opts fvs (dict_set (op_dest q) x ns)))"

definition value_flag :: "opt list \<Rightarrow> string \<Rightarrow> bool" where
  "value_flag opts f \<longleftrightarrow> starts_with ''--'' f \<and> f \<noteq> ''--'' \<and> f \<noteq> ''--help'' \<and> f \<noteq> ''-h''
     \<and> (case find_flag opts f of None \<Rightarrow> False | Some q \<Rightarrow> op_kind q \<in> {StoreStr, StoreInt, StoreFloat})"

lemma find_flag_help: "f \<noteq> ''--help'' \<Longrightarrow> f \<noteq> ''-h'' \<Longrightarrow> find_flag (help_options @ opts) f = find_flag opts f"
  by (auto simp: find_flag_def help_options_def add_argument_def)

lemma classify_flag:
  "value_flag opts f \<Longrightarrow> \<exists>q. find_flag opts f = Some q \<and> op_kind q \<in> {StoreStr, StoreInt, StoreFloat}
     \<and> classify (help_options @ opts) f = Flag q None"
  by (cases f) (auto simp: value_flag_def classify_def find_flag_help starts_with_def split: option.splits)

lemma parse_flag_values:
  assumes "\<And>f v. (f, v) \<in> set fvs \<Longrightarrow> value_flag opts f \<and> value_word opts v"
    and "store_all opts fvs (defaults opts) = Some ns"
  shows "parse_args opts (flag_values fvs) = Inr ns"
proof -
  have "Ambiguous \<notin> snd ` set (classify_all (help_options @ opts) (flag_values fvs)) \<and>
      run_options ns0 False (classify_all (help_options @ opts) (flag_values fvs)) = Inr ns"
    if "store_all opts fvs ns0 = Some ns" for ns0
    using assms(1) that
  proof (induction fvs arbitrary: ns0)
    case (Cons p fvs)
    obtain f v where p: "p = (f, v)" by (cases p)
    with Cons.prems(1) have fv: "value_flag opts f" "value_word opts v" by auto
    from classify_flag [OF fv(1)] obtain q where q: "find_flag opts f = Some q"
      "op_kind q \<in> {StoreStr, StoreInt, StoreFloat}" "classify (help_options @ opts) f = Flag q None" by blast
    from Cons.prems(2) p q obtain x where x: "convert (op_kind q) v = Some x"
      "store_all opts fvs (dict_set (op_dest q) x ns0) = Some ns" by (auto split: option.splits)
    from fv(1) have "f \<noteq> ''--''" by (simp add: value_flag_def)
    moreover have "Ambiguous \<notin> snd ` set (classify_all (help_options @ opts) (flag_values fvs)) \<and>
      run_options (dict_set (op_dest q) x ns0) False (classify_all (help_options @ opts) (flag_values fvs)) = Inr ns"
      by (rule Cons.IH [OF _ x(2)]) (use Cons.prems(1) in auto)
    ultimately show ?case
      using p q x(1) fv(2) by (auto simp: value_word_def split: opt_kind.splits)
  qed simp
  from this [OF assms(2)] show ?thesis by (simp add: parse_args_def)
qed

end
