(* ===== verification/Gen_Conf.thy ===== *)
theory Gen_Conf
  imports Argparse Config Fs
begin

section \<open>Configuration files (scripts/gen_conf.py)\<close>

text \<open>
  The script behind \<open>CommandMaker.gen_conf\<close>: it reads the replica addresses, assigns ports, asks the
  two key generators for keys, and writes the main configuration, the list of nodes and one secret
  configuration per replica. The generators are programs of the C++ library; \<open>kg\<close> and \<open>tkg\<close> map an
  argument vector to the lines they print, or to the \<open>OSError\<close> of starting them. A file handle's
  writes append to the file it opened; files stay open until the script ends.
\<close>

definition gen_conf_options :: "opt list" where
  "gen_conf_options =
     [add_argument ''--prefix'' StoreStr (PStr ''hotstuff.gen''),
      add_argument ''--ips'' StoreStr PNone,
      add_argument ''--iter'' StoreInt (PInt 10),
      add_argument ''--pport'' StoreInt (PInt 10000),
      add_argument ''--cport'' StoreInt (PInt 20000),
      add_argument ''--keygen'' StoreStr (PStr ''./hotstuff-keygen''),
      add_argument ''--tls-keygen'' StoreStr (PStr ''./hotstuff-tls-keygen''),
      add_argument ''--nodes'' StoreStr (PStr ''nodes.txt''),
      add_argument ''--block-size'' StoreInt (PInt 1),
      add_argument ''--pace-maker'' StoreStr (PStr ''dummy''),
      add_argument ''--nworker'' StoreInt (PInt 4),
      add_argument ''--repnworker'' StoreInt (PInt 4),
      add_argument ''--clinworker'' StoreInt (PInt 4),
      add_argument ''--repburst'' StoreInt (PInt 1000),
      add_argument ''--cliburst'' StoreInt (PInt 1000),
      add_argument ''--sb-users'' StoreInt (PInt 20),
      add_argument ''--sb-prob-choose_mtx'' StoreFloat (PFloat (Fin (9 / 10))),
      add_argument ''--sb-skew-factor'' StoreFloat (PFloat (Fin (1 / 10)))]"

text \<open>The string and integer arguments the script computes with.\<close>

definition str_arg :: "namespace \<Rightarrow> string \<Rightarrow> string" where
  "str_arg ns name = (case arg ns name of PStr s \<Rightarrow> s | _ \<Rightarrow> [])"

definition int_arg :: "namespace \<Rightarrow> string \<Rightarrow> int" where
  "int_arg ns name = (case arg ns name of PInt i \<Rightarrow> i | _ \<Rightarrow> 0)"

text \<open>A file name as a path.\<close>

definition file_path :: "string \<Rightarrow> path" where
  "file_path name =
     (if starts_with ''/'' name then [''/''] else []) @
     filter (\<lambda>c. c \<noteq> [] \<and> c \<noteq> ''.'') (py_split (CHR ''/'') name)"

definition open_w :: "string \<Rightarrow> ('z fs_scheme, unit) M" where
  "open_w name = write_node (file_path name) (Text [])"

definition fwrite :: "string \<Rightarrow> string \<Rightarrow> ('z fs_scheme, unit) M" where
  "fwrite name t = append_text (file_path name) t"

definition read_ips :: "pyval \<Rightarrow> ('z fs_scheme, string list) M" where
  "read_ips v =
     (case v of
        PStr f \<Rightarrow> bindM (read_text (file_path f)) (\<lambda>t. retM (map py_strip (text_lines t)))
      | _ \<Rightarrow> retM [''127.0.0.1''])"

text \<open>The loop over the addresses, with the number of replicas placed on each so far.\<close>

fun assign_ports :: "int \<Rightarrow> int \<Rightarrow> (string, int) dict \<Rightarrow> string list \<Rightarrow> string list" where
  "assign_ports base_pport base_cport port_count [] = []"
| "assign_ports base_pport base_cport port_count (ip # ips) =
     (let port_count' = dict_setdefault ip 0 port_count;
          i = the (dict_get port_count' ip)
      in (ip @ '':'' @ show_int (base_pport + i) @ '';'' @ show_int (base_cport + i)) #
         assign_ports base_pport base_cport (dict_set ip (i + 1) port_count') ips)"

text \<open>\<open>[t[4:] for t in l.decode('ascii').split()]\<close>.\<close>

definition is_ascii :: "string \<Rightarrow> bool" where
  "is_ascii s \<longleftrightarrow> list_all (\<lambda>c. of_char c < (128 :: nat)) s"

definition key_fields :: "string \<Rightarrow> string list res" where
  "key_fields l =
     (if is_ascii l then Inr (map (drop 4) (py_words l))
      else Inl (ValueError ''ascii codec can't decode byte''))"

definition run_keygen :: "(string list \<Rightarrow> string list res) \<Rightarrow> string \<Rightarrow> nat \<Rightarrow> string list list res" where
  "run_keygen kg bin n = bindR (kg [bin, ''--num'', show_nat n]) (mapR key_fields)"

text \<open>The settings of the main configuration: the key in the file and the argument it comes from.\<close>

definition conf_settings :: "(string \<times> string) list" where
  "conf_settings =
     [(''block-size'', ''block_size''), (''nworker'', ''nworker''), (''repnworker'', ''repnworker''),
      (''clinworker'', ''clinworker''), (''repburst'', ''repburst''), (''cliburst'', ''cliburst''),
      (''sb-users'', ''sb_users''), (''sb-prob-choose_mtx'', ''sb_prob_choose_mtx''),
      (''sb-skew-factor'', ''sb_skew_factor''), (''pace-maker'', ''pace_maker'')]"

definition setting_line :: "string \<Rightarrow> pyval \<Rightarrow> string" where
  "setting_line key v = key @ '' = '' @ py_str v @ [LF]"

definition write_settings :: "string \<Rightarrow> namespace \<Rightarrow> ('z fs_scheme, unit) M" where
  "write_settings main_conf ns =
     forM conf_settings (\<lambda>(key, name).
       whenM (arg ns name \<noteq> PNone) (fwrite main_conf (setting_line key (arg ns name))))"

definition sec_name :: "string \<Rightarrow> nat \<Rightarrow> string" where
  "sec_name prefix i = prefix @ ''-sec'' @ show_nat i @ ''.conf''"

text \<open>The body of the last loop, for one tuple of the \<open>zip\<close>.\<close>

definition write_replica ::
  "string \<Rightarrow> string \<Rightarrow> string \<Rightarrow> (string \<times> string list \<times> string list) \<times> nat \<Rightarrow> ('z fs_scheme, unit) M" where
  "write_replica main_conf nodes prefix r =
     (let ((addr, key, tls), i) = r; r_conf_name = sec_name prefix i in
      bindM (liftR (py_index key 0)) (\<lambda>pub. bindM (liftR (py_index tls 2)) (\<lambda>cid.
      seqM (fwrite main_conf (''replica = '' @ addr @ '', '' @ pub @ '', '' @ cid @ [LF]))
     (seqM (fwrite nodes (show_nat i @ '':'' @ addr @ [CHR 0x09] @ r_conf_name @ [LF]))
     (seqM (open_w r_conf_name)
     (bindM (liftR (py_index key 1)) (\<lambda>priv. seqM (fwrite r_conf_name (''privkey = '' @ priv @ [LF]))
     (bindM (liftR (py_index tls 1)) (\<lambda>tpriv. seqM (fwrite r_conf_name (''tls-privkey = '' @ tpriv @ [LF]))
     (bindM (liftR (py_index tls 0)) (\<lambda>cert. seqM (fwrite r_conf_name (''tls-cert = '' @ cert @ [LF]))
        (fwrite r_conf_name (''idx = '' @ show_nat i @ [LF])))))))))))))"

definition gen_conf_main ::
  "(string list \<Rightarrow> string list res) \<Rightarrow> (string list \<Rightarrow> string list res) \<Rightarrow> namespace \<Rightarrow> ('z fs_scheme, unit) M" where
  "gen_conf_main kg tkg ns =
     bindM (read_ips (arg ns ''ips'')) (\<lambda>ips.
     let prefix = str_arg ns ''prefix''; main_conf = prefix @ ''.conf''; nodes = str_arg ns ''nodes'' in
     seqM (open_w main_conf)
    (seqM (open_w nodes)
    (let replicas = assign_ports (int_arg ns ''pport'') (int_arg ns ''cport'') [] ips in
     bindM (liftR (run_keygen kg (str_arg ns ''keygen'') (length replicas))) (\<lambda>keys.
     bindM (liftR (run_keygen tkg (str_arg ns ''tls_keygen'') (length replicas))) (\<lambda>tls_keys.
     seqM (write_settings main_conf ns)
       (forM (zip (zip replicas (zip keys tls_keys)) [0..<length replicas]) (write_replica main_conf nodes prefix)))))))"

text \<open>The program: its arguments, then the body.\<close>

definition gen_conf_script_run ::
  "(string list \<Rightarrow> string list res) \<Rightarrow> (string list \<Rightarrow> string list res) \<Rightarrow> string list \<Rightarrow> ('z fs_scheme, unit) M" where
  "gen_conf_script_run kg tkg argv = bindM (liftR (parse_args gen_conf_options argv)) (gen_conf_main kg tkg)"

subsection \<open>Ports\<close>

definition host_rank :: "string list \<Rightarrow> nat \<Rightarrow> nat" where
  "host_rank ips i = length (filter (\<lambda>ip. ip = ips ! i) (take i ips))"

definition replica_addr :: "int \<Rightarrow> int \<Rightarrow> string \<Rightarrow> nat \<Rightarrow> string" where
  "replica_addr p c ip k = ip @ '':'' @ show_int (p + int k) @ '';'' @ show_int (c + int k)"

lemma assign_ports_count:
  assumes "\<And>ip. (case dict_get pc ip of None \<Rightarrow> 0 | Some k \<Rightarrow> k) = int (length (filter (\<lambda>x. x = ip) pre))"
  shows "assign_ports p c pc ips = map (\<lambda>i. replica_addr p c (ips ! i) (length (filter (\<lambda>x. x = ips ! i) (pre @ take i ips)))) [0..<length ips]"
  using assms
proof (induction ips arbitrary: pc pre)
  case (Cons ip ips)
  let ?k = "length (filter (\<lambda>x. x = ip) pre)"
  have k: "the (dict_get (dict_setdefault ip 0 pc) ip) = int ?k"
    using Cons.prems [of ip] by (auto simp: dict_simps split: option.splits)
  have "assign_ports p c (dict_set ip (int ?k + 1) (dict_setdefault ip 0 pc)) ips =
      map (\<lambda>i. replica_addr p c (ips ! i) (length (filter (\<lambda>x. x = ips ! i) ((pre @ [ip]) @ take i ips)))) [0..<length ips]"
    by (rule Cons.IH) (use Cons.prems in \<open>auto simp: dict_simps split: option.splits\<close>)
  then show ?case
    by (simp add: k replica_addr_def Let_def map_upt_Suc del: upt_Suc)
qed simp

lemma assign_ports_eq:
  "assign_ports p c [] ips = map (\<lambda>i. replica_addr p c (ips ! i) (host_rank ips i)) [0..<length ips]"
  using assign_ports_count [of "[]" "[]" p c ips] by (simp add: host_rank_def)

lemma host_rank_less:
  assumes "i < j" "ips ! i = ips ! j" "i < length ips" "j < length ips"
  shows "host_rank ips i < host_rank ips j"
proof -
  obtain rest where "take j ips = take i ips @ ips ! j # rest"
    using id_take_nth_drop [of i "take j ips"] assms by (simp add: min_def)
  then show ?thesis unfolding host_rank_def assms(2) by simp
qed

lemma host_rank_bound: "i < length ips \<Longrightarrow> host_rank ips i < length ips"
  using length_filter_le [of "\<lambda>ip. ip = ips ! i" "take i ips"] by (simp add: host_rank_def)



subsection \<open>The ips file\<close>

lemma text_lines_print:
  assumes "\<And>l. l \<in> set ls \<Longrightarrow> CHR 0x0A \<notin> set l"
  shows "text_lines (concat (map (\<lambda>l. l @ [CHR 0x0A]) ls)) = ls"
proof -
  have "py_split (CHR 0x0A) (concat (map (\<lambda>l. l @ [CHR 0x0A]) ls)) = ls @ [[]]"
    using assms
  proof (induction ls)
    case (Cons l ls)
    then have "x \<noteq> CHR 0x0A" if "x \<in> set l" for x using that by auto
    with Cons show ?case using split_by_append [of l "\<lambda>x. x = CHR 0x0A" "CHR 0x0A"] by (simp add: py_split_def)
  qed (simp add: py_split_def)
  moreover have "drop_last_empty (ls @ [[]]) = ls" for ls
    by (induction ls rule: drop_last_empty.induct) simp_all
  ultimately show ?thesis by (simp add: text_lines_def)
qed

text \<open>An address as the manifest gives it: no line break, no space around it.\<close>

definition clean_ip :: "string \<Rightarrow> bool" where
  "clean_ip ip \<longleftrightarrow> ip \<noteq> [] \<and> list_all (\<lambda>c. \<not> is_space c) ip"

lemma clean_ip_facts:
  assumes "clean_ip ip"
  shows "CHR 0x0A \<notin> set ip" "CHR 0x0D \<notin> set ip" "py_strip ip = ip"
  using assms py_strip_id [of ip] by (auto simp: clean_ip_def list_all_iff is_space_def)

lemma translate_no_CR: "CR \<notin> set t \<Longrightarrow> translate_newlines t = t"
  by (induction t rule: translate_newlines.induct) (auto simp: CR_def)

lemma ips_file_read:
  assumes "list_all clean_ip ips"
  shows "map py_strip (text_lines (translate_newlines (ips_file_text ips))) = ips"
proof -
  have cr: "CR \<notin> set (ips_file_text ips)" "\<And>l. l \<in> set ips \<Longrightarrow> CHR 0x0A \<notin> set l"
    using assms(1) clean_ip_facts by (auto simp: ips_file_text_def CR_def list_all_iff)
  have "text_lines (ips_file_text ips) = ips"
    unfolding ips_file_text_def by (rule text_lines_print [OF cr(2)])
  then show ?thesis
    using assms(1) clean_ip_facts(3) by (simp add: translate_no_CR [OF cr(1)] list_all_iff map_idI)
qed

lemma read_ips_text:
  "node_at (file_path f) s = Some (Text t) \<Longrightarrow> fs_faults s = []
    \<Longrightarrow> read_ips (PStr f) s = (Inr (map py_strip (text_lines (translate_newlines t))), s)"
  by (simp add: read_ips_def read_text_def bindM_def read_node_def next_fault_def retM_def)

text \<open>The ips file is read back exactly: the replica addresses that \<open>gen_conf.py\<close> works with are the
  addresses \<open>write_ips_file\<close> was given, in their order.\<close>

theorem ips_file_roundtrip:
  assumes "list_all clean_ip ips" "node_at (file_path f) s = Some (Text (ips_file_text ips))" "fs_faults s = []"
  shows "read_ips (PStr f) s = (Inr ips, s)"
  using read_ips_text [OF assms(2,3)] ips_file_read [OF assms(1)] by simp

lemma ips_file_roundtrip_witness:
  "read_ips (PStr ''ips.txt'') \<lparr>fs_files = [([''ips.txt''], Text (ips_file_text [''10.0.0.1'', ''10.0.0.2'']))], fs_faults = []\<rparr>
   = (Inr [''10.0.0.1'', ''10.0.0.2''],
      \<lparr>fs_files = [([''ips.txt''], Text (ips_file_text [''10.0.0.1'', ''10.0.0.2'']))], fs_faults = []\<rparr>)"
  by (rule ips_file_roundtrip)
    (simp_all add: clean_ip_def is_space_def file_path_def py_split_def starts_with_def node_at_def)

subsection \<open>The files written\<close>

text \<open>Without faults a file operation on a plain name is an update of the file map.\<close>

definition plain_name :: "string \<Rightarrow> bool" where
  "plain_name n \<longleftrightarrow> n \<noteq> [] \<and> n \<noteq> ''.'' \<and> CHR ''/'' \<notin> set n"

definition text_of :: "string \<Rightarrow> 'z fs_scheme \<Rightarrow> string" where
  "text_of n s = (case node_at [n] s of Some (Text t) \<Rightarrow> t | _ \<Rightarrow> [])"

definition add_text :: "string \<Rightarrow> string \<Rightarrow> 'z fs_scheme \<Rightarrow> 'z fs_scheme" where
  "add_text n t s = put_node [n] (Text (text_of n s @ t)) s"

lemma plain_path:
  assumes "plain_name n"
  shows "file_path n = [n]"
proof -
  have "x \<noteq> CHR ''/''" if "x \<in> set n" for x using assms that by (auto simp: plain_name_def)
  then have "py_split (CHR ''/'') n = [n]" unfolding py_split_def by (rule split_by_none)
  moreover have "\<not> starts_with ''/'' n" using assms by (cases n) (auto simp: plain_name_def starts_with_def)
  ultimately show ?thesis using assms by (simp add: file_path_def plain_name_def)
qed

text \<open>No file name of the script is a directory, and no operation fails.\<close>

definition quiet :: "string list \<Rightarrow> 'z fs_scheme \<Rightarrow> bool" where
  "quiet names s \<longleftrightarrow> fs_faults s = [] \<and> list_all (\<lambda>n. plain_name n \<and> node_at [n] s \<noteq> Some Dir) names"

lemma quiet_put [simp]: "quiet names s \<Longrightarrow> x \<noteq> Dir \<Longrightarrow> quiet names (put_node p x s)"
  by (auto simp: quiet_def list_all_iff)

lemma quiet_add [simp]: "quiet names s \<Longrightarrow> quiet names (add_text n t s)"
  by (simp add: add_text_def)

lemma open_quiet: "quiet names s \<Longrightarrow> n \<in> set names \<Longrightarrow> open_w n s = (Inr (), put_node [n] (Text []) s)"
  by (auto simp: open_w_def quiet_def list_all_iff plain_path write_node_def bindM_def next_fault_def path_isdir_def)

lemma fwrite_quiet: "quiet names s \<Longrightarrow> n \<in> set names \<Longrightarrow> fwrite n t s = (Inr (), add_text n t s)"
  by (auto simp: fwrite_def quiet_def list_all_iff plain_path append_text_def bindM_def next_fault_def path_isdir_def
      add_text_def text_of_def split: option.splits node.splits)

lemma text_of_add [simp]: "text_of m (add_text n t s) = (if m = n then text_of m s @ t else text_of m s)"
  by (simp add: add_text_def text_of_def)

lemma text_of_open [simp]: "text_of m (put_node [n] (Text t) s) = (if m = n then t else text_of m s)"
  by (simp add: text_of_def)

text \<open>The text of the settings.\<close>

definition settings_text :: "namespace \<Rightarrow> string" where
  "settings_text ns = concat (map (\<lambda>(key, name). if arg ns name = PNone then [] else setting_line key (arg ns name)) conf_settings)"

lemma write_settings_quiet:
  assumes "quiet names s" "main_conf \<in> set names"
  shows "\<exists>t. write_settings main_conf ns s = (Inr (), t) \<and> quiet names t
    \<and> text_of main_conf t = text_of main_conf s @ settings_text ns \<and> (\<forall>m. m \<noteq> main_conf \<longrightarrow> text_of m t = text_of m s)"
proof -
  have "\<exists>t. forM kvs (\<lambda>(key, name). whenM (arg ns name \<noteq> PNone) (fwrite main_conf (setting_line key (arg ns name)))) s = (Inr (), t)
      \<and> quiet names t \<and> text_of main_conf t = text_of main_conf s @
          concat (map (\<lambda>(key, name). if arg ns name = PNone then [] else setting_line key (arg ns name)) kvs)
      \<and> (\<forall>m. m \<noteq> main_conf \<longrightarrow> text_of m t = text_of m s)" for kvs
    using assms(1)
  proof (induction kvs arbitrary: s)
    case Nil
    then show ?case by (simp add: retM_def)
  next
    case (Cons kv kvs)
    obtain key name where kv: "kv = (key, name)" by (cases kv)
    show ?case
    proof (cases "arg ns name = PNone")
      case True
      with kv Cons.IH [OF Cons.prems] show ?thesis by (simp add: whenM_def seqM_def bindM_def retM_def)
    next
      case False
      with kv Cons.IH [of "add_text main_conf (setting_line key (arg ns name)) s"] Cons.prems
        fwrite_quiet [OF Cons.prems assms(2), of "setting_line key (arg ns name)"]
      show ?thesis by (auto simp: whenM_def seqM_def bindM_def)
    qed
  qed
  from this [of conf_settings] show ?thesis by (simp add: write_settings_def settings_text_def)
qed

text \<open>What one tuple adds: a line to the main configuration, a line to the nodes, and its own file.\<close>

definition main_line :: "string \<Rightarrow> string list \<Rightarrow> string list \<Rightarrow> string" where
  "main_line addr key tls = ''replica = '' @ addr @ '', '' @ key ! 0 @ '', '' @ tls ! 2 @ [LF]"

definition node_line :: "string \<Rightarrow> nat \<Rightarrow> string \<Rightarrow> string" where
  "node_line prefix i addr = show_nat i @ '':'' @ addr @ [CHR 0x09] @ sec_name prefix i @ [LF]"

definition sec_text :: "nat \<Rightarrow> string list \<Rightarrow> string list \<Rightarrow> string" where
  "sec_text i key tls = ''privkey = '' @ key ! 1 @ [LF] @ ''tls-privkey = '' @ tls ! 1 @ [LF] @
     ''tls-cert = '' @ tls ! 0 @ [LF] @ ''idx = '' @ show_nat i @ [LF]"

lemma sec_name_inject [simp]: "sec_name p i = sec_name p j \<longleftrightarrow> i = j"
  unfolding sec_name_def same_append_eq using show_nat_append_eq [of "CHR ''.''" i "''conf''" j "''conf''"]
  by (auto simp: is_digit_def)

lemma sec_not_main [simp]: "sec_name p i \<noteq> p @ ''.conf''" "p @ ''.conf'' \<noteq> sec_name p i"
  by (auto simp: sec_name_def)

lemma write_replica_quiet:
  assumes "quiet names s" "{main_conf, nodes, sec_name prefix i} \<subseteq> set names"
    and "main_conf \<noteq> nodes" "sec_name prefix i \<notin> {main_conf, nodes}" "2 \<le> length key" "3 \<le> length tls"
  shows "\<exists>t. write_replica main_conf nodes prefix ((addr, key, tls), i) s = (Inr (), t) \<and> quiet names t
    \<and> text_of main_conf t = text_of main_conf s @ main_line addr key tls
    \<and> text_of nodes t = text_of nodes s @ node_line prefix i addr
    \<and> text_of (sec_name prefix i) t = sec_text i key tls
    \<and> (\<forall>m. m \<notin> {main_conf, nodes, sec_name prefix i} \<longrightarrow> text_of m t = text_of m s)"
proof -
  have ix: "py_index key 0 = Inr (key ! 0)" "py_index key (Suc 0) = Inr (key ! 1)" "py_index tls 0 = Inr (tls ! 0)"
    "py_index tls (Suc 0) = Inr (tls ! 1)" "py_index tls 2 = Inr (tls ! 2)"
    using assms(5,6) by (auto simp: py_index_def)
  let ?n = "sec_name prefix i"
  have mem: "main_conf \<in> set names" "nodes \<in> set names" "?n \<in> set names" using assms(2) by auto
  define s1 where "s1 = add_text main_conf (main_line addr key tls) s"
  define s2 where "s2 = add_text nodes (node_line prefix i addr) s1"
  define s3 where "s3 = put_node [?n] (Text []) s2"
  define s4 where "s4 = add_text ?n (''privkey = '' @ key ! 1 @ [LF]) s3"
  define s5 where "s5 = add_text ?n (''tls-privkey = '' @ tls ! 1 @ [LF]) s4"
  define s6 where "s6 = add_text ?n (''tls-cert = '' @ tls ! 0 @ [LF]) s5"
  define s7 where "s7 = add_text ?n (''idx = '' @ show_nat i @ [LF]) s6"
  note sd = s1_def s2_def s3_def s4_def s5_def s6_def s7_def
  have q: "quiet names s1" "quiet names s2" "quiet names s3" "quiet names s4" "quiet names s5" "quiet names s6" "quiet names s7"
    using assms(1) by (simp_all add: sd)
  have w: "fwrite main_conf (''replica = '' @ addr @ '', '' @ key ! 0 @ '', '' @ tls ! 2 @ [LF]) s = (Inr (), s1)"
    "fwrite nodes (show_nat i @ '':'' @ addr @ [CHR 0x09] @ ?n @ [LF]) s1 = (Inr (), s2)"
    "open_w ?n s2 = (Inr (), s3)"
    "fwrite ?n (''privkey = '' @ key ! 1 @ [LF]) s3 = (Inr (), s4)"
    "fwrite ?n (''tls-privkey = '' @ tls ! 1 @ [LF]) s4 = (Inr (), s5)"
    "fwrite ?n (''tls-cert = '' @ tls ! 0 @ [LF]) s5 = (Inr (), s6)"
    "fwrite ?n (''idx = '' @ show_nat i @ [LF]) s6 = (Inr (), s7)"
    unfolding fwrite_quiet [OF assms(1) mem(1)] fwrite_quiet [OF q(1) mem(2)] open_quiet [OF q(2) mem(3)]
      fwrite_quiet [OF q(3) mem(3)] fwrite_quiet [OF q(4) mem(3)] fwrite_quiet [OF q(5) mem(3)] fwrite_quiet [OF q(6) mem(3)]
    by (simp_all add: s1_def s2_def s3_def s4_def s5_def s6_def s7_def main_line_def node_line_def)
  have "write_replica main_conf nodes prefix ((addr, key, tls), i) s = (Inr (), s7)"
    using w by (simp add: write_replica_def Let_def seqM_def bindM_def liftR_def ix)
  moreover have "text_of main_conf s7 = text_of main_conf s @ main_line addr key tls"
    "text_of nodes s7 = text_of nodes s @ node_line prefix i addr" "text_of ?n s7 = sec_text i key tls"
    "\<And>m. m \<notin> {main_conf, nodes, ?n} \<Longrightarrow> text_of m s7 = text_of m s"
    using assms(3,4) by (auto simp: sd sec_text_def)
  ultimately show ?thesis using q(7) by blast
qed

text \<open>The file names of a run with \<open>n\<close> replicas.\<close>

definition conf_names :: "string \<Rightarrow> string \<Rightarrow> nat \<Rightarrow> string list" where
  "conf_names prefix nodes n = (prefix @ ''.conf'') # nodes # map (sec_name prefix) [0..<n]"

lemma write_replicas_quiet:
  assumes "quiet (conf_names prefix nodes k) s" "distinct (conf_names prefix nodes k)" "n \<le> k"
    and "\<And>i. i < n \<Longrightarrow> 2 \<le> length (key i) \<and> 3 \<le> length (tls i)"
  shows "\<exists>t. forM (map (\<lambda>i. ((addr i, key i, tls i), i)) [0..<n]) (write_replica (prefix @ ''.conf'') nodes prefix) s = (Inr (), t)
    \<and> quiet (conf_names prefix nodes k) t
    \<and> text_of (prefix @ ''.conf'') t = text_of (prefix @ ''.conf'') s @ concat (map (\<lambda>i. main_line (addr i) (key i) (tls i)) [0..<n])
    \<and> text_of nodes t = text_of nodes s @ concat (map (\<lambda>i. node_line prefix i (addr i)) [0..<n])
    \<and> map (\<lambda>i. text_of (sec_name prefix i) t) [0..<n] = map (\<lambda>i. sec_text i (key i) (tls i)) [0..<n]"
  using assms(3,4)
proof (induction n)
  case 0
  then show ?case using assms(1) by (simp add: retM_def)
next
  case (Suc n)
  then obtain t where t: "forM (map (\<lambda>i. ((addr i, key i, tls i), i)) [0..<n]) (write_replica (prefix @ ''.conf'') nodes prefix) s = (Inr (), t)"
    "quiet (conf_names prefix nodes k) t"
    "text_of (prefix @ ''.conf'') t = text_of (prefix @ ''.conf'') s @ concat (map (\<lambda>i. main_line (addr i) (key i) (tls i)) [0..<n])"
    "text_of nodes t = text_of nodes s @ concat (map (\<lambda>i. node_line prefix i (addr i)) [0..<n])"
    "map (\<lambda>i. text_of (sec_name prefix i) t) [0..<n] = map (\<lambda>i. sec_text i (key i) (tls i)) [0..<n]"
    by auto
  have names: "{prefix @ ''.conf'', nodes, sec_name prefix n} \<subseteq> set (conf_names prefix nodes k)"
    "prefix @ ''.conf'' \<noteq> nodes" "\<And>i. i < k \<Longrightarrow> sec_name prefix i \<notin> {prefix @ ''.conf'', nodes}"
    using assms(2) Suc.prems(1) by (auto simp: conf_names_def)
  have kt: "2 \<le> length (key n)" "3 \<le> length (tls n)" and nk: "n < k" using Suc.prems(1) Suc.prems(2) [of n] by auto
  from write_replica_quiet [OF t(2) names(1,2) names(3) [OF nk] kt, of "addr n"]
  obtain u where u: "write_replica (prefix @ ''.conf'') nodes prefix ((addr n, key n, tls n), n) t = (Inr (), u)"
    "quiet (conf_names prefix nodes k) u"
    "text_of (prefix @ ''.conf'') u = text_of (prefix @ ''.conf'') t @ main_line (addr n) (key n) (tls n)"
    "text_of nodes u = text_of nodes t @ node_line prefix n (addr n)"
    "text_of (sec_name prefix n) u = sec_text n (key n) (tls n)"
    "\<And>m. m \<notin> {prefix @ ''.conf'', nodes, sec_name prefix n} \<Longrightarrow> text_of m u = text_of m t"
    by auto
  have "text_of (sec_name prefix i) u = text_of (sec_name prefix i) t" if "i < n" for i
    using u(6) [of "sec_name prefix i"] names(3) [of i] that Suc.prems(1) by simp
  then have "map (\<lambda>i. text_of (sec_name prefix i) u) [0..<n] = map (\<lambda>i. text_of (sec_name prefix i) t) [0..<n]" by simp
  with t u show ?case by (simp add: forM_append seqM_def bindM_def retM_def)
qed

lemma zip_upt_map: "length xs \<le> n \<Longrightarrow> zip xs [0..<n] = map (\<lambda>i. (xs ! i, i)) [0..<length xs]"
  by (rule nth_equalityI) simp_all

lemma read_keygen_n: "length (assign_ports p c [] ips) = length ips"
  by (simp add: assign_ports_eq)

lemma gen_conf_main_run:
  fixes ns :: namespace and s :: "'z fs_scheme"
  defines "prefix \<equiv> str_arg ns ''prefix''" and "nodes \<equiv> str_arg ns ''nodes''"
  defines "addr \<equiv> (\<lambda>ips i. replica_addr (int_arg ns ''pport'') (int_arg ns ''cport'') (ips ! i) (host_rank ips i))"
  assumes ips: "read_ips (arg ns ''ips'') s = (Inr ips, s)"
    and keygen: "run_keygen kg (str_arg ns ''keygen'') (length ips) = Inr keys"
      "run_keygen tkg (str_arg ns ''tls_keygen'') (length ips) = Inr tls_keys"
    and wf: "list_all (\<lambda>k. 2 \<le> length k) keys" "list_all (\<lambda>k. 3 \<le> length k) tls_keys"
    and quiet: "quiet (conf_names prefix nodes (length ips)) s" and dist: "distinct (conf_names prefix nodes (length ips))"
    and m: "m = min (length ips) (min (length keys) (length tls_keys))"
  shows "\<exists>t. gen_conf_main kg tkg ns s = (Inr (), t)
    \<and> text_of (prefix @ ''.conf'') t = settings_text ns @ concat (map (\<lambda>i. main_line (addr ips i) (keys ! i) (tls_keys ! i)) [0..<m])
    \<and> text_of nodes t = concat (map (\<lambda>i. node_line prefix i (addr ips i)) [0..<m])
    \<and> map (\<lambda>i. text_of (sec_name prefix i) t) [0..<m] = map (\<lambda>i. sec_text i (keys ! i) (tls_keys ! i)) [0..<m]"
proof -
  let ?names = "conf_names prefix nodes (length ips)" and ?main = "prefix @ ''.conf''"
  let ?reps = "assign_ports (int_arg ns ''pport'') (int_arg ns ''cport'') [] ips"
  have mem: "?main \<in> set ?names" "nodes \<in> set ?names" and ne: "?main \<noteq> nodes"
    using dist by (auto simp: conf_names_def)
  define s1 where "s1 = put_node [?main] (Text []) s"
  define s2 where "s2 = put_node [nodes] (Text []) s1"
  have q: "quiet ?names s1" "quiet ?names s2" using quiet by (simp_all add: s1_def s2_def)
  have op: "open_w ?main s = (Inr (), s1)" "open_w nodes s1 = (Inr (), s2)"
    using open_quiet [OF quiet mem(1)] open_quiet [OF q(1) mem(2)] by (simp_all add: s1_def s2_def)
  have empty: "text_of ?main s2 = []" "text_of nodes s2 = []" using ne by (simp_all add: s1_def s2_def)
  from write_settings_quiet [OF q(2) mem(1), of ns] obtain u where u: "write_settings ?main ns s2 = (Inr (), u)"
    "quiet ?names u" "text_of ?main u = settings_text ns" "text_of nodes u = []"
    using ne empty by auto
  have items: "zip (zip ?reps (zip keys tls_keys)) [0..<length ?reps] = map (\<lambda>i. ((addr ips i, keys ! i, tls_keys ! i), i)) [0..<m]"
    by (subst zip_upt_map) (auto simp: assign_ports_eq addr_def m)
  have "2 \<le> length (keys ! i) \<and> 3 \<le> length (tls_keys ! i)" if "i < m" for i
    using that wf by (auto simp: list_all_length m)
  with write_replicas_quiet [OF u(2) dist, of m "\<lambda>i. keys ! i" "\<lambda>i. tls_keys ! i" "addr ips"]
  obtain t where t: "forM (map (\<lambda>i. ((addr ips i, keys ! i, tls_keys ! i), i)) [0..<m]) (write_replica ?main nodes prefix) u = (Inr (), t)"
    "text_of ?main t = settings_text ns @ concat (map (\<lambda>i. main_line (addr ips i) (keys ! i) (tls_keys ! i)) [0..<m])"
    "text_of nodes t = concat (map (\<lambda>i. node_line prefix i (addr ips i)) [0..<m])"
    "map (\<lambda>i. text_of (sec_name prefix i) t) [0..<m] = map (\<lambda>i. sec_text i (keys ! i) (tls_keys ! i)) [0..<m]"
    using u(3,4) by (auto simp: m)
  have "gen_conf_main kg tkg ns s = (Inr (), t)"
    using ips keygen op u(1) t(1) items
    by (simp add: gen_conf_main_def Let_def seqM_def bindM_def liftR_def read_keygen_n prefix_def nodes_def)
  with t(2-4) show ?thesis by blast
qed


definition empty_disk :: fs where
  "empty_disk = \<lparr>fs_files = [], fs_faults = []\<rparr>"

lemma default_args:
  "arg (defaults gen_conf_options) ''ips'' = PNone" "str_arg (defaults gen_conf_options) ''prefix'' = ''hotstuff.gen''"
  "str_arg (defaults gen_conf_options) ''nodes'' = ''nodes.txt''" "int_arg (defaults gen_conf_options) ''pport'' = 10000"
  "int_arg (defaults gen_conf_options) ''cport'' = 20000"
  by code_simp+


subsection \<open>The command line of the harness\<close>

lemma dash_flags: "list_all (\<lambda>q. starts_with ''--'' (op_flag q)) gen_conf_options"
  by code_simp

lemma value_show_int:
  assumes "list_all (\<lambda>q. starts_with ''--'' (op_flag q)) opts"
  shows "value_word opts (show_int i)"
proof (cases "i < 0")
  case False
  then have "hd (show_int i) \<noteq> CHR ''-''" using show_nat_hd_last(1) is_digit_neq by (auto simp: show_int_def)
  then show ?thesis by (intro plain_value) simp
next
  case True
  obtain d r where d: "show_nat (nat (- i)) = d # r" by (cases "show_nat (nat (- i))") auto
  have dig: "\<forall>x \<in> set (d # r). is_digit x" unfolding d [symmetric] by (auto dest: show_nat_digits)
  have nd: "c \<notin> set (d # r)" if "\<not> is_digit c" for c using dig that by blast
  have "\<not> is_digit (CHR ''-'')" "\<not> is_digit (CHR ''.'')" "\<not> is_digit (CHR ''='')" "\<not> is_digit (CHR ''h'')"
    by (simp_all add: is_digit_def)
  note nd' = this [THEN nd]
  have dd: "d \<noteq> CHR ''-''" "CHR ''.'' \<notin> set (d # r)" "CHR ''='' \<notin> set (d # r)" "is_digit d" "d \<noteq> CHR ''h''"
    "list_all is_digit r"
    using nd' dig by (simp_all add: list_all_iff) blast+
  have w: "show_int i = CHR ''-'' # d # r" using True by (simp add: show_int_def d)
  have "op_flag q \<noteq> show_int i \<and> op_flag q \<noteq> take 2 (show_int i)" if "q \<in> set (help_options @ opts)" for q
    using that assms dd(1,5) by (auto simp: w help_options_def add_argument_def list_all_iff starts_with_def)
  then have none: "find_flag (help_options @ opts) (show_int i) = None" "prefix_matches (help_options @ opts) (show_int i) = []"
    using dd(1) by (auto simp: find_flag_def find_None_iff prefix_matches_def w starts_with_def filter_empty_conv)
  have "negative_number (show_int i)"
    using dd by (auto simp: negative_number_def w)
  with none show ?thesis
    using dd(1,3) by (simp add: value_word_def classify_def w Let_def split: prod.splits)
qed

text \<open>The words after the script in the command of the harness, and what the script should see.\<close>

definition gen_conf_flags :: "string \<Rightarrow> gen_conf_args \<Rightarrow> (string \<times> string) list" where
  "gen_conf_flags repo_name a =
     [(''--prefix'', gc_prefix a), (''--ips'', gc_ips_file a),
      (''--keygen'', path_join repo_name ''hotstuff-keygen''), (''--tls-keygen'', path_join repo_name ''hotstuff-tls-keygen''),
      (''--block-size'', show_int (gc_block_size a)), (''--pace-maker'', gc_pace_maker a),
      (''--nworker'', show_int (gc_nworker a)), (''--repnworker'', show_int (gc_repnworker a)),
      (''--clinworker'', show_int (gc_clinworker a)), (''--repburst'', show_int (gc_repburst a)),
      (''--cliburst'', show_int (gc_cliburst a)), (''--pport'', show_int (gc_pport a)),
      (''--cport'', show_int (gc_cport a)), (''--sb-users'', show_int (gc_sb_users a)),
      (''--sb-prob-choose_mtx'', show_float (gc_sb_prob_choose_mtx a)),
      (''--sb-skew-factor'', show_float (gc_sb_skew_factor a))]"

lemma argv_flags: "drop 2 (gen_conf_argv repo_name a) = flag_values (gen_conf_flags repo_name a)"
  by (simp add: gen_conf_argv_def gen_conf_flags_def)

definition expected_args :: "string \<Rightarrow> gen_conf_args \<Rightarrow> namespace" where
  "expected_args repo_name a =
     [(''prefix'', PStr (gc_prefix a)), (''ips'', PStr (gc_ips_file a)), (''iter'', PInt 10),
      (''pport'', PInt (gc_pport a)), (''cport'', PInt (gc_cport a)),
      (''keygen'', PStr (path_join repo_name ''hotstuff-keygen'')), (''tls_keygen'', PStr (path_join repo_name ''hotstuff-tls-keygen'')),
      (''nodes'', PStr ''nodes.txt''), (''block_size'', PInt (gc_block_size a)), (''pace_maker'', PStr (gc_pace_maker a)),
      (''nworker'', PInt (gc_nworker a)), (''repnworker'', PInt (gc_repnworker a)), (''clinworker'', PInt (gc_clinworker a)),
      (''repburst'', PInt (gc_repburst a)), (''cliburst'', PInt (gc_cliburst a)), (''sb_users'', PInt (gc_sb_users a)),
      (''sb_prob_choose_mtx'', PFloat (gc_sb_prob_choose_mtx a)), (''sb_skew_factor'', PFloat (gc_sb_skew_factor a))]"

text \<open>A string that \<open>argparse\<close> cannot take for an option, and a float whose printed form reads back.\<close>

definition plain_word :: "string \<Rightarrow> bool" where
  "plain_word w \<longleftrightarrow> w = [] \<or> hd w \<noteq> CHR ''-''"

definition readable_float :: "pyfloat \<Rightarrow> bool" where
  "readable_float x \<longleftrightarrow> plain_word (show_float x) \<and> float_of_string (show_float x) = Some x"

lemma value_flags: "list_all (\<lambda>(f, v). value_flag gen_conf_options f) (gen_conf_flags r a)"
proof -
  have "list_all (value_flag gen_conf_options) (map fst (gen_conf_flags r a))"
    unfolding gen_conf_flags_def list.map fst_conv by code_simp
  then show ?thesis by (simp add: list_all_iff split_beta)
qed

text \<open>The option of each flag, and the default namespace, evaluated.\<close>

lemma flag_options:
  "find_flag gen_conf_options ''--prefix'' = Some (add_argument ''--prefix'' StoreStr (PStr ''hotstuff.gen''))"
  "find_flag gen_conf_options ''--ips'' = Some (add_argument ''--ips'' StoreStr PNone)"
  "find_flag gen_conf_options ''--keygen'' = Some (add_argument ''--keygen'' StoreStr (PStr ''./hotstuff-keygen''))"
  "find_flag gen_conf_options ''--tls-keygen'' = Some (add_argument ''--tls-keygen'' StoreStr (PStr ''./hotstuff-tls-keygen''))"
  "find_flag gen_conf_options ''--block-size'' = Some (add_argument ''--block-size'' StoreInt (PInt 1))"
  "find_flag gen_conf_options ''--pace-maker'' = Some (add_argument ''--pace-maker'' StoreStr (PStr ''dummy''))"
  "find_flag gen_conf_options ''--nworker'' = Some (add_argument ''--nworker'' StoreInt (PInt 4))"
  "find_flag gen_conf_options ''--repnworker'' = Some (add_argument ''--repnworker'' StoreInt (PInt 4))"
  "find_flag gen_conf_options ''--clinworker'' = Some (add_argument ''--clinworker'' StoreInt (PInt 4))"
  "find_flag gen_conf_options ''--repburst'' = Some (add_argument ''--repburst'' StoreInt (PInt 1000))"
  "find_flag gen_conf_options ''--cliburst'' = Some (add_argument ''--cliburst'' StoreInt (PInt 1000))"
  "find_flag gen_conf_options ''--pport'' = Some (add_argument ''--pport'' StoreInt (PInt 10000))"
  "find_flag gen_conf_options ''--cport'' = Some (add_argument ''--cport'' StoreInt (PInt 20000))"
  "find_flag gen_conf_options ''--sb-users'' = Some (add_argument ''--sb-users'' StoreInt (PInt 20))"
  "find_flag gen_conf_options ''--sb-prob-choose_mtx'' = Some (add_argument ''--sb-prob-choose_mtx'' StoreFloat (PFloat (Fin (9 / 10))))"
  "find_flag gen_conf_options ''--sb-skew-factor'' = Some (add_argument ''--sb-skew-factor'' StoreFloat (PFloat (Fin (1 / 10))))"
  by (simp_all add: find_flag_def gen_conf_options_def add_argument_def)

lemma option_dests:
  "dest_of ''--prefix'' = ''prefix''" "dest_of ''--ips'' = ''ips''" "dest_of ''--iter'' = ''iter''" "dest_of ''--pport'' = ''pport''"
  "dest_of ''--cport'' = ''cport''" "dest_of ''--keygen'' = ''keygen''" "dest_of ''--tls-keygen'' = ''tls_keygen''"
  "dest_of ''--nodes'' = ''nodes''" "dest_of ''--block-size'' = ''block_size''" "dest_of ''--pace-maker'' = ''pace_maker''"
  "dest_of ''--nworker'' = ''nworker''" "dest_of ''--repnworker'' = ''repnworker''" "dest_of ''--clinworker'' = ''clinworker''"
  "dest_of ''--repburst'' = ''repburst''" "dest_of ''--cliburst'' = ''cliburst''" "dest_of ''--sb-users'' = ''sb_users''"
  "dest_of ''--sb-prob-choose_mtx'' = ''sb_prob_choose_mtx''" "dest_of ''--sb-skew-factor'' = ''sb_skew_factor''"
  by (simp_all add: dest_of_def)

lemma add_argument_sel [simp]:
  "op_dest (add_argument f k d) = dest_of f" "op_kind (add_argument f k d) = k" "op_default (add_argument f k d) = d"
  by (simp_all add: add_argument_def)

lemma defaults_gen_conf:
  "defaults gen_conf_options =
     [(''prefix'', PStr ''hotstuff.gen''), (''ips'', PNone), (''iter'', PInt 10), (''pport'', PInt 10000), (''cport'', PInt 20000),
      (''keygen'', PStr ''./hotstuff-keygen''), (''tls_keygen'', PStr ''./hotstuff-tls-keygen''), (''nodes'', PStr ''nodes.txt''),
      (''block_size'', PInt 1), (''pace_maker'', PStr ''dummy''), (''nworker'', PInt 4), (''repnworker'', PInt 4),
      (''clinworker'', PInt 4), (''repburst'', PInt 1000), (''cliburst'', PInt 1000), (''sb_users'', PInt 20),
      (''sb_prob_choose_mtx'', PFloat (Fin (9 / 10))), (''sb_skew_factor'', PFloat (Fin (1 / 10)))]"
  by (simp add: defaults_def gen_conf_options_def option_dests)

lemma store_gen_conf:
  assumes "readable_float (gc_sb_prob_choose_mtx a)" "readable_float (gc_sb_skew_factor a)"
  shows "store_all gen_conf_options (gen_conf_flags r a) (defaults gen_conf_options) = Some (expected_args r a)"
  using assms
  by (simp add: gen_conf_flags_def flag_options option_dests int_of_show_int readable_float_def expected_args_def
      defaults_gen_conf)

lemma parse_gen_conf_flags:
  assumes "plain_word (gc_prefix a)" "plain_word (gc_ips_file a)" "plain_word (gc_pace_maker a)"
    and "plain_word (path_join r ''hotstuff-keygen'')" "plain_word (path_join r ''hotstuff-tls-keygen'')"
    and "readable_float (gc_sb_prob_choose_mtx a)" "readable_float (gc_sb_skew_factor a)"
  shows "parse_args gen_conf_options (flag_values (gen_conf_flags r a)) = Inr (expected_args r a)"
proof (rule parse_flag_values)
  have "list_all (value_word gen_conf_options) (map snd (gen_conf_flags r a))"
    using assms value_show_int [OF dash_flags]
    by (simp add: gen_conf_flags_def plain_value plain_word_def readable_float_def)
  with value_flags [of r a]
  show "value_flag gen_conf_options f \<and> value_word gen_conf_options v" if "(f, v) \<in> set (gen_conf_flags r a)" for f v
    using that by (auto simp: list_all_iff)
qed (rule store_gen_conf [OF assms(6,7)])

text \<open>The harness and the script agree on the command line: for every parameter set whose strings do not
  look like options and whose floats print readably, the argument vector of \<open>CommandMaker.gen_conf\<close> is
  parsed by \<open>gen_conf.py\<close> into exactly those parameters.\<close>

theorem gen_conf_args_roundtrip:
  assumes "plain_word (gc_prefix a)" "plain_word (gc_ips_file a)" "plain_word (gc_pace_maker a)"
    and "plain_word (path_join r ''hotstuff-keygen'')" "plain_word (path_join r ''hotstuff-tls-keygen'')"
    and "readable_float (gc_sb_prob_choose_mtx a)" "readable_float (gc_sb_skew_factor a)"
  shows "parse_args gen_conf_options (drop 2 (gen_conf_argv r a)) = Inr (expected_args r a)"
  unfolding argv_flags by (rule parse_gen_conf_flags [OF assms])

definition sample_args :: gen_conf_args where
  "sample_args = \<lparr>gc_ips_file = ''ips.txt'', gc_prefix = ''hotstuff'', gc_block_size = 400, gc_pace_maker = ''rr'', gc_nworker = 4,
     gc_repnworker = 4, gc_clinworker = 4, gc_repburst = 1000, gc_cliburst = 1000, gc_pport = 10000, gc_cport = 20000,
     gc_sb_users = 1000, gc_sb_prob_choose_mtx = Fin (9 / 10), gc_sb_skew_factor = Fin (1 / 10)\<rparr>"

lemma gen_conf_args_roundtrip_witness:
  "parse_args gen_conf_options (drop 2 (gen_conf_argv ''libhotstuff'' sample_args)) = Inr (expected_args ''libhotstuff'' sample_args)"
proof (rule gen_conf_args_roundtrip)
  show "readable_float (gc_sb_prob_choose_mtx sample_args)" "readable_float (gc_sb_skew_factor sample_args)"
    unfolding sample_args_def gen_conf_args.simps by code_simp+
qed (simp_all add: plain_word_def sample_args_def path_join_def starts_with_def)

end
