(* ===== verification/Gen_Inventory.thy ===== *)
theory Gen_Inventory
  imports Gen_Conf
begin

section \<open>The deployment inventory (scripts/deploy/gen_inventory.py)\<close>

text \<open>
  The script reads the replica and client machines and prints an ansible inventory: all machines,
  the replicas with an index that tells the processes of one machine apart, and the clients. The
  state of a script is the file system and what it printed, one string per call of \<open>print\<close>.
\<close>

record script = fs +
  printed :: "string list"

definition print_line :: "string \<Rightarrow> (script, unit) M" where
  "print_line t = modifyM (\<lambda>s. s\<lparr>printed := printed s @ [t]\<rparr>)"

definition inventory_options :: "opt list" where
  "inventory_options =
     [add_argument ''--replicas'' StoreStr (PStr ''replicas.txt''),
      add_argument ''--clients'' StoreStr (PStr ''clients.txt''),
      add_argument ''--prefix'' StoreStr (PStr ''hotstuff.gen'')]"

text \<open>\<open>(pub_ip, priv_ip) = line.split()\<close>.\<close>

definition unpack_replica :: "string \<Rightarrow> (string \<times> string) res" where
  "unpack_replica line =
     (case py_words line of
        [a, b] \<Rightarrow> Inr (py_strip a, py_strip b)
      | _ \<Rightarrow> Inl (ValueError ''cannot unpack the line into (pub_ip, priv_ip)''))"

definition read_replicas :: "string \<Rightarrow> (script, (string \<times> string) list) M" where
  "read_replicas f = bindM (read_text (file_path f)) (\<lambda>t. liftR (mapR unpack_replica (text_lines t)))"

definition read_clients :: "string \<Rightarrow> (script, string list) M" where
  "read_clients f = bindM (read_text (file_path f)) (\<lambda>t. retM (map py_strip (text_lines t)))"

text \<open>\<open>sorted(set(...))\<close>.\<close>

definition machines_of :: "(string \<times> string) list \<Rightarrow> string list \<Rightarrow> string list" where
  "machines_of replicas clients = sort (remdups (map fst replicas @ clients))"

definition replica_line :: "string \<Rightarrow> nat \<Rightarrow> string \<Rightarrow> int \<Rightarrow> string" where
  "replica_line prefix i pub_ip host_idx =
     ''replica'' @ show_nat i @ '' ansible_host='' @ pub_ip @ '' host_idx='' @ show_int host_idx @
     '' extra_conf='' @ prefix @ ''-sec'' @ show_nat i @ ''.conf''"

definition client_entry :: "nat \<Rightarrow> string \<Rightarrow> int \<Rightarrow> string" where
  "client_entry i ip host_idx =
     ''client'' @ show_nat i @ '' ansible_host='' @ ip @ '' host_idx='' @ show_int host_idx @ '' cid='' @ show_nat i"

text \<open>\<open>host_idx_count.setdefault(ip, 0)\<close> and the increment after it.\<close>

definition next_idx :: "string \<Rightarrow> (string, int) dict \<Rightarrow> int \<times> (string, int) dict" where
  "next_idx ip idx_count =
     (let idx_count' = dict_setdefault ip 0 idx_count; i = the (dict_get idx_count' ip) in (i, dict_set ip (i + 1) idx_count'))"

text \<open>The two loops. The second one counts under \<open>pub_ip\<close>, the variable the first loop left behind.\<close>

fun print_replicas :: "string \<Rightarrow> (string, int) dict \<Rightarrow> nat \<Rightarrow> (string \<times> string) list \<Rightarrow> (script, (string, int) dict) M" where
  "print_replicas prefix idx_count i [] = retM idx_count"
| "print_replicas prefix idx_count i ((pub_ip, priv_ip) # rs) =
     (let (host_idx, idx_count') = next_idx pub_ip idx_count in
      seqM (print_line (replica_line prefix i pub_ip host_idx)) (print_replicas prefix idx_count' (Suc i) rs))"

fun print_clients :: "string option \<Rightarrow> (string, int) dict \<Rightarrow> nat \<Rightarrow> string list \<Rightarrow> (script, unit) M" where
  "print_clients pub_ip idx_count i [] = retM ()"
| "print_clients pub_ip idx_count i (ip # ips) =
     (case pub_ip of
        None \<Rightarrow> raiseM (NameError ''name pub_ip is not defined'')
      | Some p \<Rightarrow>
          (let (host_idx, idx_count') = next_idx p idx_count in
           seqM (print_line (client_entry i ip host_idx)) (print_clients pub_ip idx_count' (Suc i) ips)))"

definition inventory_main :: "namespace \<Rightarrow> (script, unit) M" where
  "inventory_main ns =
     seqM (print_line ''[nodes_setup]'')
    (bindM (read_replicas (str_arg ns ''replicas'')) (\<lambda>replicas.
     bindM (read_clients (str_arg ns ''clients'')) (\<lambda>clients.
     seqM (print_line (py_join [LF] (machines_of replicas clients)))
    (seqM (print_line ([LF] @ ''[nodes]''))
    (bindM (print_replicas (str_arg ns ''prefix'') [] 0 replicas) (\<lambda>idx_count.
     seqM (print_line ([LF] @ ''[clients]''))
       (print_clients (if replicas = [] then None else Some (fst (last replicas))) idx_count 0 clients)))))))"

definition inventory_run :: "string list \<Rightarrow> (script, unit) M" where
  "inventory_run argv = bindM (liftR (parse_args inventory_options argv)) inventory_main"

subsection \<open>The printed inventory\<close>

text \<open>The counter of a machine is the number of lines printed under it so far.\<close>

definition counts :: "(string, int) dict \<Rightarrow> string list \<Rightarrow> bool" where
  "counts d seen \<longleftrightarrow> (\<forall>ip. (case dict_get d ip of None \<Rightarrow> 0 | Some k \<Rightarrow> k) = int (length (filter (\<lambda>x. x = ip) seen)))"

lemma next_idx_counts:
  assumes "counts d seen"
  shows "\<exists>d'. next_idx ip d = (int (length (filter (\<lambda>x. x = ip) seen)), d') \<and> counts d' (seen @ [ip])"
  using assms spec [of _ ip] unfolding counts_def
  by (auto simp: next_idx_def Let_def dict_simps split: option.splits) (metis option.distinct(1))

lemma counts_Nil [simp]: "counts [] []"
  by (simp add: counts_def)

lemma print_replicas_run:
  assumes "counts d seen"
  shows "\<exists>d'. print_replicas prefix d i rs s =
      (Inr d', s\<lparr>printed := printed s @ map (\<lambda>k. replica_line prefix (i + k) (fst (rs ! k))
         (int (length (filter (\<lambda>x. x = fst (rs ! k)) (seen @ map fst (take k rs)))))) [0..<length rs]\<rparr>)
    \<and> counts d' (seen @ map fst rs)"
  using assms
proof (induction rs arbitrary: d seen i s)
  case Nil
  then show ?case by (simp add: retM_def)
next
  case (Cons r rs)
  obtain p q where r: "r = (p, q)" by (cases r)
  from next_idx_counts [OF Cons.prems, of p] obtain d' where
    d': "next_idx p d = (int (length (filter (\<lambda>x. x = p) seen)), d')" "counts d' (seen @ [p])" by blast
  from Cons.IH [OF d'(2), of "Suc i" "s\<lparr>printed := printed s @ [replica_line prefix i p (int (length (filter (\<lambda>x. x = p) seen)))]\<rparr>"]
  show ?case
    by (auto simp: r d'(1) seqM_def bindM_def print_line_def modifyM_def map_upt_Suc simp del: upt_Suc)
qed

lemma print_clients_run:
  assumes "counts d seen"
  shows "print_clients (Some p) d i cs s =
    (Inr (), s\<lparr>printed := printed s @ map (\<lambda>k. client_entry (i + k) (cs ! k) (int (length (filter (\<lambda>x. x = p) seen) + k))) [0..<length cs]\<rparr>)"
  using assms
proof (induction cs arbitrary: d seen i s)
  case Nil
  then show ?case by (simp add: retM_def)
next
  case (Cons c cs)
  from next_idx_counts [OF Cons.prems, of p] obtain d' where
    d': "next_idx p d = (int (length (filter (\<lambda>x. x = p) seen)), d')" "counts d' (seen @ [p])" by blast
  from Cons.IH [OF d'(2)] show ?case
    by (simp add: d'(1) seqM_def bindM_def print_line_def modifyM_def map_upt_Suc ac_simps del: upt_Suc)
qed

text \<open>What the program prints, when both files can be read and every replica line has two fields.\<close>

lemma inventory_run_main:
  assumes "read_replicas (str_arg ns ''replicas'') (s\<lparr>printed := printed s @ [''[nodes_setup]'']\<rparr>) = (Inr rs, t)"
    and "read_clients (str_arg ns ''clients'') t = (Inr cs, u)" and "rs \<noteq> []"
  shows "inventory_main ns s = (Inr (), u\<lparr>printed := printed u @ [py_join [LF] (machines_of rs cs), [LF] @ ''[nodes]''] @
     map (\<lambda>k. replica_line (str_arg ns ''prefix'') k (fst (rs ! k)) (int (host_rank (map fst rs) k))) [0..<length rs] @
     [[LF] @ ''[clients]''] @
     map (\<lambda>k. client_entry k (cs ! k) (int (length (filter (\<lambda>x. x = fst (last rs)) (map fst rs)) + k))) [0..<length cs]\<rparr>)"
proof -
  let ?u2 = "u\<lparr>printed := printed u @ [py_join [LF] (machines_of rs cs)] @ [[LF] @ ''[nodes]'']\<rparr>"
  from print_replicas_run [OF counts_Nil, of "str_arg ns ''prefix''" 0 rs ?u2] obtain d' where
    d': "print_replicas (str_arg ns ''prefix'') [] 0 rs ?u2 = (Inr d', ?u2\<lparr>printed := printed ?u2 @
       map (\<lambda>k. replica_line (str_arg ns ''prefix'') k (fst (rs ! k)) (int (length (filter (\<lambda>x. x = fst (rs ! k)) (map fst (take k rs)))))) [0..<length rs]\<rparr>)"
    "counts d' (map fst rs)" by auto
  have rank: "map (\<lambda>k. replica_line prefix k (fst (rs ! k)) (int (length (filter (\<lambda>x. x = fst (rs ! k)) (map fst (take k rs)))))) [0..<length rs]
      = map (\<lambda>k. replica_line prefix k (fst (rs ! k)) (int (host_rank (map fst rs) k))) [0..<length rs]" for prefix
    by (simp add: host_rank_def take_map)
  show ?thesis
    using assms d'(1) [unfolded rank] print_clients_run [OF d'(2), of "fst (last rs)" 0 cs]
    by (simp add: inventory_main_def seqM_def bindM_def print_line_def modifyM_def)
qed

subsection \<open>Properties of the inventory\<close>

lemma read_text_plain:
  "fs_faults s = [] \<Longrightarrow> node_at p s = Some (Text t) \<Longrightarrow> read_text p s = (Inr (translate_newlines t), s)"
  by (simp add: read_text_def read_node_def bindM_def next_fault_def retM_def)

text \<open>C28. The inventory: the program prints every machine once, in sorted order; each replica with the number
  of replicas before it on the same machine; and each client with the number of replicas on the machine
  of the \<^emph>\<open>last\<close> replica plus its own position, whatever machine the client is on.\<close>

theorem inventory_output:
  assumes "fs_faults s = []"
    and "node_at (file_path (str_arg ns ''replicas'')) s = Some (Text rt)"
    and "node_at (file_path (str_arg ns ''clients'')) s = Some (Text ct)"
    and "mapR unpack_replica (text_lines (translate_newlines rt)) = Inr rs" "rs \<noteq> []"
    and "map py_strip (text_lines (translate_newlines ct)) = cs"
  shows "\<exists>machines. sorted machines \<and> distinct machines \<and> set machines = fst ` set rs \<union> set cs \<and>
    inventory_main ns s = (Inr (), s\<lparr>printed := printed s @ [''[nodes_setup]'', py_join [LF] machines, [LF] @ ''[nodes]''] @
     map (\<lambda>k. replica_line (str_arg ns ''prefix'') k (fst (rs ! k)) (int (host_rank (map fst rs) k))) [0..<length rs] @
     [[LF] @ ''[clients]''] @
     map (\<lambda>k. client_entry k (cs ! k) (int (length (filter (\<lambda>x. x = fst (last rs)) (map fst rs)) + k))) [0..<length cs]\<rparr>)"
proof (intro exI conjI)
  show "sorted (machines_of rs cs)" "distinct (machines_of rs cs)" "set (machines_of rs cs) = fst ` set rs \<union> set cs"
    by (auto simp: machines_of_def)
  let ?t = "s\<lparr>printed := printed s @ [''[nodes_setup]'']\<rparr>"
  have keep: "fs_faults ?t = []" "node_at p ?t = node_at p s" for p using assms(1) by (simp_all add: node_at_def)
  have "read_replicas (str_arg ns ''replicas'') ?t = (Inr rs, ?t)"
    using assms(2,4) by (simp add: read_replicas_def read_text_plain [OF keep(1)] keep(2) bindM_def liftR_def)
  moreover have "read_clients (str_arg ns ''clients'') ?t = (Inr cs, ?t)"
    using assms(3,6) by (simp add: read_clients_def read_text_plain [OF keep(1)] keep(2) bindM_def retM_def)
  ultimately show "inventory_main ns s = (Inr (), s\<lparr>printed := printed s @ [''[nodes_setup]'', py_join [LF] (machines_of rs cs), [LF] @ ''[nodes]''] @
     map (\<lambda>k. replica_line (str_arg ns ''prefix'') k (fst (rs ! k)) (int (host_rank (map fst rs) k))) [0..<length rs] @
     [[LF] @ ''[clients]''] @
     map (\<lambda>k. client_entry k (cs ! k) (int (length (filter (\<lambda>x. x = fst (last rs)) (map fst rs)) + k))) [0..<length cs]\<rparr>)"
    using inventory_run_main [OF _ _ assms(5), of ns s ?t cs ?t] by simp
qed

definition deploy_disk :: script where
  "deploy_disk = \<lparr>fs_files = [([''replicas.txt''], Text (''m1 10.0.0.1'' @ [LF] @ ''m1 10.0.0.1'' @ [LF] @ ''m2 10.0.0.2'' @ [LF])),
     ([''clients.txt''], Text (''m1'' @ [LF]))], fs_faults = [], printed = []\<rparr>"

lemma deploy_read:
  "mapR unpack_replica (text_lines (translate_newlines (''m1 10.0.0.1'' @ [LF] @ ''m1 10.0.0.1'' @ [LF] @ ''m2 10.0.0.2'' @ [LF])))
     = Inr [(''m1'', ''10.0.0.1''), (''m1'', ''10.0.0.1''), (''m2'', ''10.0.0.2'')]"
  "map py_strip (text_lines (translate_newlines (''m1'' @ [LF]))) = [''m1'']"
  "file_path (str_arg (defaults inventory_options) ''replicas'') = [''replicas.txt'']"
  "file_path (str_arg (defaults inventory_options) ''clients'') = [''clients.txt'']"
  "str_arg (defaults inventory_options) ''prefix'' = ''hotstuff.gen''"
  by code_simp+

lemma inventory_output_witness:
  "\<exists>machines u. sorted machines \<and> set machines = {''m1'', ''m2''} \<and>
    inventory_main (defaults inventory_options) deploy_disk = (Inr (), u) \<and> printed u ! 1 = py_join [LF] machines
    \<and> length (printed u) = 8"
proof -
  have at: "node_at (file_path (str_arg (defaults inventory_options) ''replicas'')) deploy_disk
      = Some (Text (''m1 10.0.0.1'' @ [LF] @ ''m1 10.0.0.1'' @ [LF] @ ''m2 10.0.0.2'' @ [LF]))"
    "node_at (file_path (str_arg (defaults inventory_options) ''clients'')) deploy_disk = Some (Text (''m1'' @ [LF]))"
    unfolding deploy_read by (simp_all add: node_at_def deploy_disk_def)
  have nf: "fs_faults deploy_disk = []" and pr: "printed deploy_disk = []" by (simp_all add: deploy_disk_def)
  from inventory_output [OF nf at deploy_read(1) _ deploy_read(2)] obtain machines where
    m: "sorted machines" "set machines = {''m1'', ''m2''}" and
    run: "inventory_main (defaults inventory_options) deploy_disk = (Inr (), deploy_disk\<lparr>printed := printed deploy_disk @
       [''[nodes_setup]'', py_join [LF] machines, [LF] @ ''[nodes]''] @
       map (\<lambda>k. replica_line (str_arg (defaults inventory_options) ''prefix'') k (fst ([(''m1'', ''10.0.0.1''), (''m1'', ''10.0.0.1''), (''m2'', ''10.0.0.2'')] ! k))
         (int (host_rank (map fst [(''m1'', ''10.0.0.1''), (''m1'', ''10.0.0.1''), (''m2'', ''10.0.0.2'')]) k))) [0..<length [(''m1'', ''10.0.0.1''), (''m1'', ''10.0.0.1''), (''m2'', ''10.0.0.2'')]] @
       [[LF] @ ''[clients]''] @
       map (\<lambda>k. client_entry k ([''m1''] ! k) (int (length (filter (\<lambda>x. x = fst (last [(''m1'', ''10.0.0.1''), (''m1'', ''10.0.0.1''), (''m2'', ''10.0.0.2'')]))
         (map fst [(''m1'', ''10.0.0.1''), (''m1'', ''10.0.0.1''), (''m2'', ''10.0.0.2'')])) + k))) [0..<length [''m1'']]\<rparr>)"
    by auto
  show ?thesis by (intro exI conjI, rule m(1), rule m(2), rule run) (simp_all add: pr)
qed

text \<open>The index tells the replicas of a machine apart: the pairs of machine and \<open>host_idx\<close> that the program
  prints for the replicas, from which the remote directories are named, are all different.\<close>

theorem replica_slots_distinct:
  "\<exists>slots d. distinct slots \<and> map fst slots = map fst rs \<and>
     print_replicas prefix [] 0 rs s =
       (Inr d, s\<lparr>printed := printed s @ map (\<lambda>k. replica_line prefix k (fst (slots ! k)) (snd (slots ! k))) [0..<length rs]\<rparr>)"
proof -
  define slots where "slots = map (\<lambda>k. (fst (rs ! k), int (host_rank (map fst rs) k))) [0..<length rs]"
  from print_replicas_run [OF counts_Nil, of prefix 0 rs s] obtain d where
    "print_replicas prefix [] 0 rs s = (Inr d, s\<lparr>printed := printed s @ map (\<lambda>k. replica_line prefix k (fst (rs ! k))
       (int (length (filter (\<lambda>x. x = fst (rs ! k)) (map fst (take k rs)))))) [0..<length rs]\<rparr>)" by auto
  moreover have "map (\<lambda>k. replica_line prefix k (fst (rs ! k)) (int (length (filter (\<lambda>x. x = fst (rs ! k)) (map fst (take k rs)))))) [0..<length rs]
      = map (\<lambda>k. replica_line prefix k (fst (slots ! k)) (snd (slots ! k))) [0..<length rs]"
    by (simp add: slots_def host_rank_def take_map)
  moreover have "distinct slots"
    unfolding slots_def distinct_map
  proof (intro conjI inj_onI)
    fix i j assume ij: "i \<in> set [0..<length rs]" "j \<in> set [0..<length rs]"
      and "(fst (rs ! i), int (host_rank (map fst rs) i)) = (fst (rs ! j), int (host_rank (map fst rs) j))"
    then have "map fst rs ! i = map fst rs ! j" "host_rank (map fst rs) i = host_rank (map fst rs) j" by simp_all
    with host_rank_less [of i j "map fst rs"] host_rank_less [of j i "map fst rs"] ij show "i = j"
      by (cases i j rule: linorder_cases) auto
  qed simp
  moreover have "map fst slots = map fst rs" by (rule nth_equalityI) (simp_all add: slots_def)
  ultimately show ?thesis by auto
qed


end
