(* ===== verification/Deploy_App.thy ===== *)
theory Deploy_App
  imports Gen_Conf
begin

section \<open>The ansible modules (scripts/deploy/app/hotstuff_app.py, hotstuff_cli.py)\<close>

text \<open>
  The two modules start a replica or a client on a remote machine and report to ansible. The state
  is the file system, the processes started and the report. Not in the repository, and parameters
  here: the home directories (\<open>home\<close>, the empty user name for the current user), what the operating
  system answers when a process is started (\<open>start\<close>), and the \<open>AnsibleModule\<close> object (\<open>ansible\<close>).
\<close>

record proc =
  pr_cmd :: "string list"
  pr_cwd :: string
  pr_stdout :: path
  pr_stderr :: path
  pr_new_session :: bool

type_synonym reply = "(string \<times> jval) list"

record deploy = fs +
  procs :: "proc list"
  report :: "reply option"

record ansible =
  am_exit :: "reply \<Rightarrow> (deploy, unit) M"
  am_fail :: "reply \<Rightarrow> (deploy, unit) M"

text \<open>What the documentation says of \<open>exit_json\<close> and \<open>fail_json\<close>: they return the values and end the program.\<close>

definition ansible_ok :: "ansible \<Rightarrow> bool" where
  "ansible_ok am \<longleftrightarrow>
     (\<forall>kvs s. am_exit am kvs s = (Inl (SystemExit 0), s\<lparr>report := Some kvs\<rparr>)
        \<and> am_fail am kvs s = (Inl (SystemExit 1), s\<lparr>report := Some ((''failed'', JBool True) # kvs)\<rparr>))"

text \<open>\<open>os.path.expanduser\<close>.\<close>

definition expanduser :: "(string \<Rightarrow> string option) \<Rightarrow> string \<Rightarrow> string" where
  "expanduser home path =
     (if path = [] \<or> hd path \<noteq> CHR ''~'' then path
      else
        let user = takeWhile (\<lambda>c. c \<noteq> CHR ''/'') (tl path); rest = dropWhile (\<lambda>c. c \<noteq> CHR ''/'') (tl path) in
        case home user of
          None \<Rightarrow> path
        | Some h \<Rightarrow>
            (let full = rev (dropWhile (\<lambda>c. c = CHR ''/'') (rev h)) @ rest in if full = [] then ''/'' else full))"

text \<open>An argument of a module: its type and its default, if it is not required. \<open>AnsibleModule\<close> checks the
  parameters against them and converts the values.\<close>

record arg_spec =
  as_type :: string
  as_default :: "pyval option"

definition app_module_args :: "(string, arg_spec) dict" where
  "app_module_args =
     [(''bin'', \<lparr>as_type = ''str'', as_default = None\<rparr>), (''cwd'', \<lparr>as_type = ''str'', as_default = None\<rparr>),
      (''conf'', \<lparr>as_type = ''str'', as_default = None\<rparr>), (''log_dir'', \<lparr>as_type = ''str'', as_default = None\<rparr>),
      (''tls'', \<lparr>as_type = ''bool'', as_default = Some (PBool True)\<rparr>)]"

definition cli_module_args :: "(string, arg_spec) dict" where
  "cli_module_args =
     [(''bin'', \<lparr>as_type = ''str'', as_default = None\<rparr>), (''cwd'', \<lparr>as_type = ''str'', as_default = None\<rparr>),
      (''idx'', \<lparr>as_type = ''int'', as_default = None\<rparr>), (''cid'', \<lparr>as_type = ''int'', as_default = None\<rparr>),
      (''iter'', \<lparr>as_type = ''int'', as_default = None\<rparr>), (''max_async'', \<lparr>as_type = ''int'', as_default = None\<rparr>),
      (''log_dir'', \<lparr>as_type = ''str'', as_default = None\<rparr>)]"

fun of_type :: "string \<Rightarrow> pyval \<Rightarrow> bool" where
  "of_type t (PStr _) = (t = ''str'')"
| "of_type t (PInt _) = (t = ''int'')"
| "of_type t (PBool _) = (t = ''bool'')"
| "of_type t _ = False"

definition conforms :: "(string, arg_spec) dict \<Rightarrow> namespace \<Rightarrow> bool" where
  "conforms spec params \<longleftrightarrow>
     list_all (\<lambda>(name, a). case dict_get params name of None \<Rightarrow> False | Some v \<Rightarrow> of_type (as_type a) v) spec"

text \<open>\<open>module.params[name]\<close>.\<close>

definition param :: "namespace \<Rightarrow> string \<Rightarrow> pyval res" where
  "param params name = (case dict_get params name of None \<Rightarrow> Inl (KeyError name) | Some v \<Rightarrow> Inr v)"

definition str_param :: "namespace \<Rightarrow> string \<Rightarrow> string res" where
  "str_param params name =
     bindR (param params name) (\<lambda>v. case v of PStr s \<Rightarrow> Inr s
       | _ \<Rightarrow> Inl (TypeError ''expected str, bytes or os.PathLike object''))"

definition expand_params :: "(string \<Rightarrow> string option) \<Rightarrow> string list \<Rightarrow> namespace \<Rightarrow> namespace res" where
  "expand_params home names params =
     foldR (\<lambda>ps name. bindR (str_param ps name) (\<lambda>v. Inr (dict_set name (PStr (expanduser home v)) ps))) params names"

definition app_expanduser :: "string list" where
  "app_expanduser = [''bin'', ''cwd'', ''conf'', ''log_dir'']"

definition cli_expanduser :: "string list" where
  "cli_expanduser = [''bin'', ''cwd'', ''log_dir'']"

text \<open>The command lines.\<close>

definition app_cmd :: "namespace \<Rightarrow> string list res" where
  "app_cmd params =
     bindR (str_param params ''bin'') (\<lambda>b.
     bindR (str_param params ''conf'') (\<lambda>conf.
     bindR (param params ''tls'') (\<lambda>tls.
     Inr (py_words b @ [''--conf'', conf] @ (if py_truthy tls then [] else [''--notls''])))))"

definition cli_cmd :: "namespace \<Rightarrow> string list res" where
  "cli_cmd params =
     bindR (str_param params ''bin'') (\<lambda>b.
     bindR (param params ''idx'') (\<lambda>idx.
     bindR (param params ''cid'') (\<lambda>cid.
     bindR (param params ''iter'') (\<lambda>it.
     bindR (param params ''max_async'') (\<lambda>mx.
     Inr (py_words b @ [''--idx'', py_str idx, ''--cid'', py_str cid, ''--iter'', py_str it, ''--max-async'', py_str mx]))))))"

text \<open>Opening the two log files, starting the process, reporting. Without a log directory \<open>nullsrc\<close> is unbound.\<close>

definition popen :: "(proc \<Rightarrow> nat res) \<Rightarrow> proc \<Rightarrow> (deploy, nat) M" where
  "popen start p =
     bindM (liftR (start p)) (\<lambda>pid. seqM (modifyM (\<lambda>s. s\<lparr>procs := procs s @ [p]\<rparr>)) (retM pid))"

definition launch ::
  "ansible \<Rightarrow> (string \<Rightarrow> string option) \<Rightarrow> (proc \<Rightarrow> nat res) \<Rightarrow> string list \<Rightarrow> namespace \<Rightarrow> (deploy, unit) M" where
  "launch am home start cmd params =
     bindM (liftR (param params ''log_dir'')) (\<lambda>logdir.
     case logdir of
       PStr d \<Rightarrow>
         (let out = file_path (expanduser home (path_join d ''stdout'')); err = file_path (expanduser home (path_join d ''stderr'')) in
          seqM (write_node out (Text []))
         (seqM (write_node err (Text []))
         (bindM (liftR (str_param params ''cwd'')) (\<lambda>cwd.
          bindM (popen start \<lparr>pr_cmd = cmd, pr_cwd = cwd, pr_stdout = out, pr_stderr = err, pr_new_session = True\<rparr>) (\<lambda>pid.
          am_exit am [(''changed'', JBool False), (''status'', JInt 0), (''pid'', JInt (int pid)),
                      (''cmd'', JStr (py_join '' '' cmd)), (''cwd'', JStr cwd)])))))
     | _ \<Rightarrow> raiseM (NameError ''local variable nullsrc referenced before assignment''))"

fun is_launch_error :: "exn \<Rightarrow> bool" where
  "is_launch_error (SubprocessError _) = True"
| "is_launch_error e = is_OSError e"

definition report_error :: "ansible \<Rightarrow> exn \<Rightarrow> (deploy, unit) M" where
  "report_error am e = am_fail am [(''msg'', JStr (exn_msg e)), (''changed'', JBool False), (''status'', JInt 1)]"

definition app_run_module ::
  "ansible \<Rightarrow> (string \<Rightarrow> string option) \<Rightarrow> (proc \<Rightarrow> nat res) \<Rightarrow> namespace \<Rightarrow> (deploy, unit) M" where
  "app_run_module am home start params =
     bindM (liftR (expand_params home app_expanduser params)) (\<lambda>ps.
     catchM (bindM (liftR (app_cmd ps)) (\<lambda>cmd. launch am home start cmd ps)) is_launch_error (report_error am))"

definition cli_run_module ::
  "ansible \<Rightarrow> (string \<Rightarrow> string option) \<Rightarrow> (proc \<Rightarrow> nat res) \<Rightarrow> namespace \<Rightarrow> (deploy, unit) M" where
  "cli_run_module am home start params =
     bindM (liftR (expand_params home cli_expanduser params)) (\<lambda>ps.
     catchM (bindM (liftR (cli_cmd ps)) (\<lambda>cmd. launch am home start cmd ps)) is_launch_error (report_error am))"

text \<open>\<open>main\<close>, what ansible starts.\<close>

definition app_main ::
  "ansible \<Rightarrow> (string \<Rightarrow> string option) \<Rightarrow> (proc \<Rightarrow> nat res) \<Rightarrow> namespace \<Rightarrow> (deploy, unit) M" where
  "app_main am home start params = app_run_module am home start params"

definition cli_main ::
  "ansible \<Rightarrow> (string \<Rightarrow> string option) \<Rightarrow> (proc \<Rightarrow> nat res) \<Rightarrow> namespace \<Rightarrow> (deploy, unit) M" where
  "cli_main am home start params = cli_run_module am home start params"

subsection \<open>Parameters\<close>

lemma expand_get:
  assumes "distinct names" "\<And>n. n \<in> set names \<Longrightarrow> dict_get params n = Some (PStr (v n))"
  shows "\<exists>ps. expand_params home names params = Inr ps
    \<and> (\<forall>k. dict_get ps k = (if k \<in> set names then Some (PStr (expanduser home (v k))) else dict_get params k))"
  using assms
proof (induction names arbitrary: params)
  case Nil
  then show ?case by (simp add: expand_params_def)
next
  case (Cons n names)
  let ?p = "dict_set n (PStr (expanduser home (v n))) params"
  have "dict_get ?p m = Some (PStr (v m))" if "m \<in> set names" for m
    using Cons.prems that by (auto simp: dict_simps)
  with Cons.IH [of ?p] Cons.prems obtain ps where
    ps: "expand_params home names ?p = Inr ps"
      "\<forall>k. dict_get ps k = (if k \<in> set names then Some (PStr (expanduser home (v k))) else dict_get ?p k)" by auto
  have "expand_params home (n # names) params = Inr ps"
    using ps(1) Cons.prems(2) [of n] by (simp add: expand_params_def str_param_def param_def)
  with ps(2) Cons.prems(1) show ?case by (auto simp: dict_simps)
qed

text \<open>The string, integer and boolean parameters of a checked parameter set.\<close>

definition str_val :: "namespace \<Rightarrow> string \<Rightarrow> string" where
  "str_val params n = (case dict_get params n of Some (PStr s) \<Rightarrow> s | _ \<Rightarrow> [])"

definition int_val :: "namespace \<Rightarrow> string \<Rightarrow> int" where
  "int_val params n = (case dict_get params n of Some (PInt i) \<Rightarrow> i | _ \<Rightarrow> 0)"

definition bool_val :: "namespace \<Rightarrow> string \<Rightarrow> bool" where
  "bool_val params n = (case dict_get params n of Some (PBool b) \<Rightarrow> b | _ \<Rightarrow> False)"

lemma of_type_cases:
  "of_type ''str'' v \<longleftrightarrow> (\<exists>s. v = PStr s)" "of_type ''int'' v \<longleftrightarrow> (\<exists>i. v = PInt i)" "of_type ''bool'' v \<longleftrightarrow> (\<exists>b. v = PBool b)"
  by (cases v; simp)+

lemma app_conforms:
  assumes "conforms app_module_args params"
  shows "\<And>n. n \<in> set app_expanduser \<Longrightarrow> dict_get params n = Some (PStr (str_val params n))"
    "dict_get params ''tls'' = Some (PBool (bool_val params ''tls''))"
  using assms by (auto simp: conforms_def app_module_args_def app_expanduser_def of_type_cases str_val_def bool_val_def
      split: option.splits)

lemma cli_conforms:
  assumes "conforms cli_module_args params"
  shows "\<And>n. n \<in> set cli_expanduser \<Longrightarrow> dict_get params n = Some (PStr (str_val params n))"
    "\<And>n. n \<in> {''idx'', ''cid'', ''iter'', ''max_async''} \<Longrightarrow> dict_get params n = Some (PInt (int_val params n))"
  using assms by (auto simp: conforms_def cli_module_args_def cli_expanduser_def of_type_cases str_val_def int_val_def
      split: option.splits)

text \<open>What the modules expand the parameters to, and the commands they build.\<close>

lemma app_expanded:
  assumes "conforms app_module_args params"
  shows "\<exists>ps. expand_params home app_expanduser params = Inr ps
    \<and> app_cmd ps = Inr (py_words (expanduser home (str_val params ''bin'')) @ [''--conf'', expanduser home (str_val params ''conf'')]
        @ (if bool_val params ''tls'' then [] else [''--notls'']))
    \<and> dict_get ps ''log_dir'' = Some (PStr (expanduser home (str_val params ''log_dir'')))
    \<and> dict_get ps ''cwd'' = Some (PStr (expanduser home (str_val params ''cwd'')))"
proof -
  have "distinct app_expanduser" by (simp add: app_expanduser_def)
  from expand_get [OF this app_conforms(1) [OF assms]] obtain ps where
    ps: "expand_params home app_expanduser params = Inr ps"
    "\<forall>k. dict_get ps k = (if k \<in> set app_expanduser then Some (PStr (expanduser home (str_val params k))) else dict_get params k)"
    by blast
  with app_conforms(2) [OF assms] show ?thesis
    by (simp add: app_cmd_def str_param_def param_def app_expanduser_def)
qed

lemma cli_expanded:
  assumes "conforms cli_module_args params"
  shows "\<exists>ps. expand_params home cli_expanduser params = Inr ps
    \<and> cli_cmd ps = Inr (py_words (expanduser home (str_val params ''bin'')) @
        [''--idx'', show_int (int_val params ''idx''), ''--cid'', show_int (int_val params ''cid''),
         ''--iter'', show_int (int_val params ''iter''), ''--max-async'', show_int (int_val params ''max_async'')])
    \<and> dict_get ps ''log_dir'' = Some (PStr (expanduser home (str_val params ''log_dir'')))
    \<and> dict_get ps ''cwd'' = Some (PStr (expanduser home (str_val params ''cwd'')))"
proof -
  have "distinct cli_expanduser" by (simp add: cli_expanduser_def)
  from expand_get [OF this cli_conforms(1) [OF assms]] obtain ps where
    ps: "expand_params home cli_expanduser params = Inr ps"
    "\<forall>k. dict_get ps k = (if k \<in> set cli_expanduser then Some (PStr (expanduser home (str_val params k))) else dict_get params k)"
    by blast
  with cli_conforms(2) [OF assms] show ?thesis
    by (simp add: cli_cmd_def str_param_def param_def cli_expanduser_def)
qed

subsection \<open>Launching\<close>

text \<open>The process a module starts: its command, its directory and its log files.\<close>

definition launched :: "(string \<Rightarrow> string option) \<Rightarrow> namespace \<Rightarrow> string list \<Rightarrow> proc" where
  "launched home params cmd =
     (let d = expanduser home (str_val params ''log_dir'') in
      \<lparr>pr_cmd = cmd, pr_cwd = expanduser home (str_val params ''cwd''),
       pr_stdout = file_path (expanduser home (path_join d ''stdout'')),
       pr_stderr = file_path (expanduser home (path_join d ''stderr'')), pr_new_session = True\<rparr>)"

definition started_reply :: "proc \<Rightarrow> nat \<Rightarrow> reply" where
  "started_reply p pid =
     [(''changed'', JBool False), (''status'', JInt 0), (''pid'', JInt (int pid)),
      (''cmd'', JStr (py_join '' '' (pr_cmd p))), (''cwd'', JStr (pr_cwd p))]"

lemma procs_files [simp]:
  "procs (put_node p n s) = procs s" "report (put_node p n s) = report s"
  by (simp_all add: put_node_def)

lemma write_procs: "procs (snd (write_node p n s)) = procs s"
  by (auto simp: write_node_def bindM_def next_fault_def split: list.splits fault.splits)

lemma bindM_lift: "bindM (liftR (Inr x)) f = f x"
  by (rule ext) (simp add: bindM_def liftR_def)

lemma launch_split:
  assumes "dict_get ps ''log_dir'' = Some (PStr (expanduser home (str_val params ''log_dir'')))"
    and "dict_get ps ''cwd'' = Some (PStr (expanduser home (str_val params ''cwd'')))"
  shows "launch am home start cmd ps =
    seqM (write_node (pr_stdout (launched home params cmd)) (Text []))
   (seqM (write_node (pr_stderr (launched home params cmd)) (Text []))
   (bindM (popen start (launched home params cmd)) (\<lambda>pid. am_exit am (started_reply (launched home params cmd) pid))))"
  using assms
  by (simp add: launch_def launched_def started_reply_def param_def str_param_def Let_def bindM_lift)

text \<open>A launch either starts the process and reports it, or fails before a process exists.\<close>

definition honest :: "proc \<Rightarrow> (proc \<Rightarrow> nat res) \<Rightarrow> deploy \<Rightarrow> unit res \<times> deploy \<Rightarrow> bool" where
  "honest p start s rt \<longleftrightarrow>
     (case rt of (r, t) \<Rightarrow>
        (\<exists>pid. start p = Inr pid \<and> r = Inl (SystemExit 0) \<and> procs t = procs s @ [p] \<and> report t = Some (started_reply p pid))
        \<or> (\<exists>msg. r = Inl (SystemExit 1) \<and> procs t = procs s
             \<and> report t = Some [(''failed'', JBool True), (''msg'', JStr msg), (''changed'', JBool False), (''status'', JInt 1)]))"

lemma launch_honest:
  assumes ok: "ansible_ok am" and st: "\<forall>e. start (launched home params cmd) = Inl e \<longrightarrow> is_launch_error e"
    and ps: "dict_get ps ''log_dir'' = Some (PStr (expanduser home (str_val params ''log_dir'')))"
      "dict_get ps ''cwd'' = Some (PStr (expanduser home (str_val params ''cwd'')))"
  shows "honest (launched home params cmd) start s (catchM (launch am home start cmd ps) is_launch_error (report_error am) s)"
proof -
  let ?p = "launched home params cmd"
  have os: "is_OSError e" if "write_node q n u = (Inl e, v)" for q n e and u v :: deploy
    using raises_files(1) [of q n] that unfolding raises_only_def by (metis fst_conv)
  have le: "is_OSError e \<Longrightarrow> is_launch_error e" for e by (cases e) simp_all
  obtain r1 u where w1: "write_node (pr_stdout ?p) (Text []) s = (r1, u)" by (meson surj_pair)
  obtain r2 v where w2: "write_node (pr_stderr ?p) (Text []) u = (r2, v)" by (meson surj_pair)
  have pr: "procs u = procs s" "procs v = procs s"
    using write_procs [of "pr_stdout ?p" "Text []" s] write_procs [of "pr_stderr ?p" "Text []" u] w1 w2 by simp_all
  show ?thesis
  proof (cases r1)
    case (Inl e)
    with w1 os [of _ _ s e u] le ok pr show ?thesis
      by (auto simp: honest_def launch_split [OF ps] seqM_def bindM_def catchM_def report_error_def ansible_ok_def)
  next
    case r1: (Inr x)
    show ?thesis
    proof (cases r2)
      case (Inl e)
      with w1 r1 w2 os [of _ _ u e v] le ok pr show ?thesis
        by (auto simp: honest_def launch_split [OF ps] seqM_def bindM_def catchM_def report_error_def ansible_ok_def)
    next
      case r2: (Inr y)
      have l: "launch am home start cmd ps s = bindM (popen start ?p) (\<lambda>pid. am_exit am (started_reply ?p pid)) v"
        using w1 r1 w2 r2 by (simp add: launch_split [OF ps] seqM_def bindM_def)
      show ?thesis
      proof (cases "start ?p")
        case (Inl e)
        with st ok pr show ?thesis
          by (simp add: honest_def l catchM_def popen_def bindM_def liftR_def report_error_def ansible_ok_def)
      next
        case (Inr pid)
        with ok pr show ?thesis
          by (simp add: honest_def l catchM_def popen_def seqM_def bindM_def liftR_def modifyM_def retM_def ansible_ok_def)
      qed
    qed
  qed
qed

text \<open>The command lines in terms of the parameters.\<close>

definition app_argv :: "(string \<Rightarrow> string option) \<Rightarrow> namespace \<Rightarrow> string list" where
  "app_argv home params =
     py_words (expanduser home (str_val params ''bin'')) @ [''--conf'', expanduser home (str_val params ''conf'')]
     @ (if bool_val params ''tls'' then [] else [''--notls''])"

definition cli_argv :: "(string \<Rightarrow> string option) \<Rightarrow> namespace \<Rightarrow> string list" where
  "cli_argv home params =
     py_words (expanduser home (str_val params ''bin'')) @
     flag_values [(''--idx'', show_int (int_val params ''idx'')), (''--cid'', show_int (int_val params ''cid'')),
       (''--iter'', show_int (int_val params ''iter'')), (''--max-async'', show_int (int_val params ''max_async''))]"

text \<open>C24. The replica module tells ansible the truth: whatever fails, either exactly the replica process of the
  parameters was started, in its own session with its logs in the log directory, and status 0 with its
  process id is reported, or no process was started and the task fails with status 1.\<close>

theorem app_module_honest:
  assumes "ansible_ok am" "conforms app_module_args params"
    and "\<And>e. start (launched home params (app_argv home params)) = Inl e \<Longrightarrow> is_launch_error e"
  shows "honest (launched home params (app_argv home params)) start s (app_main am home start params s)"
proof -
  from app_expanded [OF assms(2), of home] obtain ps where ps: "expand_params home app_expanduser params = Inr ps"
    "app_cmd ps = Inr (app_argv home params)"
    "dict_get ps ''log_dir'' = Some (PStr (expanduser home (str_val params ''log_dir'')))"
    "dict_get ps ''cwd'' = Some (PStr (expanduser home (str_val params ''cwd'')))"
    by (auto simp: app_argv_def)
  show ?thesis
    unfolding app_main_def app_run_module_def ps(1) bindM_lift ps(2) using launch_honest [OF assms(1) _ ps(3,4)] assms(3) by blast
qed

text \<open>C25. The client module does the same for the client process, whose command line carries the four numbers
  in a form that reads back as the parameters.\<close>

theorem cli_module_honest:
  assumes "ansible_ok am" "conforms cli_module_args params"
    and "\<And>e. start (launched home params (cli_argv home params)) = Inl e \<Longrightarrow> is_launch_error e"
  shows "honest (launched home params (cli_argv home params)) start s (cli_main am home start params s)
    \<and> (\<exists>program idx cid it mx. cli_argv home params = program @ [''--idx'', idx, ''--cid'', cid, ''--iter'', it, ''--max-async'', mx]
        \<and> map int_of_string [idx, cid, it, mx] = map (\<lambda>n. Some (int_val params n)) [''idx'', ''cid'', ''iter'', ''max_async''])"
proof
  from cli_expanded [OF assms(2), of home] obtain ps where ps: "expand_params home cli_expanduser params = Inr ps"
    "cli_cmd ps = Inr (cli_argv home params)"
    "dict_get ps ''log_dir'' = Some (PStr (expanduser home (str_val params ''log_dir'')))"
    "dict_get ps ''cwd'' = Some (PStr (expanduser home (str_val params ''cwd'')))"
    by (auto simp: cli_argv_def)
  show "honest (launched home params (cli_argv home params)) start s (cli_main am home start params s)"
    unfolding cli_main_def cli_run_module_def ps(1) bindM_lift ps(2) using launch_honest [OF assms(1) _ ps(3,4)] assms(3) by blast
  show "\<exists>program idx cid it mx. cli_argv home params = program @ [''--idx'', idx, ''--cid'', cid, ''--iter'', it, ''--max-async'', mx]
      \<and> map int_of_string [idx, cid, it, mx] = map (\<lambda>n. Some (int_val params n)) [''idx'', ''cid'', ''iter'', ''max_async'']"
    unfolding cli_argv_def flag_values.simps
    by (intro exI conjI, rule refl) (simp add: int_of_show_int)
qed

text \<open>When the log directory exists and the system can start the process, the replica module succeeds: the
  process is running and both of its log files are fresh.\<close>

theorem app_module_starts:
  fixes home params
  defines "p \<equiv> launched home params (app_argv home params)"
  assumes "ansible_ok am" "conforms app_module_args params" "start p = Inr pid" "fs_faults s = []"
    and "\<And>f. f \<in> {pr_stdout p, pr_stderr p} \<Longrightarrow> path_isdir (butlast f) s \<and> \<not> path_isdir f s \<and> f \<noteq> []"
    and "\<And>f g. f \<in> {pr_stdout p, pr_stderr p} \<Longrightarrow> g \<in> {pr_stdout p, pr_stderr p} \<Longrightarrow> butlast g \<noteq> f"
  shows "\<exists>t. app_run_module am home start params s = (Inl (SystemExit 0), t) \<and> procs t = procs s @ [p]
    \<and> report t = Some (started_reply p pid) \<and> node_at (pr_stdout p) t = Some (Text []) \<and> node_at (pr_stderr p) t = Some (Text [])"
proof -
  from app_expanded [OF assms(3), of home] obtain ps where ps: "expand_params home app_expanduser params = Inr ps"
    "app_cmd ps = Inr (app_argv home params)"
    "dict_get ps ''log_dir'' = Some (PStr (expanduser home (str_val params ''log_dir'')))"
    "dict_get ps ''cwd'' = Some (PStr (expanduser home (str_val params ''cwd'')))"
    by (auto simp: app_argv_def)
  define u where "u = put_node (pr_stdout p) (Text []) s"
  define v where "v = put_node (pr_stderr p) (Text []) u"
  have w1: "write_node (pr_stdout p) (Text []) s = (Inr (), u)"
    using assms(5) assms(6) [of "pr_stdout p"] by (simp add: write_node_def bindM_def next_fault_def u_def)
  have d: "path_isdir (butlast (pr_stderr p)) u" "\<not> path_isdir (pr_stderr p) u" "fs_faults u = []"
    using assms(5) assms(6) [of "pr_stderr p"] assms(7) [of "pr_stdout p" "pr_stderr p"] by (auto simp: u_def path_isdir_def)
  then have w2: "write_node (pr_stderr p) (Text []) u = (Inr (), v)"
    by (simp add: write_node_def bindM_def next_fault_def v_def)
  have "app_run_module am home start params s = (Inl (SystemExit 0), v\<lparr>procs := procs v @ [p], report := Some (started_reply p pid)\<rparr>)"
    unfolding app_run_module_def ps(1) bindM_lift ps(2)
    using w1 w2 assms(2,4)
    by (simp add: launch_split [OF ps(3,4)] p_def [symmetric] seqM_def bindM_def catchM_def popen_def liftR_def modifyM_def
        retM_def ansible_ok_def)
  then show ?thesis by (simp add: node_at_def [of _ "_\<lparr>procs := _, report := _\<rparr>"] u_def v_def) (simp add: node_at_def [symmetric] put_node_def)
qed

subsection \<open>A concrete deployment\<close>

definition sample_ansible :: ansible where
  "sample_ansible = \<lparr>am_exit = (\<lambda>kvs s. (Inl (SystemExit 0), s\<lparr>report := Some kvs\<rparr>)),
     am_fail = (\<lambda>kvs s. (Inl (SystemExit 1), s\<lparr>report := Some ((''failed'', JBool True) # kvs)\<rparr>))\<rparr>"

definition sample_home :: "string \<Rightarrow> string option" where
  "sample_home user = (if user = [] then Some ''/users/h'' else None)"

definition sample_app_params :: namespace where
  "sample_app_params = [(''bin'', PStr ''~/examples/hotstuff-app''), (''cwd'', PStr ''~/conf''),
     (''conf'', PStr ''hotstuff.gen-sec0.conf''), (''log_dir'', PStr ''~/log''), (''tls'', PBool False)]"

definition sample_cli_params :: namespace where
  "sample_cli_params = [(''bin'', PStr ''~/examples/hotstuff-client''), (''cwd'', PStr ''~/conf''),
     (''idx'', PInt 1), (''cid'', PInt 0), (''iter'', PInt (-1)), (''max_async'', PInt 175), (''log_dir'', PStr ''~/log'')]"

definition remote_disk :: deploy where
  "remote_disk = \<lparr>fs_files = [([''/'', ''users'', ''h'', ''log''], Dir)], fs_faults = [], procs = [], report = None\<rparr>"

lemma sample_ansible_ok: "ansible_ok sample_ansible"
  by (simp add: ansible_ok_def sample_ansible_def)

lemma sample_conforms: "conforms app_module_args sample_app_params" "conforms cli_module_args sample_cli_params"
  by code_simp+

text \<open>A full disk: the first log file cannot be opened, and the task fails with no process.\<close>

lemma app_module_honest_witness:
  "honest (launched sample_home sample_app_params (app_argv sample_home sample_app_params)) (\<lambda>p. Inr 4711)
     (remote_disk\<lparr>fs_faults := [FailOpen]\<rparr>)
     (app_main sample_ansible sample_home (\<lambda>p. Inr 4711) sample_app_params (remote_disk\<lparr>fs_faults := [FailOpen]\<rparr>))"
  by (rule app_module_honest [OF sample_ansible_ok sample_conforms(1)]) simp

lemma cli_module_honest_witness:
  "honest (launched sample_home sample_cli_params (cli_argv sample_home sample_cli_params)) (\<lambda>p. Inr 4711) remote_disk
     (cli_main sample_ansible sample_home (\<lambda>p. Inr 4711) sample_cli_params remote_disk)"
  by (rule conjunct1 [OF cli_module_honest [OF sample_ansible_ok sample_conforms(2)]]) simp

lemma sample_launched:
  "pr_stdout (launched sample_home sample_app_params cmd) = [''/'', ''users'', ''h'', ''log'', ''stdout'']"
  "pr_stderr (launched sample_home sample_app_params cmd) = [''/'', ''users'', ''h'', ''log'', ''stderr'']"
proof -
  have "file_path (expanduser sample_home (path_join (expanduser sample_home (str_val sample_app_params ''log_dir'')) ''stdout''))
      = [''/'', ''users'', ''h'', ''log'', ''stdout'']"
    "file_path (expanduser sample_home (path_join (expanduser sample_home (str_val sample_app_params ''log_dir'')) ''stderr''))
      = [''/'', ''users'', ''h'', ''log'', ''stderr'']"
    by code_simp+
  then show "pr_stdout (launched sample_home sample_app_params cmd) = [''/'', ''users'', ''h'', ''log'', ''stdout'']"
    "pr_stderr (launched sample_home sample_app_params cmd) = [''/'', ''users'', ''h'', ''log'', ''stderr'']"
    by (simp_all add: launched_def Let_def)
qed

lemma app_module_starts_witness:
  "\<exists>t. app_run_module sample_ansible sample_home (\<lambda>p. Inr 4711) sample_app_params remote_disk = (Inl (SystemExit 0), t)
     \<and> length (procs t) = 1 \<and> node_at [''/'', ''users'', ''h'', ''log'', ''stdout''] t = Some (Text [])"
proof -
  let ?p = "launched sample_home sample_app_params (app_argv sample_home sample_app_params)"
  have dirs: "path_isdir (butlast f) remote_disk \<and> \<not> path_isdir f remote_disk \<and> f \<noteq> []" if "f \<in> {pr_stdout ?p, pr_stderr ?p}" for f
    using that by (auto simp: sample_launched path_isdir_def node_at_def remote_disk_def)
  have apart: "butlast g \<noteq> f" if "f \<in> {pr_stdout ?p, pr_stderr ?p}" "g \<in> {pr_stdout ?p, pr_stderr ?p}" for f g
    using that by (auto simp: sample_launched)
  have nf: "fs_faults remote_disk = []" and np: "procs remote_disk = []" by (simp_all add: remote_disk_def)
  have "\<exists>t. app_run_module sample_ansible sample_home (\<lambda>p. Inr 4711) sample_app_params remote_disk = (Inl (SystemExit 0), t)
      \<and> procs t = procs remote_disk @ [?p] \<and> report t = Some (started_reply ?p 4711)
      \<and> node_at (pr_stdout ?p) t = Some (Text []) \<and> node_at (pr_stderr ?p) t = Some (Text [])"
    by (rule app_module_starts [OF sample_ansible_ok sample_conforms(1) refl nf]) (use dirs apart in blast)+
  then show ?thesis by (auto simp: sample_launched np)
qed

end
