(* ===== verification/Thr_Hist.thy ===== *)
theory Thr_Hist
  imports Gen_Inventory Logs "HOL-Library.Sublist"
begin

section \<open>The throughput histogram (scripts/thr_hist.py)\<close>

text \<open>
  The script reads a client log from standard input, counts the commits per interval and prints
  the counts and the mean latency, with and without outliers. A naive \<open>datetime\<close> is the number of
  microseconds from 1970-01-01. Not in the repository, and parameters here: \<open>numpy.percentile\<close>
  (\<open>pct\<close>) and the functions of matplotlib (\<open>pyplot\<close>). The loop over the intervals may run for ever, so
  its result is an option.
\<close>

definition thr_hist_options :: "opt list" where
  "thr_hist_options =
     [add_argument ''--interval'' StoreFloat (PInt 1),
      add_argument ''--output'' StoreStr (PStr ''hist.png''),
      add_argument ''--plot'' StoreTrue (PBool False)]"

text \<open>\<open>commit_pat\<close>.\<close>

definition commit_pat :: re where
  "commit_pat = RSeq
     [RGroup (RSeq [RRep 1 (\<lambda>c. c \<noteq> CHR ''[''), RStar (\<lambda>c. c \<noteq> LF)]), RLit '' [hotstuff info] '',
      RGroup (RStar num_class), REnd]"

text \<open>\<open>pattern.match(line)\<close>.\<close>

definition match_groups :: "re \<Rightarrow> string \<Rightarrow> string list option" where
  "match_groups r s = (case re_match r s of [] \<Rightarrow> None | (gs, _) # _ \<Rightarrow> Some gs)"

subsection \<open>Dates\<close>

text \<open>One numeric field of \<open>strptime\<close> with at most two digits and a range; \<open>%d\<close> also takes a blank and a digit.\<close>

definition field2 :: "nat \<Rightarrow> nat \<Rightarrow> string \<Rightarrow> (nat \<times> string) option" where
  "field2 lo hi s =
     (let ds = takeWhile is_digit s; n = nat_of_digits ds in
      if ds \<noteq> [] \<and> length ds \<le> 2 \<and> lo \<le> n \<and> n \<le> hi then Some (n, dropWhile is_digit s) else None)"

definition day_field :: "string \<Rightarrow> (nat \<times> string) option" where
  "day_field s =
     (case s of
        c # r \<Rightarrow> if c = CHR '' '' then (if length (takeWhile is_digit r) = 1 then field2 1 9 r else None) else field2 1 31 s
      | [] \<Rightarrow> None)"

definition year_field :: "string \<Rightarrow> (nat \<times> string) option" where
  "year_field s =
     (let ds = takeWhile is_digit s in
      if length ds = 4 then Some (nat_of_digits ds, dropWhile is_digit s) else None)"

definition skip_char :: "char \<Rightarrow> string \<Rightarrow> string option" where
  "skip_char c s = (case s of x # r \<Rightarrow> if x = c then Some r else None | [] \<Rightarrow> None)"

definition skip_spaces :: "string \<Rightarrow> string option" where
  "skip_spaces s = (if s \<noteq> [] \<and> is_space (hd s) then Some (dropWhile is_space s) else None)"

text \<open>\<open>datetime.strptime(s, '%Y-%m-%d %H:%M:%S')\<close>, in seconds.\<close>

definition strptime_fields :: "string \<Rightarrow> (nat \<times> nat \<times> nat \<times> nat \<times> nat \<times> nat) option" where
  "strptime_fields s0 =
     Option.bind (year_field s0) (\<lambda>(y, s1). Option.bind (skip_char (CHR ''-'') s1) (\<lambda>s2.
     Option.bind (field2 1 12 s2) (\<lambda>(mo, s3). Option.bind (skip_char (CHR ''-'') s3) (\<lambda>s4.
     Option.bind (day_field s4) (\<lambda>(d, s5). Option.bind (skip_spaces s5) (\<lambda>s6.
     Option.bind (field2 0 23 s6) (\<lambda>(h, s7). Option.bind (skip_char (CHR '':'') s7) (\<lambda>s8.
     Option.bind (field2 0 59 s8) (\<lambda>(mi, s9). Option.bind (skip_char (CHR '':'') s9) (\<lambda>s10.
     Option.bind (field2 0 61 s10) (\<lambda>(sec, s11).
       if s11 = [] then Some (y, mo, d, h, mi, sec) else None)))))))))))"

definition strptime :: "string \<Rightarrow> int res" where
  "strptime s =
     (case strptime_fields s of
        None \<Rightarrow> Inl (ValueError ''time data does not match format'')
      | Some (y, mo, d, h, mi, sec) \<Rightarrow>
          if 1 \<le> y \<and> int d \<le> days_in_month (int y) mo \<and> sec \<le> 59
          then Inr (epoch_days (int y) mo (int d) * 86400 + int h * 3600 + int mi * 60 + int sec)
          else Inl (ValueError ''day or second is out of range''))"

definition dt_min :: int where
  "dt_min = epoch_days 1 1 1 * 86400 * 1000000"

definition dt_max :: int where
  "dt_max = (epoch_days 9999 12 31 + 1) * 86400 * 1000000 - 1"

definition str2datetime :: "string \<Rightarrow> int res" where
  "str2datetime s =
     (let parts = py_split (CHR ''.'') s in
      bindR (strptime (hd parts)) (\<lambda>dt.
      bindR (py_index parts 1) (\<lambda>f.
      bindR (py_int (PStr f)) (\<lambda>us.
        if us < - (2 ^ 31) \<or> 2 ^ 31 \<le> us then Inl (OverflowError ''Python int too large to convert to C int'')
        else if us < 0 \<or> 999999 < us then Inl (ValueError ''microsecond must be in 0..999999'')
        else Inr (dt * 1000000 + us)))))"

text \<open>\<open>timedelta(seconds=x)\<close> rounds to microseconds; it holds less than a billion days.\<close>

definition timedelta_seconds :: "pyval \<Rightarrow> int res" where
  "timedelta_seconds v =
     bindR (py_float v) (\<lambda>x. case x of
       Fin r \<Rightarrow>
         (let us = round_half_even (r * 1000000) in
          if \<bar>us\<bar> \<le> 999999999 * 86400 * 1000000 then Inr us else Inl (OverflowError ''days out of range''))
     | NaN \<Rightarrow> Inl (ValueError ''cannot convert float NaN to integer'')
     | _ \<Rightarrow> Inl (OverflowError ''cannot convert float infinity to integer''))"

definition dt_add :: "int \<Rightarrow> int \<Rightarrow> int res" where
  "dt_add t d = (if dt_min \<le> t + d \<and> t + d \<le> dt_max then Inr (t + d) else Inl (OverflowError ''date value out of range''))"

subsection \<open>The histogram\<close>

text \<open>The \<open>while\<close> loop, from the end of the current interval, its count and the counts before it.\<close>

partial_function (option) advance ::
  "int \<Rightarrow> int \<Rightarrow> int \<Rightarrow> nat \<Rightarrow> nat list \<Rightarrow> (int \<times> nat \<times> nat list) res option" where
  "advance timestamp step next_begin cnt values =
     (if timestamp < next_begin then Some (Inr (next_begin, cnt, values))
      else
        (case dt_add next_begin step of
           Inl e \<Rightarrow> Some (Inl e)
         | Inr nb \<Rightarrow> advance timestamp step nb 0 (values @ [cnt])))"

definition first_interval :: "pyval \<Rightarrow> int \<Rightarrow> (int \<times> nat \<times> nat list) res" where
  "first_interval interval timestamp =
     bindR (timedelta_seconds interval) (\<lambda>step. bindR (dt_add timestamp step) (\<lambda>nb. Inr (nb, 0, [])))"

fun thr_loop :: "pyval \<Rightarrow> (int \<times> nat \<times> nat list) option \<Rightarrow> int list \<Rightarrow> (int \<times> nat \<times> nat list) option res option" where
  "thr_loop interval st [] = Some (Inr st)"
| "thr_loop interval st (timestamp # ts) =
     (case (case st of None \<Rightarrow> first_interval interval timestamp | Some x \<Rightarrow> Inr x) of
        Inl e \<Rightarrow> Some (Inl e)
      | Inr (nb, cnt, values) \<Rightarrow>
          (case timedelta_seconds interval of
             Inl e \<Rightarrow> Some (Inl e)
           | Inr step \<Rightarrow>
               (case advance timestamp step nb cnt values of
                  None \<Rightarrow> None
                | Some (Inl e) \<Rightarrow> Some (Inl e)
                | Some (Inr (nb', cnt', values')) \<Rightarrow> thr_loop interval (Some (nb', cnt' + 1, values')) ts)))"

text \<open>The sorted loop and the last \<open>values.append(cnt)\<close>.\<close>

definition histogram :: "pyval \<Rightarrow> int list \<Rightarrow> nat list res option" where
  "histogram interval timestamps =
     (case thr_loop interval None (sort timestamps) of
        None \<Rightarrow> None
      | Some (Inl e) \<Rightarrow> Some (Inl e)
      | Some (Inr None) \<Rightarrow> Some (Inr [0])
      | Some (Inr (Some (nb, cnt, values))) \<Rightarrow> Some (Inr (values @ [cnt])))"

subsection \<open>Outliers\<close>

definition remove_outliers :: "(rat list \<Rightarrow> rat \<Rightarrow> rat) \<Rightarrow> rat list \<Rightarrow> rat \<Rightarrow> rat list \<times> rat list" where
  "remove_outliers pct x outlierConstant =
     (let upper_quartile = pct x 75; lower_quartile = pct x 25;
          IQR = (upper_quartile - lower_quartile) * outlierConstant;
          keep = (\<lambda>y. lower_quartile - IQR \<le> y \<and> y \<le> upper_quartile + IQR)
      in (filter keep x, filter (\<lambda>y. \<not> keep y) x))"

subsection \<open>The program\<close>

fun read_commits :: "string list \<Rightarrow> (int list \<times> rat list) res" where
  "read_commits [] = Inr ([], [])"
| "read_commits (line # lines) =
     (case match_groups commit_pat line of
        Some [g1, g2] \<Rightarrow>
          bindR (str2datetime g1) (\<lambda>t. bindR (float_group g2) (\<lambda>l.
          bindR (read_commits lines) (\<lambda>(ts, ls). Inr (t # ts, l # ls))))
      | _ \<Rightarrow> read_commits lines)"

definition show_list :: "nat list \<Rightarrow> string" where
  "show_list xs = ''['' @ py_join '', '' (map show_nat xs) @ '']''"

definition mean_line :: "rat list \<Rightarrow> string res" where
  "mean_line lats =
     (if lats = [] then Inl (ZeroDivisionError ''division by zero'')
      else Inr (''lat = '' @ fmt_fixed 3 (sum_list lats / of_nat (length lats) * 1000) @ ''ms''))"

text \<open>The functions of \<open>matplotlib.pyplot\<close> the script calls, and its calls: the figure is shown before it is saved.\<close>

record pyplot =
  plt_xlabel :: "string \<Rightarrow> (script, unit) M"
  plt_ylabel :: "string \<Rightarrow> (script, unit) M"
  plt_plot :: "nat list \<Rightarrow> nat list \<Rightarrow> (script, unit) M"
  plt_show :: "(script, unit) M"
  plt_savefig :: "string \<Rightarrow> (script, unit) M"

definition plot_thr :: "pyplot \<Rightarrow> nat list \<Rightarrow> string \<Rightarrow> (script, unit) M" where
  "plot_thr plt values fname =
     seqM (plt_xlabel plt ''time'')
    (seqM (plt_ylabel plt ''tx/sec'')
    (seqM (plt_plot plt [0..<length values] values)
    (seqM (plt_show plt)
          (plt_savefig plt fname))))"

definition report_thr ::
  "(rat list \<Rightarrow> rat \<Rightarrow> rat) \<Rightarrow> pyplot \<Rightarrow> namespace \<Rightarrow> nat list \<Rightarrow> rat list \<Rightarrow> (script, unit) M" where
  "report_thr pct plt ns values lats =
     seqM (print_line (show_list values))
    (bindM (liftR (mean_line lats)) (\<lambda>l.
     seqM (print_line l)
    (bindM (liftR (mean_line (fst (remove_outliers pct lats (3 / 2))))) (\<lambda>l2.
     seqM (print_line l2)
       (whenM (arg ns ''plot'' = PBool True) (plot_thr plt values (str_arg ns ''output''))))))) "

definition thr_hist_main ::
  "(rat list \<Rightarrow> rat \<Rightarrow> rat) \<Rightarrow> pyplot \<Rightarrow> namespace \<Rightarrow> string \<Rightarrow> script \<Rightarrow> (unit res \<times> script) option" where
  "thr_hist_main pct plt ns stdin s =
     (case read_commits (file_lines (translate_newlines stdin)) of
        Inl e \<Rightarrow> Some (Inl e, s)
      | Inr (timestamps, lats) \<Rightarrow>
          (case histogram (arg ns ''interval'') timestamps of
             None \<Rightarrow> None
           | Some (Inl e) \<Rightarrow> Some (Inl e, s)
           | Some (Inr values) \<Rightarrow> Some (report_thr pct plt ns values lats s)))"

text \<open>The whole script, from its arguments.\<close>

definition thr_hist_run ::
  "(rat list \<Rightarrow> rat \<Rightarrow> rat) \<Rightarrow> pyplot \<Rightarrow> string list \<Rightarrow> string \<Rightarrow> script \<Rightarrow> (unit res \<times> script) option" where
  "thr_hist_run pct plt argv stdin s =
     (case parse_args thr_hist_options argv of
        Inl e \<Rightarrow> Some (Inl e, s)
      | Inr ns \<Rightarrow> thr_hist_main pct plt ns stdin s)"

subsection \<open>What the histogram counts\<close>

text \<open>The commits of the interval number \<open>k\<close> from \<open>t0\<close>.\<close>

definition in_slot :: "int \<Rightarrow> int \<Rightarrow> nat \<Rightarrow> int \<Rightarrow> bool" where
  "in_slot t0 step k t \<longleftrightarrow> t0 + int k * step \<le> t \<and> t < t0 + (int k + 1) * step"

definition slot_count :: "int \<Rightarrow> int \<Rightarrow> int list \<Rightarrow> nat \<Rightarrow> nat" where
  "slot_count t0 step ts k = length (filter (in_slot t0 step k) ts)"

definition slot_of :: "int \<Rightarrow> int \<Rightarrow> int \<Rightarrow> nat" where
  "slot_of t0 step t = nat ((t - t0) div step)"

lemma div_eq_bounds:
  assumes d: "0 < (d :: int)"
  shows "a div d = k \<longleftrightarrow> k * d \<le> a \<and> a < (k + 1) * d"
proof
  have "a div d * d + a mod d = a" by (rule div_mult_mod_eq)
  moreover assume "a div d = k"
  ultimately show "k * d \<le> a \<and> a < (k + 1) * d"
    using pos_mod_bound [OF d, of a] pos_mod_sign [OF d, of a] by (simp only: distrib_right) linarith
next
  assume "k * d \<le> a \<and> a < (k + 1) * d"
  then show "a div d = k" by (intro int_div_pos_eq [of a d k "a - k * d"]) (simp_all add: algebra_simps)
qed

lemma in_slot_iff:
  assumes "0 < step" "t0 \<le> t"
  shows "in_slot t0 step k t \<longleftrightarrow> k = slot_of t0 step t"
proof -
  have "0 \<le> (t - t0) div step" using assms by (simp add: pos_imp_zdiv_nonneg_iff)
  then have "k = slot_of t0 step t \<longleftrightarrow> (t - t0) div step = int k" by (auto simp: slot_of_def)
  then show ?thesis using div_eq_bounds [OF assms(1), of "t - t0" "int k"] by (auto simp: in_slot_def)
qed

lemma slot_count_snoc: "slot_count t0 step (ts @ [t]) k = slot_count t0 step ts k + (if in_slot t0 step k t then 1 else 0)"
  by (simp add: slot_count_def)

lemma slot_count_0: "(\<And>t. t \<in> set ts \<Longrightarrow> \<not> in_slot t0 step k t) \<Longrightarrow> slot_count t0 step ts k = 0"
  by (simp add: slot_count_def filter_empty_conv)

text \<open>The loop advances by whole intervals, to the first one that ends after the timestamp.\<close>

lemma advance_steps:
  assumes "0 < step" "t < nb + int n * step" "n = 0 \<or> nb + (int n - 1) * step \<le> t"
    "dt_min \<le> nb" "t + step \<le> dt_max"
  shows "advance t step nb cnt vs
    = Some (Inr (nb + int n * step, if n = 0 then cnt else 0, vs @ (if n = 0 then [] else cnt # replicate (n - 1) 0)))"
  using assms
proof (induction n arbitrary: nb cnt vs)
  case 0
  then show ?case by (simp add: advance.simps)
next
  case (Suc n)
  have "0 \<le> int n * step" using Suc.prems(1) by simp
  moreover have "nb + int n * step \<le> t" using Suc.prems(3) by simp
  ultimately have le: "nb \<le> t" by linarith
  then have add: "dt_add nb step = Inr (nb + step)" using Suc.prems by (simp add: dt_add_def)
  have "advance t step (nb + step) 0 (vs @ [cnt])
    = Some (Inr (nb + step + int n * step, 0, (vs @ [cnt]) @ (if n = 0 then [] else 0 # replicate (n - 1) 0)))"
    by (rule Suc.IH [THEN trans]) (use Suc.prems in \<open>auto simp: algebra_simps\<close>)
  moreover have "(if n = 0 then [] else 0 # replicate (n - 1) 0) = replicate n (0 :: nat)" by (cases n) auto
  ultimately show ?case using le add by (subst advance.simps) (simp add: algebra_simps)
qed

lemma sorted_le_last: "sorted (xs :: int list) \<Longrightarrow> p \<in> set xs \<Longrightarrow> p \<le> last xs"
  by (cases xs rule: rev_cases) (auto simp: sorted_append)

lemma sorted_last_Max: "sorted (xs :: int list) \<Longrightarrow> xs \<noteq> [] \<Longrightarrow> last xs = Max (set xs)"
  by (rule Max_eqI [symmetric]) (auto intro: sorted_le_last)

lemma sorted_hd_Min: "sorted (xs :: int list) \<Longrightarrow> xs \<noteq> [] \<Longrightarrow> hd xs = Min (set xs)"
  by (rule Min_eqI [symmetric]) (cases xs; auto)+

text \<open>The state of the loop after the sorted prefix \<open>pre\<close> whose last timestamp is in the interval \<open>k\<close>.\<close>

definition counted :: "int \<Rightarrow> int \<Rightarrow> int list \<Rightarrow> nat \<Rightarrow> (int \<times> nat \<times> nat list)" where
  "counted t0 step pre k =
     (t0 + (int k + 1) * step, slot_count t0 step pre k, map (slot_count t0 step pre) [0..<k])"

lemma slot_of_mono: "0 < step \<Longrightarrow> p \<le> t \<Longrightarrow> slot_of t0 step p \<le> slot_of t0 step t"
  unfolding slot_of_def by (intro nat_mono zdiv_mono1) auto

lemma counted_step:
  assumes "0 < step" "t0 \<le> t" "dt_min \<le> t0" "t + step \<le> dt_max" "k \<le> slot_of t0 step t"
    "\<And>p. p \<in> set pre \<Longrightarrow> t0 \<le> p \<and> slot_of t0 step p \<le> k"
  shows "\<exists>nb cnt vs. advance t step (fst (counted t0 step pre k)) (fst (snd (counted t0 step pre k)))
      (snd (snd (counted t0 step pre k))) = Some (Inr (nb, cnt, vs))
    \<and> counted t0 step (pre @ [t]) (slot_of t0 step t) = (nb, cnt + 1, vs)"
proof -
  let ?k = "slot_of t0 step t" and ?n = "slot_of t0 step t - k"
  have slot: "in_slot t0 step ?k t" using in_slot_iff [OF assms(1,2)] by simp
  have other: "\<not> in_slot t0 step j t" if "j \<noteq> ?k" for j using in_slot_iff [OF assms(1,2)] that by simp
  have "0 \<le> (int k + 1) * step" using assms(1) by simp
  with assms(3) have pos: "dt_min \<le> t0 + (int k + 1) * step" by linarith
  have empty: "slot_count t0 step pre j = 0" if "k < j" for j
    by (rule slot_count_0) (use in_slot_iff [OF assms(1)] assms(6) that in fastforce)
  have adv: "advance t step (fst (counted t0 step pre k)) cnt vs
    = Some (Inr (fst (counted t0 step pre k) + int ?n * step, if ?n = 0 then cnt else 0,
        vs @ (if ?n = 0 then [] else cnt # replicate (?n - 1) 0)))" for cnt vs
    by (rule advance_steps)
      (use assms(1,3,4,5) slot pos in \<open>auto simp: counted_def in_slot_def algebra_simps of_nat_diff\<close>)
  have upt: "[0..<?k] = [0..<k] @ (if ?n = 0 then [] else k # [Suc k..<?k])"
    using assms(5) upt_add_eq_append [of 0 k ?n] upt_conv_Cons [of k ?k] by simp
  have zeros: "map (slot_count t0 step pre) [Suc k..<?k] = replicate (?n - 1) 0"
    by (rule replicate_eqI) (auto simp: empty)
  have "map (slot_count t0 step (pre @ [t])) [0..<?k] = map (slot_count t0 step pre) [0..<?k]"
    by (rule map_cong) (use other in \<open>auto simp: slot_count_snoc\<close>)
  also have "\<dots> = map (slot_count t0 step pre) [0..<k] @ (if ?n = 0 then [] else slot_count t0 step pre k # replicate (?n - 1) 0)"
    unfolding upt using zeros by simp
  finally have before: "map (slot_count t0 step (pre @ [t])) [0..<?k] = \<dots>" .
  have now: "slot_count t0 step (pre @ [t]) ?k = (if ?n = 0 then slot_count t0 step pre k else 0) + 1"
    using slot assms(5) empty [of ?k] by (auto simp: slot_count_snoc)
  have "fst (counted t0 step pre k) + int ?n * step = t0 + (int ?k + 1) * step"
    using assms(5) by (simp add: counted_def of_nat_diff algebra_simps)
  then have "counted t0 step (pre @ [t]) ?k
    = (fst (counted t0 step pre k) + int ?n * step, (if ?n = 0 then slot_count t0 step pre k else 0) + 1,
       map (slot_count t0 step pre) [0..<k] @ (if ?n = 0 then [] else slot_count t0 step pre k # replicate (?n - 1) 0))"
    using before now by (simp add: counted_def)
  moreover have "fst (snd (counted t0 step pre k)) = slot_count t0 step pre k"
    "snd (snd (counted t0 step pre k)) = map (slot_count t0 step pre) [0..<k]" by (simp_all add: counted_def)
  ultimately show ?thesis using adv by metis
qed

lemma thr_loop_counted:
  assumes "timedelta_seconds interval = Inr step" "0 < step" "dt_min \<le> t0"
    "sorted (pre @ ts)" "\<And>t. t \<in> set (pre @ ts) \<Longrightarrow> t0 \<le> t \<and> t + step \<le> dt_max"
    "pre \<noteq> []"
  shows "thr_loop interval (Some (counted t0 step pre (slot_of t0 step (last pre)))) ts
    = Some (Inr (Some (counted t0 step (pre @ ts) (slot_of t0 step (last (pre @ ts))))))"
  using assms
proof (induction ts arbitrary: pre)
  case Nil
  then show ?case by simp
next
  case (Cons t ts)
  let ?k = "slot_of t0 step (last pre)"
  have le: "last pre \<le> t" using Cons.prems(4,6) by (auto simp: sorted_append)
  have "p \<le> last pre" if "p \<in> set pre" for p
    by (rule sorted_le_last) (use Cons.prems(4) that in \<open>simp_all add: sorted_append\<close>)
  then have "t0 \<le> p \<and> slot_of t0 step p \<le> ?k" if "p \<in> set pre" for p
    using that Cons.prems(2,5) by (auto intro: slot_of_mono)
  moreover have "?k \<le> slot_of t0 step t" by (rule slot_of_mono [OF Cons.prems(2) le])
  ultimately obtain nb cnt vs where adv: "advance t step (fst (counted t0 step pre ?k)) (fst (snd (counted t0 step pre ?k)))
      (snd (snd (counted t0 step pre ?k))) = Some (Inr (nb, cnt, vs))"
    and st: "counted t0 step (pre @ [t]) (slot_of t0 step t) = (nb, cnt + 1, vs)"
    using counted_step [OF Cons.prems(2) _ Cons.prems(3), of t ?k pre] Cons.prems(5) by auto
  have "thr_loop interval (Some (counted t0 step (pre @ [t]) (slot_of t0 step (last (pre @ [t]))))) ts
    = Some (Inr (Some (counted t0 step ((pre @ [t]) @ ts) (slot_of t0 step (last ((pre @ [t]) @ ts))))))"
    by (rule Cons.IH) (use Cons.prems in auto)
  then show ?case using adv Cons.prems(1) st
    by (cases "counted t0 step pre ?k") simp
qed

text \<open>The first timestamp starts the first interval.\<close>

lemma thr_loop_start:
  assumes "timedelta_seconds interval = Inr step" "0 < step" "dt_min \<le> t0" "t0 + step \<le> dt_max"
  shows "thr_loop interval None (t0 # ts) = thr_loop interval (Some (counted t0 step [t0] (slot_of t0 step t0))) ts"
proof -
  have "dt_add t0 step = Inr (t0 + step)" using assms(2-4) by (simp add: dt_add_def)
  moreover have "advance t0 step (t0 + step) 0 [] = Some (Inr (t0 + step, 0, []))"
    using assms(2) by (simp add: advance.simps)
  moreover have "counted t0 step [t0] (slot_of t0 step t0) = (t0 + step, 1, [])"
    using assms(2) by (simp add: counted_def slot_of_def slot_count_def in_slot_def)
  ultimately show ?thesis using assms(1) by (simp add: first_interval_def)
qed

lemma sum_slot_count:
  assumes "0 < step" "\<And>t. t \<in> set ts \<Longrightarrow> t0 \<le> t \<and> slot_of t0 step t < n"
  shows "sum_list (map (slot_count t0 step ts) [0..<n]) = length ts"
  using assms(2)
proof (induction ts rule: rev_induct)
  case Nil
  then show ?case by (simp add: slot_count_def sum_list_0)
next
  case (snoc t ts)
  have "sum_list (map (\<lambda>k. if in_slot t0 step k t then 1 else 0 :: nat) [0..<n]) = (\<Sum>k\<leftarrow>[0..<n]. if k = slot_of t0 step t then 1 else 0)"
    using in_slot_iff [OF assms(1), of t0 t] snoc.prems [of t] by simp
  also have "\<dots> = (\<Sum>k \<in> {0..<n}. if k = slot_of t0 step t then 1 else 0)" by (simp add: sum_list_distinct_conv_sum_set)
  also have "\<dots> = 1" using snoc.prems [of t] by simp
  finally show ?case using snoc by (simp add: slot_count_snoc [abs_def] sum_list_addf)
qed

text \<open>C26. The throughput histogram is exactly the number of commits in each interval. For a positive interval
  and timestamps in the range of \<open>datetime\<close>, the loop returns, the intervals are numbered from the earliest
  timestamp without a gap up to the one of the latest, the list holds the number of timestamps of each, and its
  sum is the number of commits.\<close>

theorem histogram_counts:
  assumes "timedelta_seconds interval = Inr step" "0 < step" "timestamps \<noteq> []"
    "\<And>t. t \<in> set timestamps \<Longrightarrow> dt_min \<le> t \<and> t + step \<le> dt_max"
  defines "t0 \<equiv> Min (set timestamps)" and "t1 \<equiv> Max (set timestamps)"
  shows "\<exists>vs. histogram interval timestamps = Some (Inr vs)
    \<and> vs = map (\<lambda>k. length (filter (\<lambda>t. t0 + int k * step \<le> t \<and> t < t0 + (int k + 1) * step) timestamps))
        [0..<nat ((t1 - t0) div step) + 1]
    \<and> sum_list vs = length timestamps"
proof -
  let ?ts = "sort timestamps" and ?n = "slot_of t0 step t1"
  have "?ts \<noteq> []" using assms(3) by (metis set_empty set_sort)
  moreover from this have "hd ?ts = t0" unfolding t0_def by (metis sorted_hd_Min sorted_sort set_sort)
  ultimately obtain r where ts: "?ts = t0 # r" by (cases ?ts) auto
  have last: "last ?ts = t1" unfolding t1_def using ts by (metis sorted_last_Max sorted_sort set_sort list.distinct(1))
  have slots: "t0 \<le> t \<and> slot_of t0 step t < ?n + 1" if "t \<in> set timestamps" for t
    using that slot_of_mono [OF assms(2), of t t1 t0] by (auto simp: t0_def t1_def less_Suc_eq_le)
  have "slot_count t0 step ?ts k = slot_count t0 step timestamps k" for k
    unfolding slot_count_def by (metis mset_filter mset_sort size_mset)
  then have count: "slot_count t0 step ?ts = slot_count t0 step timestamps" by (rule ext)
  have set: "set (t0 # r) = set timestamps" by (metis set_sort ts)
  then have t0: "dt_min \<le> t0" "t0 + step \<le> dt_max" using assms(4) by auto
  have "thr_loop interval (Some (counted t0 step [t0] (slot_of t0 step (last [t0])))) r
    = Some (Inr (Some (counted t0 step ([t0] @ r) (slot_of t0 step (last ([t0] @ r))))))"
  proof (rule thr_loop_counted [OF assms(1,2) t0(1)])
    show "sorted ([t0] @ r)" using sorted_sort [of timestamps] ts by simp
    show "t0 \<le> t \<and> t + step \<le> dt_max" if "t \<in> set ([t0] @ r)" for t
      using that set assms(4) slots by auto
  qed simp
  then have "thr_loop interval None ?ts = Some (Inr (Some (counted t0 step ?ts ?n)))"
    using last unfolding ts by (simp only: thr_loop_start [OF assms(1,2) t0] append_Cons append_Nil last.simps [of t0 "[]"] simp_thms if_True)
  then have "histogram interval timestamps = Some (Inr (map (slot_count t0 step timestamps) [0..<?n + 1]))"
    by (simp add: histogram_def counted_def count)
  then show ?thesis using sum_slot_count [OF assms(2) slots]
    by (simp add: slot_count_def [abs_def] in_slot_def [abs_def] slot_of_def)
qed

lemma histogram_counts_witness: "histogram (PInt 1) [3500000, 1000000, 1200000] = Some (Inr [2, 0, 1])"
proof -
  have i: "timedelta_seconds (PInt 1) = Inr 1000000" by code_simp
  have m: "Min (set [3500000, 1000000, 1200000 :: int]) = 1000000" "Max (set [3500000, 1000000, 1200000 :: int]) = 3500000"
    by simp_all
  have r: "dt_min \<le> 0" "4500000 \<le> dt_max" by code_simp+
  obtain vs where "histogram (PInt 1) [3500000, 1000000, 1200000] = Some (Inr vs)"
    "vs = map (\<lambda>k. length (filter (\<lambda>t. 1000000 + int k * 1000000 \<le> t \<and> t < 1000000 + (int k + 1) * 1000000)
        [3500000, 1000000, 1200000])) [0..<nat ((3500000 - 1000000) div 1000000) + 1]"
    using histogram_counts [OF i, of "[3500000, 1000000, 1200000]"] r unfolding m by fastforce
  then show ?thesis by (simp add: upt_rec)
qed

subsection \<open>When the loop ends\<close>

lemma advance_ends:
  assumes "step \<noteq> 0"
  shows "dt_min \<le> nb \<Longrightarrow> nb \<le> dt_max
    \<Longrightarrow> \<exists>r. advance t step nb cnt vs = Some r \<and> (\<forall>nb' c v. r = Inr (nb', c, v) \<longrightarrow> dt_min \<le> nb' \<and> nb' \<le> dt_max)"
proof (induction "nat (if 0 < step then dt_max - nb else nb - dt_min)" arbitrary: nb cnt vs rule: less_induct)
  case less
  show ?case
  proof (cases "t < nb \<or> dt_add nb step \<noteq> Inr (nb + step)")
    case True
    then show ?thesis using less.prems by (subst advance.simps) (auto simp: dt_add_def)
  next
    case False
    then have r: "dt_min \<le> nb + step \<and> nb + step \<le> dt_max" by (auto simp: dt_add_def split: if_splits)
    have dec: "nat (if 0 < step then dt_max - (nb + step) else nb + step - dt_min)
      < nat (if 0 < step then dt_max - nb else nb - dt_min)"
      using r less.prems assms by (cases "0 < step") auto
    from r obtain r where "advance t step (nb + step) 0 (vs @ [cnt]) = Some r"
      "\<forall>nb' c v. r = Inr (nb', c, v) \<longrightarrow> dt_min \<le> nb' \<and> nb' \<le> dt_max"
      using less.hyps [OF dec] by blast
    then show ?thesis using False by (subst advance.simps) auto
  qed
qed

lemma advance_diverges: "dt_min \<le> nb \<Longrightarrow> nb \<le> dt_max \<Longrightarrow> nb \<le> t \<Longrightarrow> advance t 0 nb cnt vs = None"
proof (rule ccontr)
  assume r: "dt_min \<le> nb" "nb \<le> dt_max" "nb \<le> t" "advance t 0 nb cnt vs \<noteq> None"
  then obtain y where "advance t 0 nb cnt vs = Some y" by auto
  then have "0 = (0 :: int) \<and> dt_min \<le> nb \<and> nb \<le> dt_max \<longrightarrow> t < nb"
  proof (rule advance.raw_induct [where P = "\<lambda>t step nb cnt vs y. step = 0 \<and> dt_min \<le> nb \<and> nb \<le> dt_max \<longrightarrow> t < nb", rotated])
    fix adv t step nb cnt vs y
    assume IH: "\<And>t step nb cnt vs y. adv t step nb cnt vs = Some y \<Longrightarrow> step = 0 \<and> dt_min \<le> nb \<and> nb \<le> dt_max \<longrightarrow> t < nb"
      and eq: "(if t < nb then Some (Inr (nb, cnt, vs))
        else case dt_add nb step of Inl e \<Rightarrow> Some (Inl e) | Inr nb' \<Rightarrow> adv t step nb' 0 (vs @ [cnt])) = Some y"
    show "step = 0 \<and> dt_min \<le> nb \<and> nb \<le> dt_max \<longrightarrow> t < nb"
      using IH [of t 0 nb 0 "vs @ [cnt]" y] eq by (auto simp: dt_add_def split: if_splits)
  qed
  with r show False by simp
qed

lemma thr_loop_ends:
  assumes "timedelta_seconds interval = Inr step" "step \<noteq> 0" "dt_min \<le> nb" "nb \<le> dt_max"
  shows "thr_loop interval (Some (nb, cnt, vs)) ts \<noteq> None"
  using assms(3,4)
proof (induction ts arbitrary: nb cnt vs)
  case Nil
  then show ?case by simp
next
  case (Cons t ts)
  obtain r where r: "advance t step nb cnt vs = Some r"
    "\<forall>nb' c v. r = Inr (nb', c, v) \<longrightarrow> dt_min \<le> nb' \<and> nb' \<le> dt_max"
    using advance_ends [OF assms(2) Cons.prems] by blast
  show ?case
  proof (cases r)
    case (Inl e)
    then show ?thesis using r assms(1) by simp
  next
    case (Inr x)
    then show ?thesis using r assms(1) Cons.IH by (cases x) auto
  qed
qed

text \<open>C27. When the histogram returns. The loop over the intervals ends for every list of timestamps of \<open>datetime\<close>
  and every \<open>--interval\<close>, negative, huge, infinite and NaN ones included, which end in an error or in a histogram; it
  runs for ever exactly when there is a commit and the interval rounds to zero microseconds.\<close>

theorem histogram_ends:
  assumes "\<And>t. t \<in> set timestamps \<Longrightarrow> dt_min \<le> t \<and> t \<le> dt_max"
  shows "histogram interval timestamps = None \<longleftrightarrow> timestamps \<noteq> [] \<and> timedelta_seconds interval = Inr 0"
proof (cases "sort timestamps")
  case Nil
  moreover from this have "timestamps = []" by (metis set_empty set_sort)
  ultimately show ?thesis by (simp add: histogram_def)
next
  case (Cons t ts)
  then have ne: "timestamps \<noteq> []" by auto
  have "t \<in> set timestamps" using Cons by (metis list.set_intros(1) set_sort)
  with assms have t: "dt_min \<le> t" "t \<le> dt_max" by auto
  have iff: "histogram interval timestamps = None \<longleftrightarrow> thr_loop interval None (t # ts) = None"
    by (auto simp: histogram_def Cons split: option.split sum.split)
  show ?thesis
  proof (cases "timedelta_seconds interval")
    case (Inl e)
    then show ?thesis unfolding iff by (simp add: first_interval_def)
  next
    case (Inr step)
    show ?thesis
    proof (cases "step = 0")
      case True
      then show ?thesis using Inr ne t unfolding iff by (simp add: first_interval_def dt_add_def advance_diverges)
    next
      case False
      have "thr_loop interval None (t # ts) \<noteq> None"
      proof (cases "dt_add t step")
        case (Inl e)
        then show ?thesis using Inr by (simp add: first_interval_def)
      next
        case nb: (Inr nb)
        then have "dt_min \<le> nb" "nb \<le> dt_max" by (auto simp: dt_add_def split: if_splits)
        then have "thr_loop interval (Some (nb, 0, [])) (t # ts) \<noteq> None" by (rule thr_loop_ends [OF Inr False])
        then show ?thesis using Inr nb by (simp add: first_interval_def)
      qed
      then show ?thesis using Inr False unfolding iff by simp
    qed
  qed
qed

lemma histogram_ends_witness:
  "histogram (PInt 0) [1000000] = None \<and> histogram (PInt (- 1)) [1000000] \<noteq> None"
proof -
  have i: "timedelta_seconds (PInt 0) = Inr 0" "timedelta_seconds (PInt (- 1)) = Inr (- 1000000)" by code_simp+
  have r: "dt_min \<le> 1000000" "1000000 \<le> dt_max" by code_simp+
  show ?thesis using histogram_ends [of "[1000000]" "PInt 0"] histogram_ends [of "[1000000]" "PInt (- 1)"] i r by simp
qed

subsection \<open>What the outlier filter keeps\<close>

lemma percentile_at:
  assumes "2 \<le> length vs" "k < length vs" "of_nat (length vs - 1) * (q / 100) = of_nat k"
  shows "percentile vs q = vs ! k"
  using percentile_interp [OF assms(1), of q] assms(3) by (simp add: interp_def)

text \<open>Three or more sorted samples have one between the quartiles.\<close>

lemma quartile_sample:
  assumes "sorted vs" "3 \<le> length vs"
  shows "\<exists>y \<in> set vs. percentile vs 25 \<le> y \<and> y \<le> percentile vs 75"
proof -
  obtain n where len: "length vs = Suc n" and n: "2 \<le> n" using assms(2) by (cases "length vs") auto
  define k where "k = (n + 3) div 4"
  have k: "k < length vs" "n \<le> 4 * k" "4 * k \<le> 3 * n" using n by (auto simp: k_def len)
  define q where "q = (of_nat (100 * k) / of_nat n :: rat)"
  have "of_nat n * (q / 100) = (of_nat k :: rat)" using n by (simp add: q_def)
  then have here: "percentile vs q = vs ! k" using n k(1) by (intro percentile_at) (simp_all add: len)
  have "(of_nat n :: rat) \<le> of_nat (4 * k)" "(of_nat (4 * k) :: rat) \<le> of_nat (3 * n)" using k(2,3) by (simp_all only: of_nat_le_iff)
  then have "25 \<le> q" "q \<le> 75" using n by (simp_all add: q_def field_simps)
  then show ?thesis
    using percentile_mono [OF assms(1), of 25 q] percentile_mono [OF assms(1), of q 75] here nth_mem [OF k(1)] by auto
qed

text \<open>Fewer than three samples are all within half an interquartile range of the quartiles.\<close>

lemma quartiles_two: "percentile [a, b] 25 = a + (b - a) / 4" "percentile [a, b] 75 = a + (b - a) * (3 / 4)"
proof -
  have "\<lfloor>1 / 4 :: rat\<rfloor> = 0" "\<lfloor>3 / 4 :: rat\<rfloor> = 0" by (rule floor_unique; simp)+
  moreover have "\<lceil>1 / 4 :: rat\<rceil> = 1" "\<lceil>3 / 4 :: rat\<rceil> = 1" by (rule ceiling_unique; simp)+
  ultimately show "percentile [a, b] 25 = a + (b - a) / 4" "percentile [a, b] 75 = a + (b - a) * (3 / 4)"
    by (simp_all add: percentile_def Let_def)
qed

lemma outlier_core:
  assumes "sorted vs" "vs \<noteq> []" "1 / 2 \<le> c"
  defines "r \<equiv> (percentile vs 75 - percentile vs 25) * c"
  shows "\<exists>y \<in> set vs. percentile vs 25 - r \<le> y \<and> y \<le> percentile vs 75 + r"
proof (cases "3 \<le> length vs")
  case True
  have "0 \<le> r" unfolding r_def using percentile_mono [OF assms(1), of 25 75] assms(3) by (intro mult_nonneg_nonneg) auto
  moreover obtain y where "y \<in> set vs" "percentile vs 25 \<le> y" "y \<le> percentile vs 75"
    using quartile_sample [OF assms(1) True] by blast
  ultimately show ?thesis by (intro bexI [of _ y]) auto
next
  case False
  then consider a where "vs = [a]" | a b where "vs = [a, b]"
    using assms(2) by (cases vs rule: list.exhaust, simp, cases "tl vs") (auto simp: Suc_le_eq)
  then show ?thesis
  proof cases
    case 1
    then show ?thesis by (simp add: r_def percentile_def)
  next
    case (2 a b)
    define d where "d = b - a"
    have d: "0 \<le> d" using assms(1) 2 by (simp add: d_def)
    then have le: "d / 4 \<le> d * c / 2" using mult_left_mono [OF assms(3) d] by simp
    have "percentile vs 25 = a + d / 4" "percentile vs 75 = a + d * (3 / 4)" by (simp_all only: 2 quartiles_two d_def)
    moreover from this have "r = d * c / 2" by (simp add: r_def algebra_simps)
    ultimately have "percentile vs 25 - r \<le> a \<and> a \<le> percentile vs 75 + r" using d le by simp
    then show ?thesis using 2 by auto
  qed
qed

lemma kept_not_empty:
  assumes "\<And>q. pct lats q = percentile (sort lats) q" "lats \<noteq> []" "1 / 2 \<le> c"
  shows "fst (remove_outliers pct lats c) \<noteq> []"
proof -
  have "sort lats \<noteq> []" using assms(2) by (metis set_empty set_sort)
  from outlier_core [OF sorted_sort this assms(3)] show ?thesis
    by (auto simp: remove_outliers_def Let_def assms(1) filter_empty_conv)
qed

text \<open>The outlier filter keeps a sample. With \<open>numpy.percentile\<close> as documented (linear interpolation in the sorted
  samples), the two lists of \<open>remove_outliers\<close> together are the samples, their order kept, and for a factor of at least
  one half the first is not empty when there is a sample, so the second mean latency is defined.\<close>

theorem outliers_keep_a_sample:
  assumes numpy: "\<And>xs q. xs \<noteq> [] \<Longrightarrow> pct xs q = percentile (sort xs) q"
    and "lats \<noteq> []" "1 / 2 \<le> c" "remove_outliers pct lats c = (kept, removed)"
  shows "kept \<noteq> [] \<and> mset kept + mset removed = mset lats \<and> subseq kept lats \<and> subseq removed lats"
proof -
  have "kept \<noteq> []" using kept_not_empty [of pct lats c] numpy [OF assms(2)] assms(2-4) by simp
  moreover have "mset kept + mset removed = mset lats"
    using assms(4) by (auto simp: remove_outliers_def Let_def simp flip: multiset_partition)
  ultimately show ?thesis using assms(4) by (auto simp: remove_outliers_def Let_def subseq_filter_left)
qed

lemma outliers_keep_a_sample_witness:
  "fst (remove_outliers (\<lambda>xs q. percentile (sort xs) q) [1, 2, 3, 100] (3 / 2)) \<noteq> []"
  using outliers_keep_a_sample [of "\<lambda>xs q. percentile (sort xs) q" "[1, 2, 3, 100]" "3 / 2"]
  by (cases "remove_outliers (\<lambda>xs q. percentile (sort xs) q) [1, 2, 3, 100] (3 / 2)") simp

text \<open>What the program prints. For a log with at least one commit whose histogram was computed, without \<open>--plot\<close>, the
  script never fails: it prints the histogram and two latencies and changes nothing else.\<close>

theorem thr_hist_prints:
  assumes numpy: "\<And>xs q. xs \<noteq> [] \<Longrightarrow> pct xs q = percentile (sort xs) q"
    and "read_commits (file_lines (translate_newlines stdin)) = Inr (timestamps, lats)" "timestamps \<noteq> []"
    and "histogram (arg ns ''interval'') timestamps = Some (Inr vs)" "arg ns ''plot'' = PBool False"
  shows "\<exists>a b. thr_hist_main pct plt ns stdin s = Some (Inr (), s\<lparr>printed := printed s @ [show_list vs, ''lat = '' @ a @ ''ms'', ''lat = '' @ b @ ''ms'']\<rparr>)"
proof -
  have "length timestamps = length lats" if "read_commits ls = Inr (timestamps, lats)" for ls timestamps lats
    using that by (induction ls arbitrary: timestamps lats rule: read_commits.induct)
      (auto split: option.splits list.splits simp: bindR_def split: sum.splits)
  from this [OF assms(2)] assms(3) have ne: "lats \<noteq> []" by auto
  have "fst (remove_outliers pct lats (3 / 2)) \<noteq> []"
    by (rule kept_not_empty) (simp_all add: ne numpy)
  then show ?thesis
    using ne assms(2,4,5)
    by (auto simp: thr_hist_main_def report_thr_def mean_line_def liftR_def seqM_def bindM_def retM_def
        print_line_def modifyM_def whenM_def)
qed

definition idle_plot :: pyplot where
  "idle_plot = \<lparr>plt_xlabel = \<lambda>_. retM (), plt_ylabel = \<lambda>_. retM (), plt_plot = \<lambda>_ _. retM (), plt_show = retM (), plt_savefig = \<lambda>_. retM ()\<rparr>"

definition one_commit :: string where
  "one_commit = ''2020-01-01 00:00:01.5 [hotstuff info] 0.25'' @ [LF]"

lemma thr_hist_prints_witness:
  "\<exists>a b s'. thr_hist_main (\<lambda>xs q. percentile (sort xs) q) idle_plot [(''interval'', PInt 1), (''plot'', PBool False)]
      one_commit \<lparr>fs_files = [], fs_faults = [], printed = []\<rparr> = Some (Inr (), s') \<and> printed s' = [''[1]'', ''lat = '' @ a @ ''ms'', ''lat = '' @ b @ ''ms'']"
proof -
  have r: "read_commits (file_lines (translate_newlines one_commit)) = Inr ([1577836801000005], [1 / 4])"
    unfolding one_commit_def by code_simp
  have i: "timedelta_seconds (PInt 1) = Inr 1000000" "dt_add 1577836801000005 1000000 = Inr 1577836802000005" by code_simp+
  have h: "histogram (PInt 1) [1577836801000005] = Some (Inr [1])"
    by (simp add: histogram_def first_interval_def i advance.simps)
  have sh: "show_list [1] = ''[1]''" by code_simp
  show ?thesis
    using thr_hist_prints [of "\<lambda>xs q. percentile (sort xs) q" one_commit _ _ "[(''interval'', PInt 1), (''plot'', PBool False)]" "[1]"
      idle_plot "\<lparr>fs_files = [], fs_faults = [], printed = []\<rparr>", OF _ r] h sh
    by (fastforce simp: arg_def)
qed

end
