(* ===== verification/Remote_Rows.thy ===== *)
theory Remote_Rows
  imports Config Csv_File
begin

section \<open>The rows of a sweep (benchmark/benchmark/remote.py)\<close>

text \<open>
  How \<open>run_from_csv\<close> reads the rows of its input, which rows it skips when it resumes, what it hands to
  the parameter classes and what it appends to the output. A row is one of \<open>csv.DictReader\<close>; surplus
  cells are under the key \<open>None\<close>.
\<close>

definition RESULT_COLUMNS :: "string list" where
  "RESULT_COLUMNS =
     [''tps'', ''latency_ms_mean'', ''latency_ms_p50'', ''latency_ms_p95'', ''latency_ms_p99'', ''duration_s'',
      ''n_committed'', ''n_records_dumped'', ''raw_dump_truncated'', ''n_clients'', ''n_replicas_booted'',
      ''tps_steady'', ''latency_ms_mean_steady'', ''latency_ms_p50_steady'', ''latency_ms_p99_steady'',
      ''latency_ms_p99_steady_worst_client'', ''n_committed_steady'', ''steady_span_s'', ''clients_committing'',
      ''last_commit_s'', ''longest_zero_commit_s'', ''stalled'', ''status'']"

definition out_fieldnames :: "string list \<Rightarrow> string list" where
  "out_fieldnames input_columns = input_columns @ filter (\<lambda>c. c \<notin> set input_columns) RESULT_COLUMNS"

text \<open>\<open>row.get(k, d)\<close>.\<close>

definition cell_val :: "jval \<Rightarrow> pyval" where
  "cell_val v = (case v of JStr s \<Rightarrow> PStr s | _ \<Rightarrow> PNone)"

definition row_get_or :: "row \<Rightarrow> string \<Rightarrow> pyval \<Rightarrow> pyval" where
  "row_get_or r k d = (case dict_get (cells r) k of None \<Rightarrow> d | Some v \<Rightarrow> cell_val v)"

definition row_index :: "row \<Rightarrow> string \<Rightarrow> pyval res" where
  "row_index r k = (case dict_get (cells r) k of None \<Rightarrow> Inl (KeyError k) | Some v \<Rightarrow> Inr (cell_val v))"

subsection \<open>Parameters of a row\<close>

definition cpu_cells :: "row \<Rightarrow> raw res" where
  "cpu_cells r =
     (if surplus r \<noteq> [] then Inl (AttributeError ''NoneType object has no attribute startswith'')
      else Inr (map (\<lambda>(k, v). (k, cell_val v)) (filter (\<lambda>(k, v). starts_with ''cpu_node'' k) (cells r))))"

definition row_to_bench :: "row \<Rightarrow> raw res" where
  "row_to_bench r =
     bindR (row_index r ''num_clients'') (\<lambda>num_clients.
     bindR (row_index r ''max_async'') (\<lambda>max_async.
     bindR (cpu_cells r) (\<lambda>cpus.
     Inr (dict_set ''collocate_client''
            (PBool (py_lower (py_str (row_get_or r ''collocate_client'' (PStr ''true''))) \<in> {''true'', ''1'', ''yes''}))
       (dict_update cpus
         [(''nodes'', row_get_or r ''nodes'' (PInt 4)), (''num_clients'', num_clients),
          (''iter_count'', row_get_or r ''iter_count'' (PInt (- 1))), (''max_async'', max_async),
          (''duration'', row_get_or r ''duration'' (PInt 60)), (''runs'', row_get_or r ''runs'' (PInt 1)),
          (''meas_warmup'', row_get_or r ''meas_warmup'' (PInt 0)), (''meas_cooldown'', row_get_or r ''meas_cooldown'' (PInt 0)),
          (''sample_compute'', row_get_or r ''sample_compute'' (PBool False)), (''fail_node'', row_get_or r ''fail_node'' (PInt (- 1))),
          (''fail_type'', row_get_or r ''fail_type'' (PStr [])), (''fail_at'', row_get_or r ''fail_at'' (PInt 0)),
          (''imp_timeout'', row_get_or r ''imp_timeout'' (PInt 0))])))))"

text \<open>\<open>{k: row[k] for k in keys if k in row and row[k] != ''}\<close>.\<close>

definition pick_cells :: "string list \<Rightarrow> row \<Rightarrow> raw" where
  "pick_cells keys r =
     concat (map (\<lambda>k. case dict_get (cells r) k of None \<Rightarrow> [] | Some v \<Rightarrow> if v = JStr [] then [] else [(k, cell_val v)]) keys)"

definition row_to_protocol :: "row \<Rightarrow> raw" where
  "row_to_protocol = pick_cells
     [''block_size'', ''pace_maker'', ''nworker'', ''repnworker'', ''clinworker'', ''repburst'', ''cliburst'',
      ''max_rep_msg'', ''max_cli_msg'', ''pport'', ''cport'', ''sb_users'', ''sb_prob_choose_mtx'', ''sb_skew_factor'']"

definition row_to_network :: "row \<Rightarrow> raw" where
  "row_to_network = pick_cells [''lat_node0'', ''lat_node1'', ''lat_node2'', ''lat_node3'']"

record row_params =
  rp_bench :: bench_params
  rp_protocol :: protocol_params
  rp_network :: "(nat, int) dict"

definition parse_row :: "row \<Rightarrow> row_params res" where
  "parse_row r =
     bindR (bindR (row_to_bench r) BenchParameters) (\<lambda>bench.
     bindR (ProtocolParameters (row_to_protocol r)) (\<lambda>protocol.
     bindR (NetworkParameters (row_to_network r)) (\<lambda>network.
     Inr \<lparr>rp_bench = bench, rp_protocol = protocol, rp_network = network\<rparr>)))"

subsection \<open>Resuming\<close>

definition run_id_of :: "nat \<Rightarrow> row \<Rightarrow> string" where
  "run_id_of idx r = (case row_get r ''run_id'' of JStr s \<Rightarrow> if s = [] then show_nat (idx + 1) else s | _ \<Rightarrow> show_nat (idx + 1))"

definition completed_ids :: "row list \<Rightarrow> string list" where
  "completed_ids rows =
     map (\<lambda>r. str_of (row_get r ''run_id''))
       (filter (\<lambda>r. str_of (row_get r ''run_id'') \<noteq> [] \<and> row_get r ''status'' \<in> {JStr ''OK'', JStr ''DOWNLOADED''}) rows)"

definition out_row :: "row \<Rightarrow> string \<Rightarrow> row" where
  "out_row r status =
     row_set ''status'' (JStr status)
       (fold (\<lambda>c r. r\<lparr>cells := dict_setdefault c (JStr []) (cells r)\<rparr>) (filter (\<lambda>c. c \<noteq> ''status'') RESULT_COLUMNS) r)"

definition write_row :: "path \<Rightarrow> string list \<Rightarrow> row \<Rightarrow> string \<Rightarrow> ('z fs_scheme, unit) M" where
  "write_row output_file csv_fieldnames input_row status = append_row output_file csv_fieldnames (out_row input_row status)"

subsection \<open>Rows of the output\<close>

lemma setdefault_fold:
  "dict_get (cells (fold (\<lambda>c r. r\<lparr>cells := dict_setdefault c d (cells r)\<rparr>) cs r)) k =
     (case dict_get (cells r) k of None \<Rightarrow> if k \<in> set cs then Some d else None | Some v \<Rightarrow> Some v)"
  "surplus (fold (\<lambda>c r. r\<lparr>cells := dict_setdefault c d (cells r)\<rparr>) cs r) = surplus r"
  by (induction cs arbitrary: r) (auto simp: dict_get_setdefault split: option.splits)

lemma out_row_get:
  "dict_get (cells (out_row r st)) k =
     (if k = ''status'' then Some (JStr st)
      else case dict_get (cells r) k of None \<Rightarrow> if k \<in> set RESULT_COLUMNS then Some (JStr []) else None | Some v \<Rightarrow> Some v)"
  "surplus (out_row r st) = surplus r"
  by (auto simp: out_row_def row_set_def setdefault_fold split: option.splits)

lemma result_columns: "distinct RESULT_COLUMNS" "no_cr RESULT_COLUMNS" "''status'' \<in> set RESULT_COLUMNS"
  by code_simp+

lemma out_fieldnames_set: "set (out_fieldnames cols) = set cols \<union> set RESULT_COLUMNS"
  by (auto simp: out_fieldnames_def)

lemma out_fieldnames_ok: "distinct cols \<Longrightarrow> distinct (out_fieldnames cols)" "no_cr cols \<Longrightarrow> no_cr (out_fieldnames cols)"
  "out_fieldnames cols \<noteq> []"
proof -
  show "distinct cols \<Longrightarrow> distinct (out_fieldnames cols)" using result_columns(1) by (auto simp: out_fieldnames_def)
  show "no_cr cols \<Longrightarrow> no_cr (out_fieldnames cols)" using result_columns(2) by (auto simp: no_cr_def out_fieldnames_set)
  show "out_fieldnames cols \<noteq> []" using result_columns(3) out_fieldnames_set [of cols] by force
qed

text \<open>What an input row becomes in the output file.\<close>

definition out_record :: "string list \<Rightarrow> string list \<Rightarrow> string \<Rightarrow> string list" where
  "out_record cols rec st =
     map (\<lambda>k. if k = ''status'' then st else case map_of (zip cols rec) k of None \<Rightarrow> [] | Some v \<Rightarrow> v) (out_fieldnames cols)"

lemma dict_row_map_of:
  assumes "length rec = length cols" "distinct cols"
  shows "dict_get (cells (dict_row cols rec)) k = map_option JStr (map_of (zip cols rec) k)"
proof (cases "k \<in> set cols")
  case True
  then obtain i where i: "i < length cols" "cols ! i = k" by (auto simp: in_set_conv_nth)
  then show ?thesis using dict_row_get [OF assms i(1)] map_of_zip_nth [of cols rec i] assms by auto
next
  case False
  then show ?thesis using dict_row_get_None [OF assms(1) False] assms(1) by (simp add: map_of_zip_is_None)
qed

lemma out_row_record:
  assumes "length rec = length cols" "distinct cols"
  shows "row_record (out_fieldnames cols) (out_row (dict_row cols rec) st) = Inr (out_record cols rec st)"
proof -
  have z: "map_of (zip cols rec) k = Some v \<Longrightarrow> k \<in> set cols" for k v by (meson map_of_SomeD set_zip_leftD)
  have "k \<in> set (out_fieldnames cols)" if "dict_get (cells (out_row (dict_row cols rec) st)) k \<noteq> None" for k
    using that assms result_columns(3)
    by (auto simp: out_row_get dict_row_map_of out_fieldnames_set split: if_splits option.splits dest: z set_zip_leftD)
  then have "set (dict_keys (cells (out_row (dict_row cols rec) st))) \<subseteq> set (out_fieldnames cols)"
    using dict_get_in_keys by (metis subsetI)
  moreover have "csv_cell (dict_get_or (cells (out_row (dict_row cols rec) st)) k (JStr []))
      = (if k = ''status'' then st else case map_of (zip cols rec) k of None \<Rightarrow> [] | Some v \<Rightarrow> v)" for k
  proof (cases "map_of (zip cols rec) k")
    case None
    show ?thesis by (simp add: dict_get_or_def out_row_get dict_row_map_of [OF assms] None)
  next
    case (Some v)
    show ?thesis by (simp add: dict_get_or_def out_row_get dict_row_map_of [OF assms] Some)
  qed
  ultimately show ?thesis
    using assms by (simp add: row_record_def out_row_get dict_row_keys out_record_def)
qed

lemma out_record_ok:
  assumes "length rec = length cols" "no_cr rec" "CR \<notin> set st"
  shows "length (out_record cols rec st) = length (out_fieldnames cols)" "no_cr (out_record cols rec st)"
proof -
  have "CR \<notin> set v" if "map_of (zip cols rec) k = Some v" for k v
    using that assms(2) by (auto simp: no_cr_def dest!: map_of_SomeD set_zip_rightD)
  then show "no_cr (out_record cols rec st)" using assms(3) by (auto simp: out_record_def no_cr_def split: option.splits)
qed (simp add: out_record_def)

lemma out_record_reread:
  assumes "distinct cols" "k \<in> set (out_fieldnames cols)"
  shows "row_get (dict_row (out_fieldnames cols) (out_record cols rec st)) k =
    JStr (if k = ''status'' then st else case map_of (zip cols rec) k of None \<Rightarrow> [] | Some v \<Rightarrow> v)"
proof -
  obtain i where i: "i < length (out_fieldnames cols)" "out_fieldnames cols ! i = k" using assms(2) by (auto simp: in_set_conv_nth)
  have "length (out_record cols rec st) = length (out_fieldnames cols)" by (simp add: out_record_def)
  from dict_row_get [OF this out_fieldnames_ok(1) [OF assms(1)] i(1)] i show ?thesis
    by (simp add: row_get_def dict_get_or_def out_record_def)
qed

lemma completed_ids_append: "completed_ids (xs @ ys) = completed_ids xs @ completed_ids ys"
  by (simp add: completed_ids_def)

text \<open>Resuming skips exactly what was done. After a run's row has been appended with the status DOWNLOADED (or OK), the
  next session reads back from the output file, besides the runs it found before, the id under which it would look the
  row up, so the run is skipped; a row appended with any other status adds no id, so the run is tried again. This needs
  the column \<open>run_id\<close> in the input.\<close>

theorem resume_finds_run:
  assumes place: "table_place p s" and cols: "table_ok cols [rec]" "''run_id'' \<in> set cols"
    and id: "row_get (dict_row cols rec) ''run_id'' = JStr rid" "rid \<noteq> []"
    and recs: "table_ok (out_fieldnames cols) recs" and st: "CR \<notin> set st"
    and old: "node_at p s = Some (Text (csv_print (out_fieldnames cols # recs)))
      \<or> (recs = [] \<and> (node_at p s = None \<or> node_at p s = Some (Text [])))"
  shows "\<exists>t body. write_row p (out_fieldnames cols) (dict_row cols rec) st s = (Inr (), t) \<and> node_at p t = Some (Text body)
    \<and> set (completed_ids (snd (dict_reader body))) =
        set (completed_ids (map (dict_row (out_fieldnames cols)) recs)) \<union>
        (if st \<in> {''OK'', ''DOWNLOADED''} then {run_id_of k (dict_row cols rec)} else {})"
proof -
  let ?fn = "out_fieldnames cols" and ?out = "out_record cols rec st"
  have c: "distinct cols" "no_cr cols" "length rec = length cols" "no_cr rec" using cols(1) by (simp_all add: table_ok_def)
  define body where "body = csv_print (?fn # recs @ [?out])"
  have run: "write_row p ?fn (dict_row cols rec) st s = (Inr (), put_node p (Text body) (locked p s))"
    unfolding write_row_def body_def by (rule append_row_run [OF place out_row_record [OF c(3,1)] old])
  have "table_ok ?fn (recs @ [?out])"
    using recs out_record_ok [OF c(3,4) st] by (auto simp: table_ok_def)
  then have read: "snd (dict_reader body) = map (dict_row ?fn) recs @ [dict_row ?fn ?out]"
    unfolding body_def by (simp add: dict_reader_print)
  have "map_of (zip cols rec) ''run_id'' = Some rid"
    using id(1) dict_row_map_of [OF c(3,1), of "''run_id''"] by (cases "map_of (zip cols rec) ''run_id''") (auto simp: row_get_def dict_get_or_def)
  then have "row_get (dict_row ?fn ?out) ''run_id'' = JStr rid" "row_get (dict_row ?fn ?out) ''status'' = JStr st"
    using out_record_reread [OF c(1)] cols(2) result_columns(3) by (simp_all add: out_fieldnames_set)
  then have "set (completed_ids [dict_row ?fn ?out]) = (if st \<in> {''OK'', ''DOWNLOADED''} then {rid} else {})"
    using id(2) by (auto simp: completed_ids_def)
  moreover have "run_id_of k (dict_row cols rec) = rid" using id by (simp add: run_id_of_def)
  ultimately show ?thesis using run read by (simp add: completed_ids_append)
qed

definition sweep_cols :: "string list" where
  "sweep_cols = [''run_id'', ''num_clients'', ''max_async'']"

lemma resume_finds_run_witness:
  "\<exists>t body. write_row results_path0 (out_fieldnames sweep_cols) (dict_row sweep_cols [''A'', ''4'', ''100'']) ''DOWNLOADED'' (results0\<lparr>fs_files := []\<rparr>) = (Inr (), t)
    \<and> node_at results_path0 t = Some (Text body) \<and> set (completed_ids (snd (dict_reader body))) = {''A''}"
proof -
  have place: "table_place results_path0 (results0\<lparr>fs_files := []\<rparr>)"
    by (simp add: table_place_def results0_def results_path0_def path_isdir_def node_at_def lock_path_def tmp_path_def)
  have id: "row_get (dict_row sweep_cols [''A'', ''4'', ''100'']) ''run_id'' = JStr ''A''" by code_simp
  have cols: "table_ok sweep_cols [[''A'', ''4'', ''100'']]" "''run_id'' \<in> set sweep_cols" by code_simp+
  have "table_ok (out_fieldnames sweep_cols) []" by code_simp
  from resume_finds_run [OF place cols id _ this, of "''DOWNLOADED''" 0] show ?thesis
    using id by (simp add: CR_def node_at_def completed_ids_def run_id_of_def)
qed

text \<open>Without that column nothing is ever found again.\<close>

lemma no_run_id_no_resume:
  assumes "table_ok fn recs" "''run_id'' \<notin> set fn"
  shows "completed_ids (map (dict_row fn) recs) = []"
proof -
  have "row_get (dict_row fn rec) ''run_id'' = JNull" if "rec \<in> set recs" for rec
    using that assms dict_row_get_None [of rec fn "''run_id''"] by (simp add: table_ok_def row_get_def dict_get_or_def)
  then show ?thesis by (auto simp: completed_ids_def filter_empty_conv)
qed

end
