(* ===== verification/Remote_Testbed.thy ===== *)
theory Remote_Testbed
  imports Remote_Rows Testbed Retry Notifier Gen_Conf Netem
begin

section \<open>Operations on the testbed (benchmark/benchmark/remote.py, CloudLabBench)\<close>

text \<open>
  The operations of \<open>CloudLabBench\<close> on the hosts: the connection pool, commands, uploads and downloads, the
  interfaces, network emulation and its probe, installation, update and kill. Not in the repository, and
  parameters here: what fabric connections do to the hosts, local shell commands, the SMTP session and the
  clocks. The state of the hosts is of an arbitrary type. Every file operation of the harness itself may
  fail by the fault script.
\<close>

text \<open>The attributes of the object that change, the local files, what is printed, and the two counts of the sweep.\<close>

record 'r harness = fs +
  hn_remote :: 'r
  hn_pool :: "string list"
  hn_iface :: "(string, string) dict"
  hn_rtt :: jval
  hn_post :: post
  hn_out :: "string list"
  hn_completed :: nat
  hn_failed :: nat

text \<open>
  What the object is made with (the instance manager, the repository root and the directory of the module),
  and the parameters: \<open>Connection.run(command, warn)\<close> with its output and error output, \<open>Group.run\<close>, \<open>put\<close>
  and \<open>get\<close>; a local shell command in a directory, on the local files, with its exit status and error output;
  free disk space and the name of a new temporary directory; \<open>sleep\<close>, the monotonic clock, the SMTP session;
  \<open>str(type(e))\<close> and the last result of a \<open>GroupException\<close>.
\<close>

type_synonym 'r disk = "(path, node) dict \<times> 'r"

record 'r testbed =
  tb_manager :: manager
  tb_root :: string
  tb_here :: string
  tb_run :: "string \<Rightarrow> string \<Rightarrow> bool \<Rightarrow> ('r, string \<times> string) M"
  tb_group :: "string list \<Rightarrow> string \<Rightarrow> ('r, unit) M"
  tb_put :: "string \<Rightarrow> node \<Rightarrow> string \<Rightarrow> ('r, unit) M"
  tb_get :: "string \<Rightarrow> string \<Rightarrow> ('r, node) M"
  tb_shell :: "string \<Rightarrow> string option \<Rightarrow> ('r disk, int \<times> string) M"
  tb_free :: "string \<Rightarrow> ('r disk, nat) M"
  tb_tmp :: "'r disk \<Rightarrow> string"
  tb_sleep :: "nat \<Rightarrow> 'r \<Rightarrow> 'r"
  tb_now :: "'r \<Rightarrow> rat"
  tb_smtp :: "jval \<Rightarrow> int \<Rightarrow> email \<Rightarrow> unit res"
  tb_type_str :: "exn \<Rightarrow> string"
  tb_group_str :: "exn \<Rightarrow> string"

abbreviation tb_settings :: "'r testbed \<Rightarrow> settings" where
  "tb_settings tb \<equiv> mg_settings (tb_manager tb)"

definition at_remote :: "('r, 'a) M \<Rightarrow> ('r harness, 'a) M" where
  "at_remote m = (\<lambda>s. case m (hn_remote s) of (x, w) \<Rightarrow> (x, s\<lparr>hn_remote := w\<rparr>))"

definition disk :: "'r harness \<Rightarrow> 'r disk" where
  "disk s = (fs_files s, hn_remote s)"

definition at_disk :: "('r disk, 'a) M \<Rightarrow> ('r harness, 'a) M" where
  "at_disk m = (\<lambda>s. case m (disk s) of (x, d, w) \<Rightarrow> (x, s\<lparr>fs_files := d, hn_remote := w\<rparr>))"

definition say :: "string \<Rightarrow> ('r harness, unit) M" where
  "say t = modifyM (\<lambda>s. s\<lparr>hn_out := hn_out s @ [t]\<rparr>)"

definition say_error :: "'r testbed \<Rightarrow> exn \<Rightarrow> ('r harness, unit) M" where
  "say_error tb e = bindM (liftR (print_error (tb_type_str tb) e)) (\<lambda>ls. forM ls say)"

definition pause :: "'r testbed \<Rightarrow> nat \<Rightarrow> ('r harness, unit) M" where
  "pause tb n = modifyM (\<lambda>s. s\<lparr>hn_remote := tb_sleep tb n (hn_remote s)\<rparr>)"

text \<open>\<open>@retry_on_ssh_error()\<close>.\<close>

definition with_retry :: "'r testbed \<Rightarrow> ('r harness, 'a) M \<Rightarrow> ('r harness, 'a) M" where
  "with_retry tb m = retry_loop 3 [30, 60, 120] None (pause tb) m [1, 2, 3] None"

definition notify_all_of :: "'r testbed \<Rightarrow> string \<Rightarrow> string \<Rightarrow> string option \<Rightarrow> ('r harness, unit) M" where
  "notify_all_of tb subject body key =
     (\<lambda>s. case notify (tb_smtp tb) (tb_now tb (hn_remote s)) subject body key (hn_post s) of
        (Inl e, p) \<Rightarrow> (Inl e, s\<lparr>hn_post := p\<rparr>) | (Inr b, p) \<Rightarrow> (Inr (), s\<lparr>hn_post := p\<rparr>))"

subsection \<open>Connections\<close>

definition conn :: "string \<Rightarrow> ('r harness, unit) M" where
  "conn host = modifyM (\<lambda>s. if host \<in> set (hn_pool s) then s else s\<lparr>hn_pool := hn_pool s @ [host]\<rparr>)"

definition conn_run :: "'r testbed \<Rightarrow> string \<Rightarrow> string \<Rightarrow> bool \<Rightarrow> ('r harness, string \<times> string) M" where
  "conn_run tb host command warn = seqM (conn host) (at_remote (tb_run tb host command warn))"

definition conn_put :: "'r testbed \<Rightarrow> string \<Rightarrow> string \<Rightarrow> string \<Rightarrow> ('r harness, unit) M" where
  "conn_put tb host src remote =
     seqM (conn host) (bindM (read_node (file_path src)) (\<lambda>n. at_remote (tb_put tb host n remote)))"

definition conn_get :: "'r testbed \<Rightarrow> string \<Rightarrow> string \<Rightarrow> string \<Rightarrow> ('r harness, unit) M" where
  "conn_get tb host remote dst =
     seqM (conn host) (bindM (at_remote (tb_get tb host remote)) (\<lambda>n. write_node (file_path dst) n))"

definition group_run :: "'r testbed \<Rightarrow> string list \<Rightarrow> string \<Rightarrow> ('r harness, unit) M" where
  "group_run tb hs command = seqM (forM hs conn) (at_remote (tb_group tb hs command))"

definition reset_pool :: "('r harness, unit) M" where
  "reset_pool = modifyM (\<lambda>s. s\<lparr>hn_pool := []\<rparr>)"

definition check_stderr :: "string \<times> string \<Rightarrow> ('r harness, unit) M" where
  "check_stderr output = (if snd output \<noteq> [] then raiseM (ExecutionError (snd output)) else retM ())"

text \<open>\<open>os.path.splitext(os.path.basename(p))[0]\<close>.\<close>

definition file_stem :: "string \<Rightarrow> string" where
  "file_stem p =
     (let b = last (py_split (CHR ''/'') p); h = take (length b - length (takeWhile (\<lambda>c. c \<noteq> CHR ''.'') (rev b)) - 1) b in
      if CHR ''.'' \<in> set b \<and> (\<exists>c \<in> set h. c \<noteq> CHR ''.'') then h else b)"

definition background_command :: "string \<Rightarrow> string \<Rightarrow> string" where
  "background_command command log_file =
     ''nohup '' @ command @ '' > '' @ log_file @ '' 2>&1 < /dev/null & echo $! > /tmp/hotstuff_pid_'' @ file_stem log_file"

definition background_run :: "'r testbed \<Rightarrow> string \<Rightarrow> string \<Rightarrow> string \<Rightarrow> ('r harness, unit) M" where
  "background_run tb ssh_host command log_file =
     bindM (conn_run tb ssh_host (background_command command log_file) False) check_stderr"

text \<open>\<open>xs[:n]\<close> and \<open>xs[n:]\<close>.\<close>

definition slice_pos :: "'a list \<Rightarrow> int \<Rightarrow> nat" where
  "slice_pos xs n = nat (if n < 0 then int (length xs) + n else n)"

definition slice_to :: "int \<Rightarrow> 'a list \<Rightarrow> 'a list" where
  "slice_to n xs = take (slice_pos xs n) xs"

definition slice_from :: "int \<Rightarrow> 'a list \<Rightarrow> 'a list" where
  "slice_from n xs = drop (slice_pos xs n) xs"

text \<open>A list of (ssh host name, protocol address); \<open>sorted({h for h, _ in pairs})\<close>.\<close>

type_synonym pairs = "(string \<times> string) list"

definition sorted_hosts :: "pairs \<Rightarrow> string list" where
  "sorted_hosts ps = sort (remdups (map fst ps))"

definition count_alive_clients :: "'r testbed \<Rightarrow> pairs \<Rightarrow> int \<Rightarrow> ('r harness, int) M" where
  "count_alive_clients tb client_pairs num_clients =
     catchM
       (foldM (\<lambda>alive host.
          bindM (conn_run tb host (''pgrep -c '' @ [CHR 0x22] @ ''^hotstuff-client$'' @ [CHR 0x22]) True) (\<lambda>(out, err).
          let t = py_strip (if out = [] then ''0'' else out) in
          bindM (liftR (py_int (PStr (if t = [] then ''0'' else t)))) (\<lambda>n. retM (alive + n))))
        0 (sorted_hosts (slice_to num_clients client_pairs)))
       is_Exception (\<lambda>e. retM num_clients)"

definition kill_all :: "'r testbed \<Rightarrow> string list option \<Rightarrow> bool \<Rightarrow> ('r harness, unit) M" where
  "kill_all tb hs delete_logs =
     with_retry tb (group_run tb (case hs of None \<Rightarrow> ssh_hosts (tb_manager tb) | Some l \<Rightarrow> l)
       (py_join '' && '' [if delete_logs then clean_logs_command else ''true'', ''('' @ kill_command @ '' || true)'']))"

subsection \<open>Building\<close>

definition group_error :: "'r testbed \<Rightarrow> exn \<Rightarrow> exn" where
  "group_error tb e = (if is_GroupException e then FabricError (tb_group_str tb e) else e)"

fun is_ExecutionError :: "exn \<Rightarrow> bool" where
  "is_ExecutionError (ExecutionError _) = True"
| "is_ExecutionError _ = False"

definition install :: "'r testbed \<Rightarrow> ('r harness, unit) M" where
  "install tb =
     (let st = tb_settings tb; repo = repo_name st; hs = ssh_hosts (tb_manager tb) in
      seqM (say (print_info ''Installing build deps + cloning libhotstuff on every node...''))
       (catchM
         (seqM (group_run tb hs (py_join '' && '' [apt_install, clone (repo_url st) repo, git_sync repo (branch st),
                  cmake_configure repo False False False False, make_all repo None]))
           (say (print_heading (''Initialized testbed of '' @ show_nat (length hs) @ '' nodes''))))
         (\<lambda>e. is_GroupException e \<or> is_ExecutionError e)
         (\<lambda>e. raiseM (BenchError ''Failed to install libhotstuff'' (group_error tb e)))))"

definition update_all :: "'r testbed \<Rightarrow> bool \<Rightarrow> ('r harness, unit) M" where
  "update_all tb proto_log =
     with_retry tb
      (let st = tb_settings tb; repo = repo_name st; hs = ssh_hosts (tb_manager tb) in
       seqM (say (print_info (''Updating + rebuilding on '' @ show_nat (length hs) @ '' nodes (branch '' @ [CHR 0x22] @ branch st @
               [CHR 0x22] @ '', proto_log='' @ on_off proto_log @ '')...'')))
         (group_run tb hs (py_join '' && '' [git_sync repo (branch st), cmake_configure repo False False proto_log False, make_all repo None])))"

subsection \<open>Local files of a run\<close>

definition archive_logs :: "path \<Rightarrow> ('z fs_scheme, unit) M" where
  "archive_logs dest_dir =
     bindM (getM (path_isdir (file_path logs_path))) (\<lambda>isdir.
     if \<not> isdir then retM ()
     else
       bindM (getM (path_exists dest_dir)) (\<lambda>ex.
       seqM (if ex then drop_tree dest_dir else retM ()) (copy_tree (file_path logs_path) dest_dir)))"

definition mark_log_dir_ready :: "path \<Rightarrow> string \<Rightarrow> ('z fs_scheme, unit) M" where
  "mark_log_dir_ready dest_dir run_id =
     seqM (make_dirs dest_dir)
    (seqM (write_node (dest_dir @ [''meta.json'']) (Json (JObj [(''run_id'', JStr run_id)])))
          (write_node (dest_dir @ [''READY'']) (Text [])))"

subsection \<open>Network emulation\<close>

text \<open>\<open>bench\<close> asks for its number of nodes; the protocol addresses are the host names on a testbed of several sites.\<close>

definition proto_hosts :: "manager \<Rightarrow> string list" where
  "proto_hosts mg = (if mf_multi_site (mg_manifest mg) then ssh_hosts mg else hosts mg)"

definition select_hosts :: "'r testbed \<Rightarrow> bench_params \<Rightarrow> ('r harness, pairs \<times> pairs) M" where
  "select_hosts tb bench =
     (let mg = tb_manager tb; ssh = ssh_hosts mg; proto = proto_hosts mg; n = bp_nodes bench in
      if int (length ssh) < n then
        seqM (say (print_warn (''Need '' @ show_int n @ '' replicas but manifest has '' @ show_nat (length ssh) @ '' nodes'')))
          (retM ([], []))
      else
        let replica_pairs = zip (slice_to n ssh) (slice_to n proto); extras = zip (slice_from n ssh) (slice_from n proto) in
        if bp_collocate_client bench \<or> extras = [] then retM (replica_pairs, replica_pairs) else retM (replica_pairs, extras))"

definition iface_for :: "'r testbed \<Rightarrow> string \<Rightarrow> string \<Rightarrow> ('r harness, string) M" where
  "iface_for tb ssh_host peer_ip =
     bindM (getM (\<lambda>s. dict_get (hn_iface s) ssh_host)) (\<lambda>known.
     case known of
       Some iface \<Rightarrow> retM iface
     | None \<Rightarrow>
         bindM (conn_run tb ssh_host (route_get_command peer_ip) True) (\<lambda>r.
         bindM (liftR (discover_iface ssh_host peer_ip r)) (\<lambda>iface.
         seqM (modifyM (\<lambda>s. s\<lparr>hn_iface := dict_set ssh_host iface (hn_iface s)\<rparr>)) (retM iface))))"

text \<open>The addresses of the other replicas, by index.\<close>

definition other_ips :: "pairs \<Rightarrow> nat \<Rightarrow> (nat, string) dict" where
  "other_ips replica_pairs i = filter (\<lambda>(j, ip). j \<noteq> i) (enumerate 0 (map snd replica_pairs))"

fun is_NetemError :: "exn \<Rightarrow> bool" where
  "is_NetemError (NetemError _) = True"
| "is_NetemError _ = False"

definition clear_netem_pairs :: "'r testbed \<Rightarrow> pairs \<Rightarrow> ('r harness, unit) M" where
  "clear_netem_pairs tb replica_pairs =
     (if length replica_pairs < 2 then retM ()
      else forM (enumerate 0 (map fst replica_pairs)) (\<lambda>(i, ssh_host).
        bindM
          (catchM (bindM (iface_for tb ssh_host (snd (hd (other_ips replica_pairs i)))) (\<lambda>iface. retM (Some iface)))
            is_NetemError
            (\<lambda>e. seqM (say (print_warn (''_clear_netem: '' @ exn_msg e @ ''; skipping '' @ ssh_host))) (retM None)))
          (\<lambda>found. case found of
             None \<Rightarrow> retM ()
           | Some iface \<Rightarrow> bindM (conn_run tb ssh_host (teardown_command iface) False) (\<lambda>_. retM ()))))"

definition apply_netem :: "'r testbed \<Rightarrow> pairs \<Rightarrow> (nat, int) dict \<Rightarrow> ('r harness, unit) M" where
  "apply_netem tb replica_pairs network =
     seqM (clear_netem_pairs tb replica_pairs)
      (if \<not> any_latency network then retM ()
       else forM (enumerate 0 (map fst replica_pairs)) (\<lambda>(i, ssh_host).
         let peer_ips = other_ips replica_pairs i in
         bindM (case peer_ips of [] \<Rightarrow> raiseM StopIteration | (j, ip) # r \<Rightarrow> iface_for tb ssh_host ip) (\<lambda>iface.
         forM (setup_commands i peer_ips (compute_pairwise_delays network) iface) (\<lambda>cmd.
           bindM (conn_run tb ssh_host cmd False) (\<lambda>_. retM ())))))"

definition clear_netem :: "'r testbed \<Rightarrow> int \<Rightarrow> ('r harness, unit) M" where
  "clear_netem tb nodes =
     with_retry tb
       (clear_netem_pairs tb (zip (slice_to nodes (ssh_hosts (tb_manager tb))) (slice_to nodes (proto_hosts (tb_manager tb)))))"

subsection \<open>The round-trip probe\<close>

definition RTT_FILE :: string where
  "RTT_FILE = ''rtt.json''"

record rtt_job =
  rj_label :: string
  rj_host :: string
  rj_targets :: "(string, nat \<times> int) dict"

definition replica_targets :: "pairs \<Rightarrow> (nat, int) dict \<Rightarrow> nat \<Rightarrow> (string, nat \<times> int) dict" where
  "replica_targets replica_pairs network i =
     dict_update (map (\<lambda>(j, ip). (ip, j, 2 * dict_get_or (compute_pairwise_delays network) (min i j, max i j) 0))
       (other_ips replica_pairs i)) []"

definition client_targets :: "pairs \<Rightarrow> (string, nat \<times> int) dict" where
  "client_targets replica_pairs = dict_update (map (\<lambda>(j, ip). (ip, j, 0)) (enumerate 0 (map snd replica_pairs))) []"

definition rtt_jobs :: "pairs \<Rightarrow> pairs \<Rightarrow> (nat, int) dict \<Rightarrow> rtt_job list" where
  "rtt_jobs replica_pairs client_pairs network =
     map (\<lambda>(i, h). \<lparr>rj_label = ''replica'' @ show_nat i, rj_host = h, rj_targets = replica_targets replica_pairs network i\<rparr>)
       (enumerate 0 (map fst replica_pairs)) @
     map (\<lambda>h. \<lparr>rj_label = ''client@'' @ h, rj_host = h, rj_targets = client_targets replica_pairs\<rparr>) (sorted_hosts client_pairs)"

definition run_rtt_job :: "'r testbed \<Rightarrow> rtt_job \<Rightarrow> ('r harness, rtt_job \<times> (string, ping_stats) dict) M" where
  "run_rtt_job tb job =
     bindM (conn_run tb (rj_host job) (ping_command (dict_keys (rj_targets job)) ''5'' ''0.2'') True) (\<lambda>r.
     bindM (liftR (parse_ping (fst r))) (\<lambda>stats. retM (job, stats)))"

text \<open>
  \<open>pool.map\<close>: every job runs, in any order, and the first failure in the order of the jobs is raised when its
  result is fetched. The commands of the jobs do not depend on each other; the model runs them in order.
\<close>

definition attempt :: "('s, 'a) M \<Rightarrow> ('s, 'a res) M" where
  "attempt m = (\<lambda>s. case m s of (r, t) \<Rightarrow> (Inr r, t))"

definition pool_map :: "('a \<Rightarrow> ('s, 'b) M) \<Rightarrow> 'a list \<Rightarrow> ('s, 'b list) M" where
  "pool_map f xs = bindM (mapM (\<lambda>x. attempt (f x)) xs) (\<lambda>rs. liftR (mapR (\<lambda>r. r) rs))"

text \<open>An entry of the record; without statistics the measured fields are left out.\<close>

definition opt_json :: "('a \<Rightarrow> jval) \<Rightarrow> 'a option \<Rightarrow> jval" where
  "opt_json f v = (case v of None \<Rightarrow> JNull | Some x \<Rightarrow> f x)"

definition stats_members :: "ping_stats \<Rightarrow> (string, jval) dict" where
  "stats_members st =
     [(''sent'', opt_json JInt (pg_sent st)), (''received'', opt_json JInt (pg_received st)),
      (''loss_pct'', opt_json JFloat (pg_loss_pct st)), (''min'', opt_json JFloat (pg_min st)),
      (''avg'', opt_json JFloat (pg_avg st)), (''max'', opt_json JFloat (pg_max st)), (''mdev'', opt_json JFloat (pg_mdev st))]"

definition rtt_entry :: "string \<Rightarrow> (string, ping_stats) dict \<Rightarrow> string \<times> nat \<times> int \<Rightarrow> jval" where
  "rtt_entry label stats = (\<lambda>(ip, dst, expected).
     JObj ([(''src'', JStr label), (''dst'', JStr (''replica'' @ show_nat dst)), (''dst_ip'', JStr ip),
            (''expected_added_ms'', JInt expected)] @
       (case dict_get stats ip of None \<Rightarrow> [] | Some st \<Rightarrow> stats_members st)))"

definition probe_rtt :: "'r testbed \<Rightarrow> pairs \<Rightarrow> pairs \<Rightarrow> (nat, int) dict \<Rightarrow> ('r harness, jval) M" where
  "probe_rtt tb replica_pairs client_pairs network =
     bindM (pool_map (run_rtt_job tb) (rtt_jobs replica_pairs client_pairs network)) (\<lambda>results.
     retM (JObj
       [(''node_latencies'', JObj (map (\<lambda>(i, v). (lat_node_key i, JInt v)) (sort_key fst network))),
        (''pairs'', JList (concat (map (\<lambda>(job, stats). map (rtt_entry (rj_label job) stats) (rj_targets job)) results)))]))"

subsection \<open>What the probe expects\<close>

lemma other_ips_mem: "(j, ip) \<in> set (other_ips rps i) \<longleftrightarrow> j \<noteq> i \<and> j < length rps \<and> ip = snd (rps ! j)"
  by (auto simp: other_ips_def in_set_enumerate_eq)

lemma other_ips_ok:
  assumes "distinct (map snd rps)" "\<forall>ip \<in> set (map snd rps). token_ok ip"
  shows "peers_ok (other_ips rps i)" "i \<notin> set (dict_keys (other_ips rps i))"
proof -
  have "distinct (map fst (enumerate 0 (map snd rps)))" by simp
  then have "distinct (dict_keys (other_ips rps i))" unfolding other_ips_def by (rule distinct_map_filter)
  moreover have "distinct (map snd (other_ips rps i))"
    using assms(1) unfolding other_ips_def by (intro distinct_map_filter) simp
  moreover have "\<forall>ip \<in> set (map snd (other_ips rps i)). token_ok ip"
    using assms(2) by (auto simp: other_ips_mem)
  ultimately show "peers_ok (other_ips rps i)" by (simp add: peers_ok_def)
  show "i \<notin> set (dict_keys (other_ips rps i))" by (auto simp: other_ips_mem)
qed

lemma replica_targets_get:
  assumes "distinct (map snd rps)" "j < length rps" "j \<noteq> i" "distinct (dict_keys lats)"
  shows "dict_get (replica_targets rps lats i) (snd (rps ! j)) = Some (j, 2 * link_delay lats i j)"
proof -
  define f where "f = (\<lambda>(j, ip :: string). (ip, j, 2 * dict_get_or (compute_pairwise_delays lats) (min i j, max i j) 0))"
  have m: "(snd (rps ! j), j, 2 * link_delay lats i j) \<in> set (rev (map f (other_ips rps i)))"
    using assms(2,3) pairwise_link [OF assms(4), of i j]
    by (auto simp: f_def other_ips_mem image_iff intro!: bexI [of _ "(j, snd (rps ! j))"])
  have "k = j" if "k < length rps" "snd (rps ! k) = snd (rps ! j)" for k
    using assms(1,2) that nth_eq_iff_index_eq [of "map snd rps" k j] by simp
  then have u: "v = (j, 2 * link_delay lats i j)" if "(snd (rps ! j), v) \<in> set (rev (map f (other_ips rps i)))" for v
    using that assms(3) pairwise_link [OF assms(4), of i j] by (auto simp: f_def other_ips_mem)
  show ?thesis
    using map_of_functional [OF u m] by (simp add: replica_targets_def f_def dict_get_update)
qed



end
