(* ===== verification/Remote_Run.thy ===== *)
theory Remote_Run
  imports Remote_Testbed
begin

section \<open>One run of the benchmark (benchmark/benchmark/remote.py)\<close>

text \<open>
  The steps of a row once its parameters and hosts are known: generating and uploading the configuration,
  booting replicas and clients, waiting for them, stopping everything and fetching the logs.
\<close>

subsection \<open>Configuration\<close>

text \<open>\<open>with tempfile.TemporaryDirectory() as tmp\<close>: the directory is removed however the body ends, and a failure
  to remove it replaces the outcome.\<close>

definition then_drop :: "path \<Rightarrow> ('z fs_scheme, 'a) M \<Rightarrow> ('z fs_scheme, 'a) M" where
  "then_drop d m = (\<lambda>s. case m s of (r, t) \<Rightarrow> (case drop_tree d t of (Inl e, u) \<Rightarrow> (Inl e, u) | (Inr _, u) \<Rightarrow> (r, u)))"

definition with_temp_dir :: "'r testbed \<Rightarrow> (string \<Rightarrow> ('r harness, 'a) M) \<Rightarrow> ('r harness, 'a) M" where
  "with_temp_dir tb body =
     bindM (getM (\<lambda>s. tb_tmp tb (disk s))) (\<lambda>tmp.
     seqM (make_dir (file_path tmp)) (then_drop (file_path tmp) (body tmp)))"

definition GEN_CONF_FAILED :: string where
  "GEN_CONF_FAILED = ''gen_conf.py failed; check that hotstuff-keygen and hotstuff-tls-keygen exist in the repo root''"

definition generate_configs ::
  "'r testbed \<Rightarrow> protocol_params \<Rightarrow> string list \<Rightarrow> string \<Rightarrow> ('r harness, string \<times> string list) M" where
  "generate_configs tb protocol replica_ips tmp_dir =
     (let ips_file = path_join tmp_dir ''ips.txt'';
          cmd = gen_conf (tb_root tb) (gen_conf_kwargs protocol ips_file (Some conf_prefix));
          main_conf = path_join tmp_dir main_conf_file;
          sec_confs = map (\<lambda>i. path_join tmp_dir (replica_conf_file i)) [0..<length replica_ips] in
      seqM (write_node (file_path ips_file) (Text (ips_file_text replica_ips)))
     (seqM (say (print_info ''Generating configs locally via gen_conf.py...''))
     (bindM (at_disk (tb_shell tb cmd (Some tmp_dir))) (\<lambda>(status, err).
      if status \<noteq> 0 then raiseM (BenchError GEN_CONF_FAILED (ExecutionError err))
      else seqM (forM (main_conf # sec_confs) (\<lambda>p.
             bindM (getM (path_exists (file_path p))) (\<lambda>ex.
             if ex then retM ()
             else raiseM (BenchError (''gen_conf.py did not produce expected file: '' @ p) (FileNotFoundError p)))))
           (retM (main_conf, sec_confs))))))"

text \<open>The frames of the progress bar are printed between the elements.\<close>

fun for_progress :: "'a progress list \<Rightarrow> ('a \<Rightarrow> ('r harness, unit) M) \<Rightarrow> ('r harness, unit) M" where
  "for_progress [] f = retM ()"
| "for_progress (Frame t # r) f = seqM (say t) (for_progress r f)"
| "for_progress (Yield x # r) f = seqM (f x) (for_progress r f)"
| "for_progress (Newline # r) f = seqM (say []) (for_progress r f)"

text \<open>The fill character in UTF-8.\<close>

definition FULL_BLOCK :: string where
  "FULL_BLOCK = [CHR 0xE2, CHR 0x96, CHR 0x88]"

definition each_with_bar :: "string \<Rightarrow> 'a list \<Rightarrow> ('a \<Rightarrow> ('r harness, unit) M) \<Rightarrow> ('r harness, unit) M" where
  "each_with_bar prefix xs f = for_progress (progress_bar prefix [] 1 30 FULL_BLOCK xs) f"

definition upload :: "'r testbed \<Rightarrow> string \<Rightarrow> (string \<times> string) list \<Rightarrow> ('r harness, unit) M" where
  "upload tb ssh_host files =
     bindM (conn_run tb ssh_host (cleanup_command @ '' || true'') False) (\<lambda>_.
     forM files (\<lambda>(local, remote). conn_put tb ssh_host local remote))"

definition extras_only :: "pairs \<Rightarrow> pairs \<Rightarrow> string list" where
  "extras_only replica_pairs client_pairs = filter (\<lambda>h. h \<notin> set (map fst replica_pairs)) (sorted_hosts client_pairs)"

definition config_run :: "'r testbed \<Rightarrow> pairs \<Rightarrow> pairs \<Rightarrow> protocol_params \<Rightarrow> ('r harness, unit) M" where
  "config_run tb replica_pairs client_pairs protocol =
     with_retry tb (with_temp_dir tb (\<lambda>tmp.
       bindM (generate_configs tb protocol (map snd replica_pairs) tmp) (\<lambda>(main_conf, sec_confs).
       seqM (each_with_bar ''Uploading replica configs:'' (enumerate 0 replica_pairs) (\<lambda>(i, (ssh_host, ip)).
              upload tb ssh_host [(main_conf, main_conf_file), (sec_confs ! i, replica_conf_file i)]))
            (each_with_bar ''Uploading client configs:'' (extras_only replica_pairs client_pairs) (\<lambda>ssh_host.
              upload tb ssh_host [(main_conf, main_conf_file)])))))"

subsection \<open>Running\<close>

definition SAMPLER :: string where
  "SAMPLER = ''compute_sampler.py''"

definition INJECTOR :: string where
  "INJECTOR = ''fail_inject.sh''"

definition compute_jobs :: "pairs \<Rightarrow> pairs \<Rightarrow> (string \<times> string \<times> string) list" where
  "compute_jobs replica_pairs client_pairs =
     map (\<lambda>(i, h). (h, ''hotstuff-app'', compute_file ''replica'' i)) (enumerate 0 (map fst replica_pairs)) @
     map (\<lambda>(i, h). (h, ''hotstuff-client'', compute_file ''clienthost'' i)) (enumerate 0 (sorted_hosts client_pairs))"

text \<open>The uploads go through the set of hosts; the model takes them in the order of the jobs.\<close>

definition start_compute_samplers :: "'r testbed \<Rightarrow> pairs \<Rightarrow> pairs \<Rightarrow> bench_params \<Rightarrow> ('r harness, unit) M" where
  "start_compute_samplers tb replica_pairs client_pairs bench =
     (let jobs = compute_jobs replica_pairs client_pairs in
      seqM (forM (remdups (map fst jobs)) (\<lambda>h. conn_put tb h (path_join (tb_here tb) SAMPLER) SAMPLER))
           (forM jobs (\<lambda>(h, p, out). background_run tb h
              (''sudo -n python3 '' @ SAMPLER @ '' --proc '' @ p @ '' --seconds '' @ show_int (bp_duration bench + 20)) out)))"

definition boot_replicas :: "'r testbed \<Rightarrow> pairs \<Rightarrow> bench_params \<Rightarrow> protocol_params \<Rightarrow> ('r harness, unit) M" where
  "boot_replicas tb replica_pairs bench protocol =
     forM (enumerate 0 (map fst replica_pairs)) (\<lambda>(i, ssh_host).
       background_run tb ssh_host
         (run_replica (repo_name (tb_settings tb)) (replica_conf_file i) (Some (pp_max_rep_msg protocol)) (Some (pp_max_cli_msg protocol))
           (dict_get_or (bp_cpu_cores bench) i 0) (bp_imp_timeout bench))
         (replica_log_file i))"

text \<open>\<open>client_pairs[c % len(client_pairs)]\<close>; the remainder by 0 raises.\<close>

definition client_host :: "pairs \<Rightarrow> nat \<Rightarrow> string res" where
  "client_host client_pairs c =
     (if client_pairs = [] then Inl (ZeroDivisionError ''integer modulo by zero'')
      else Inr (fst (client_pairs ! (c mod length client_pairs))))"

definition boot_clients :: "'r testbed \<Rightarrow> pairs \<Rightarrow> bench_params \<Rightarrow> protocol_params \<Rightarrow> ('r harness, unit) M" where
  "boot_clients tb client_pairs bench protocol =
     forM [0..<nat (bp_num_clients bench)] (\<lambda>c.
       bindM (liftR (client_host client_pairs c)) (\<lambda>ssh_host.
       bindM (liftR (run_client (repo_name (tb_settings tb)) main_conf_file (int c) (bp_iter_count bench) (bp_max_async bench)
                (Some (pp_max_cli_msg protocol)) (bp_meas_warmup bench) (bp_meas_cooldown bench))) (\<lambda>cmd.
       background_run tb ssh_host cmd (client_log_file c))))"

definition inject_failure :: "'r testbed \<Rightarrow> pairs \<Rightarrow> bench_params \<Rightarrow> ('r harness, unit) M" where
  "inject_failure tb replica_pairs bench =
     (if bp_fail_node bench < 0 then retM ()
      else bindM (liftR (py_index replica_pairs (nat (bp_fail_node bench)))) (\<lambda>(h, ip).
        seqM (conn_put tb h (path_join (tb_here tb) INJECTOR) INJECTOR)
          (background_run tb h
             (''bash '' @ INJECTOR @ '' '' @ show_float (bp_fail_at bench) @ '' '' @ bp_fail_type bench)
             (failure_file (nat (bp_fail_node bench))))))"

text \<open>The polling loop; \<open>last_alive\<close> is the variable \<open>alive\<close>, not bound before the first poll.\<close>

function wait_clients :: "'r testbed \<Rightarrow> pairs \<Rightarrow> int \<Rightarrow> int \<Rightarrow> int \<Rightarrow> int option \<Rightarrow> ('r harness, unit) M" where
  "wait_clients tb client_pairs num_clients duration elapsed last_alive =
     (if elapsed < duration then
        bindM (count_alive_clients tb client_pairs num_clients) (\<lambda>alive.
        if alive = 0 then say (print_info (''  All clients exited naturally after ~'' @ show_int elapsed @ ''s.''))
        else seqM (pause tb 2) (wait_clients tb client_pairs num_clients duration (elapsed + 2) (Some alive)))
      else (case last_alive of
          None \<Rightarrow> raiseM (NameError ''cannot access local variable alive where it is not associated with a value'')
        | Some alive \<Rightarrow> say (print_info (''  Duration cap ('' @ show_int duration @ ''s) hit; '' @ show_int alive @
            '' client(s) still running, will be killed.''))))"
  by pat_completeness auto
termination by (relation "measure (\<lambda>(tb, cps, n, duration, elapsed, a). nat (duration - elapsed))") auto

declare wait_clients.simps [simp del]

definition run_body :: "'r testbed \<Rightarrow> pairs \<Rightarrow> pairs \<Rightarrow> row_params \<Rightarrow> ('r harness, unit) M" where
  "run_body tb replica_pairs client_pairs par =
     (let bench = rp_bench par; protocol = rp_protocol par; network = rp_network par;
          all_hosts = sorted_hosts (replica_pairs @ client_pairs) in
      seqM reset_pool
     (seqM (kill_all tb (Some all_hosts) True)
     (seqM (apply_netem tb replica_pairs network)
     (seqM (catchM
              (bindM (probe_rtt tb replica_pairs client_pairs network) (\<lambda>v. modifyM (\<lambda>s. s\<lparr>hn_rtt := v\<rparr>)))
              is_Exception
              (\<lambda>e. modifyM (\<lambda>s. s\<lparr>hn_rtt := JObj [(''error'', JStr (exn_name e @ '': '' @ exn_msg e))]\<rparr>)))
     (seqM (say (print_info ''Booting replicas...''))
     (seqM (boot_replicas tb replica_pairs bench protocol)
     (seqM (whenM (bp_sample_compute bench) (start_compute_samplers tb replica_pairs client_pairs bench))
     (seqM (pause tb 3)
     (seqM (say (print_info (''Booting '' @ show_int (bp_num_clients bench) @ '' client process(es)...'')))
     (seqM (boot_clients tb client_pairs bench protocol)
     (seqM (inject_failure tb replica_pairs bench)
     (seqM (say (print_info (''Waiting for '' @ show_int (bp_num_clients bench) @ '' client(s) to finish (cap '' @
              show_int (bp_duration bench) @ ''s, polling every 2s)...'')))
     (seqM (wait_clients tb client_pairs (bp_num_clients bench) (bp_duration bench) 0 None)
           (kill_all tb (Some all_hosts) False))))))))))))))"

definition run_single :: "'r testbed \<Rightarrow> pairs \<Rightarrow> pairs \<Rightarrow> row_params \<Rightarrow> ('r harness, unit) M" where
  "run_single tb replica_pairs client_pairs par = with_retry tb (run_body tb replica_pairs client_pairs par)"

subsection \<open>Fetching the logs\<close>

definition fetch :: "'r testbed \<Rightarrow> string \<Rightarrow> string \<Rightarrow> (exn \<Rightarrow> string) \<Rightarrow> ('r harness, unit) M" where
  "fetch tb ssh_host file warning =
     catchM (conn_get tb ssh_host file file) is_OSError (\<lambda>e. say (print_warn (warning e)))"

definition compute_files :: "pairs \<Rightarrow> pairs \<Rightarrow> (string \<times> string) list" where
  "compute_files replica_pairs client_pairs = map (\<lambda>(h, p, out). (h, out)) (compute_jobs replica_pairs client_pairs)"

definition download_body :: "'r testbed \<Rightarrow> pairs \<Rightarrow> pairs \<Rightarrow> bench_params \<Rightarrow> ('r harness, unit) M" where
  "download_body tb replica_pairs client_pairs bench =
     seqM (at_disk (tb_shell tb clean_logs_command None))
    (seqM (make_dirs (file_path logs_path))
    (seqM (each_with_bar ''Downloading replica logs:'' (enumerate 0 (map fst replica_pairs)) (\<lambda>(i, ssh_host).
             fetch tb ssh_host (replica_log_file i) (\<lambda>e. ''replica '' @ show_nat i @ '' log fetch failed: '' @ exn_msg e)))
    (seqM (each_with_bar ''Downloading client logs:'' [0..<nat (bp_num_clients bench)] (\<lambda>c.
             bindM (liftR (client_host client_pairs c)) (\<lambda>ssh_host.
             fetch tb ssh_host (client_log_file c) (\<lambda>e. ''client '' @ show_nat c @ '' log fetch failed: '' @ exn_msg e))))
    (seqM (if bp_fail_node bench < 0 then retM ()
           else bindM (liftR (py_index replica_pairs (nat (bp_fail_node bench)))) (\<lambda>(h, ip).
             let f = failure_file (nat (bp_fail_node bench)) in
             fetch tb h f (\<lambda>e. ''failure record fetch failed '' @ f @ '': '' @ exn_msg e)))
          (whenM (bp_sample_compute bench)
            (forM (compute_files replica_pairs client_pairs) (\<lambda>(h, f).
               fetch tb h f (\<lambda>e. ''compute sample fetch failed '' @ f @ '': '' @ exn_msg e))))))))"

definition download_logs :: "'r testbed \<Rightarrow> pairs \<Rightarrow> pairs \<Rightarrow> bench_params \<Rightarrow> ('r harness, unit) M" where
  "download_logs tb replica_pairs client_pairs bench = with_retry tb (download_body tb replica_pairs client_pairs bench)"

subsection \<open>A concrete testbed\<close>

text \<open>A testbed that is only a clock: every command takes half a second and one client never ends.\<close>

definition clock_testbed :: "rat testbed" where
  "clock_testbed = \<lparr>tb_manager = \<lparr>mg_manifest = \<lparr>mf_hosts = [''10.0.0.1''], mf_hostnames = [''a''], mf_multi_site = False\<rparr>,
       mg_settings = \<lparr>cloudlab_username = ''u'', base_port = 5000, repo_name = ''r'', repo_url = ''l'', branch = ''b''\<rparr>\<rparr>,
     tb_root = ''/r'', tb_here = ''/r/benchmark'',
     tb_run = (\<lambda>h c w r. (Inr (''1'', []), r + 1 / 2)), tb_group = (\<lambda>hs c r. (Inr (), r)),
     tb_put = (\<lambda>h n f r. (Inr (), r)), tb_get = (\<lambda>h f r. (Inr (Text []), r)),
     tb_shell = (\<lambda>c d s. (Inr (0, []), s)), tb_free = (\<lambda>p s. (Inr (10 ^ 12), s)), tb_tmp = (\<lambda>s. ''/tmp/t''),
     tb_sleep = (\<lambda>k r. r + of_nat k), tb_now = (\<lambda>r. r), tb_smtp = (\<lambda>h p m. Inr ()),
     tb_type_str = exn_name, tb_group_str = exn_msg\<rparr>"

definition idle_harness :: "'r \<Rightarrow> 'r harness" where
  "idle_harness r = \<lparr>fs_files = [], fs_faults = [], hn_remote = r, hn_pool = [], hn_iface = [], hn_rtt = JNull,
     hn_post = (\<lparr>nt_config = None, nt_throttle_seconds = JInt 0, nt_last_sent = [], nt_hostname = []\<rparr>, []),
     hn_out = [], hn_completed = 0, hn_failed = 0\<rparr>"

end
