(* ===== verification/Remote_Wait.thy ===== *)
theory Remote_Wait
  imports Remote_Run
begin

section \<open>How long a run waits for its clients (benchmark/benchmark/remote.py, _run_single)\<close>

text \<open>The polling loop under a clock: an upper bound on its time, and what is known when it returns.\<close>

text \<open>Commands and sleeps take no negative time and at most \<open>late\<close> more than asked.\<close>

definition host_time :: "'r testbed \<Rightarrow> 'r harness \<Rightarrow> rat" where
  "host_time tb s = tb_now tb (hn_remote s)"

definition timely :: "'r testbed \<Rightarrow> rat \<Rightarrow> bool" where
  "timely tb late \<longleftrightarrow>
     (\<forall>h c w r. tb_now tb r \<le> tb_now tb (snd (tb_run tb h c w r)) \<and> tb_now tb (snd (tb_run tb h c w r)) \<le> tb_now tb r + late) \<and>
     (\<forall>k r. tb_now tb r + of_nat k \<le> tb_now tb (tb_sleep tb k r) \<and> tb_now tb (tb_sleep tb k r) \<le> tb_now tb r + of_nat k + late)"

lemma timely_nonneg: "timely tb late \<Longrightarrow> 0 \<le> late"
proof -
  assume "timely tb late"
  then have "tb_now tb r + of_nat 0 \<le> tb_now tb r + of_nat 0 + late" for r unfolding timely_def using order_trans by blast
  then show ?thesis by simp
qed

text \<open>Time passes while \<open>m\<close> runs, at most \<open>d\<close>.\<close>

definition lasts :: "'r testbed \<Rightarrow> rat \<Rightarrow> ('r harness, 'a) M \<Rightarrow> bool" where
  "lasts tb d m \<longleftrightarrow> (\<forall>s. host_time tb s \<le> host_time tb (snd (m s)) \<and> host_time tb (snd (m s)) \<le> host_time tb s + d)"

lemma lasts_bind:
  assumes "lasts tb a m" "\<And>x. lasts tb b (f x)" "0 \<le> b"
  shows "lasts tb (a + b) (bindM m f)"
  unfolding lasts_def
proof
  fix s
  obtain r t where m: "m s = (r, t)" by fastforce
  have t: "host_time tb s \<le> host_time tb t" "host_time tb t \<le> host_time tb s + a"
    using assms(1) m unfolding lasts_def by (metis snd_conv)+
  show "host_time tb s \<le> host_time tb (snd (bindM m f s)) \<and> host_time tb (snd (bindM m f s)) \<le> host_time tb s + (a + b)"
  proof (cases r)
    case (Inl e)
    then show ?thesis using t assms(3) m by (simp add: bindM_Inl)
  next
    case (Inr x)
    have "host_time tb t \<le> host_time tb (snd (f x t)) \<and> host_time tb (snd (f x t)) \<le> host_time tb t + b"
      using assms(2) unfolding lasts_def by blast
    then show ?thesis using t Inr m by (simp add: bindM_Inr)
  qed
qed

lemma lasts_pure:
  "lasts tb 0 (retM x)" "lasts tb 0 (liftR r)" "lasts tb 0 (raiseM e)" "lasts tb 0 (say t)" "lasts tb 0 (conn h)"
  by (auto simp: lasts_def M_simps say_def conn_def host_time_def)

lemma lasts_run: "timely tb late \<Longrightarrow> lasts tb late (conn_run tb h c w)"
proof -
  assume t: "timely tb late"
  have "lasts tb late (at_remote (tb_run tb h c w))"
    using t by (auto simp: lasts_def at_remote_def host_time_def timely_def split: prod.splits) (metis snd_conv)+
  from lasts_bind [OF lasts_pure(5) _ timely_nonneg [OF t], of tb "\<lambda>_. at_remote (tb_run tb h c w)", OF this]
  show ?thesis by (simp add: conn_run_def seqM_def)
qed

lemma lasts_foldM:
  assumes "\<And>b x. lasts tb d (f b x)" "0 \<le> d"
  shows "lasts tb (of_nat (length xs) * d) (foldM f b xs)"
proof (induction xs arbitrary: b)
  case Nil
  show ?case by (simp add: lasts_pure)
next
  case (Cons x xs)
  have "lasts tb (d + of_nat (length xs) * d) (bindM (f b x) (\<lambda>b'. foldM f b' xs))"
    using assms Cons.IH by (intro lasts_bind) simp_all
  then show ?case by (simp add: algebra_simps)
qed

lemma lasts_catch:
  assumes "lasts tb d m" "\<And>e. lasts tb 0 (h e)"
  shows "lasts tb d (catchM m p h)"
  unfolding lasts_def
proof
  fix s
  obtain r t where m: "m s = (r, t)" by fastforce
  have t: "host_time tb s \<le> host_time tb t" "host_time tb t \<le> host_time tb s + d"
    using assms(1) m unfolding lasts_def by (metis snd_conv)+
  have "host_time tb (snd (h e t)) = host_time tb t" for e using assms(2) [of e] by (auto simp: lasts_def intro: antisym)
  then show "host_time tb s \<le> host_time tb (snd (catchM m p h s)) \<and> host_time tb (snd (catchM m p h s)) \<le> host_time tb s + d"
    using t m by (auto simp: catchM_def split: sum.splits)
qed

lemma lasts_count:
  assumes t: "timely tb late"
  shows "lasts tb (of_nat (length (sorted_hosts (slice_to n cps))) * late) (count_alive_clients tb cps n)"
proof -
  have *: "lasts tb (late + 0) (bindM (conn_run tb h c w) (\<lambda>(out, err). bindM (liftR (g out)) (\<lambda>n. retM (k n))))"
    for h c w and g :: "string \<Rightarrow> int res" and k :: "int \<Rightarrow> int"
  proof (rule lasts_bind [OF lasts_run [OF t]])
    have "lasts tb (0 + 0) (bindM (liftR (g out)) (\<lambda>n. retM (k n)))" for out
      by (rule lasts_bind) (simp_all add: lasts_pure)
    then show "lasts tb 0 ((\<lambda>(out, err). bindM (liftR (g out)) (\<lambda>n. retM (k n))) x)" for x by (cases x) simp
  qed simp
  show ?thesis
    unfolding count_alive_clients_def Let_def
    by (rule lasts_catch, rule lasts_foldM) (use * timely_nonneg [OF t] in \<open>simp_all add: lasts_pure\<close>)
qed

lemma count_alive_raises: "count_alive_clients tb cps n s = (Inl e, t) \<Longrightarrow> \<not> is_Exception e"
  by (auto simp: count_alive_clients_def catchM_def M_simps split: prod.splits sum.splits if_splits)

lemma pause_time: "timely tb late \<Longrightarrow> host_time tb s + of_nat k \<le> host_time tb (snd (pause tb k s))
    \<and> host_time tb (snd (pause tb k s)) \<le> host_time tb s + of_nat k + late"
  by (simp add: pause_def M_simps host_time_def timely_def)

lemma wait_step:
  "wait_clients tb cps n d e la s =
     (if e < d then
        (case count_alive_clients tb cps n s of
           (Inl x, t) \<Rightarrow> (Inl x, t)
         | (Inr a, t) \<Rightarrow>
             if a = 0 then say (print_info (''  All clients exited naturally after ~'' @ show_int e @ ''s.'')) t
             else wait_clients tb cps n d (e + 2) (Some a) (snd (pause tb 2 t)))
      else (case la of
          None \<Rightarrow> (Inl (NameError ''cannot access local variable alive where it is not associated with a value''), s)
        | Some a \<Rightarrow> say (print_info (''  Duration cap ('' @ show_int d @ ''s) hit; '' @ show_int a @
            '' client(s) still running, will be killed.'')) s))"
  by (subst wait_clients.simps)
    (auto simp: bindM_def seqM_def pause_def M_simps split: prod.splits sum.splits option.splits)

text \<open>The client processes were counted, none was left, and nothing happened on the hosts after that.\<close>

definition all_exited :: "'r testbed \<Rightarrow> pairs \<Rightarrow> int \<Rightarrow> 'r harness \<Rightarrow> bool" where
  "all_exited tb cps n t \<longleftrightarrow> (\<exists>u v. count_alive_clients tb cps n u = (Inr 0, v) \<and> hn_remote t = hn_remote v)"

definition polls :: "int \<Rightarrow> nat" where
  "polls d = nat ((d + 1) div 2)"

lemma wait_bounds:
  assumes t: "timely tb late" and start: "e < d \<or> la \<noteq> None"
    and C: "C = of_nat (length (sorted_hosts (slice_to n cps))) * late"
    and run: "wait_clients tb cps n d e la s = (r, t)"
  shows "host_time tb t \<le> host_time tb s + of_nat (polls (d - e)) * (2 + late + C)
    \<and> (case r of Inl x \<Rightarrow> \<not> is_Exception x | Inr _ \<Rightarrow> all_exited tb cps n t \<or> host_time tb s + of_int (d - e) \<le> host_time tb t)"
  using start run
proof (induction "nat (d - e)" arbitrary: e la s rule: less_induct)
  case less
  have late: "0 \<le> late" "0 \<le> C" using timely_nonneg [OF t] by (simp_all add: C)
  show ?case
  proof (cases "e < d")
    case False
    then obtain a where a: "la = Some a" using less.prems(1) by auto
    have "(r, t) = say (print_info (''  Duration cap ('' @ show_int d @ ''s) hit; '' @ show_int a @
            '' client(s) still running, will be killed.'')) s"
      using less.prems(2) False a by (simp add: wait_step [of tb cps n d e])
    then have "r = Inr ()" "host_time tb t = host_time tb s" by (simp_all add: say_def M_simps host_time_def)
    moreover have "(of_int (d - e) :: rat) \<le> 0" using False by (simp only: of_int_le_0_iff)
    moreover have "0 \<le> of_nat (polls (d - e)) * (2 + late + C)" using late by simp
    ultimately show ?thesis by simp
  next
    case True
    obtain c u where cu: "count_alive_clients tb cps n s = (c, u)" by fastforce
    have tu: "host_time tb s \<le> host_time tb u" "host_time tb u \<le> host_time tb s + C"
      using lasts_count [OF t, of n cps] cu unfolding lasts_def C by (metis snd_conv)+
    have p: "polls (d - e) = Suc (polls (d - (e + 2)))" using True by (simp add: polls_def)
    have grow: "host_time tb s + C \<le> host_time tb s + of_nat (polls (d - e)) * (2 + late + C)"
      using late by (simp add: p algebra_simps)
    show ?thesis
    proof (cases c)
      case (Inl x)
      then show ?thesis using less.prems(2) True cu tu grow count_alive_raises [of tb cps n s]
        by (auto simp: wait_step [of tb cps n d e])
    next
      case (Inr a)
      show ?thesis
      proof (cases "a = 0")
        case z: True
        then have "(r, t) = say (print_info (''  All clients exited naturally after ~'' @ show_int e @ ''s.'')) u"
          using less.prems(2) True cu Inr by (simp add: wait_step [of tb cps n d e])
        then have "r = Inr ()" "host_time tb t = host_time tb u" "hn_remote t = hn_remote u"
          by (simp_all add: say_def M_simps host_time_def)
        then show ?thesis using tu grow cu Inr z unfolding all_exited_def by auto
      next
        case nz: False
        define v where "v = snd (pause tb 2 u)"
        have tv: "host_time tb u + 2 \<le> host_time tb v" "host_time tb v \<le> host_time tb u + 2 + late"
          using pause_time [OF t, of u 2] by (simp_all add: v_def)
        have "wait_clients tb cps n d (e + 2) (Some a) v = (r, t)"
          using less.prems(2) True cu Inr nz by (simp add: wait_step [of tb cps n d e] v_def)
        from less.hyps [OF _ _ this] True
        have IH: "host_time tb t \<le> host_time tb v + of_nat (polls (d - (e + 2))) * (2 + late + C)"
          "case r of Inl x \<Rightarrow> \<not> is_Exception x | Inr _ \<Rightarrow> all_exited tb cps n t \<or> host_time tb v + of_int (d - (e + 2)) \<le> host_time tb t"
          by auto
        have "host_time tb t \<le> host_time tb s + of_nat (polls (d - e)) * (2 + late + C)"
          using IH(1) tv tu by (simp add: p algebra_simps)
        then show ?thesis using IH(2) tv tu by (auto split: sum.splits)
      qed
    qed
  qed
qed



end
