(* ===== verification/Remote_Sweep.thy ===== *)
theory Remote_Sweep
  imports Remote_Run
begin

section \<open>The sweep over the rows of a CSV (benchmark/benchmark/remote.py, run_from_csv)\<close>

text \<open>
  \<open>run_from_csv\<close>: the parameters of a row, its hosts, disk space, configuration, run, archive and output row, the
  two handlers of a row, resuming, the interruption by the user and the final reconciliation.
\<close>

definition MIN_FREE_BYTES :: nat where
  "MIN_FREE_BYTES = 5 * 1024 ^ 3"

text \<open>\<open>except (subprocess.SubprocessError, GroupException, SSHException, OSError, EOFError)\<close>.\<close>

fun is_run_failure :: "exn \<Rightarrow> bool" where
  "is_run_failure (SubprocessError _) = True"
| "is_run_failure (GroupException _) = True"
| "is_run_failure (SSHException _) = True"
| "is_run_failure (OSError _) = True"
| "is_run_failure (FileNotFoundError _) = True"
| "is_run_failure (EOFError _) = True"
| "is_run_failure _ = False"

fun is_ConfigError :: "exn \<Rightarrow> bool" where
  "is_ConfigError (ConfigError _) = True"
| "is_ConfigError _ = False"

fun is_KeyboardInterrupt :: "exn \<Rightarrow> bool" where
  "is_KeyboardInterrupt KeyboardInterrupt = True"
| "is_KeyboardInterrupt _ = False"

text \<open>What the loop works on.\<close>

record sweep =
  sw_input :: string
  sw_output :: string
  sw_fieldnames :: "string list"
  sw_rows :: "row list"
  sw_done :: "string list"

definition put_row :: "sweep \<Rightarrow> row \<Rightarrow> string \<Rightarrow> ('r harness, unit) M" where
  "put_row sw r status = write_row (file_path (sw_output sw)) (sw_fieldnames sw) r status"

definition counts_text :: "sweep \<Rightarrow> 'r harness \<Rightarrow> string" where
  "counts_text sw s = show_nat (hn_completed s) @ '' OK, '' @ show_nat (hn_failed s) @ '' failed out of '' @ show_nat (length (sw_rows sw)) @ ''.''"

text \<open>Configuring a row: whether the run can go on.\<close>

definition configure_row ::
  "'r testbed \<Rightarrow> sweep \<Rightarrow> row \<Rightarrow> string \<Rightarrow> row_params \<Rightarrow> pairs \<Rightarrow> pairs \<Rightarrow> ('r harness, bool) M" where
  "configure_row tb sw r run_id par replica_pairs client_pairs =
     catchM (seqM (config_run tb replica_pairs client_pairs (rp_protocol par)) (retM True))
       is_run_failure
       (\<lambda>exc. let e = group_error tb exc in
          seqM (say_error tb (BenchError (''CONFIG_ERROR for '' @ run_id) e))
         (seqM (put_row sw r (''CONFIG_ERROR: '' @ exn_msg e))
         (seqM (notify_all_of tb (''Run '' @ run_id @ '' CONFIG_ERROR'') (exn_name e @ '': '' @ exn_msg e) (Some ''run_failure''))
               (retM False))))"

text \<open>The archive of a run, complete before it is marked.\<close>

definition publish_run :: "path \<Rightarrow> string \<Rightarrow> ('r harness, unit) M" where
  "publish_run run_log_dir run_id =
     seqM (archive_logs run_log_dir)
    (seqM (bindM (getM hn_rtt) (\<lambda>v. write_node (run_log_dir @ [RTT_FILE]) (Json v)))
          (mark_log_dir_ready run_log_dir run_id))"

definition milestone :: "'r testbed \<Rightarrow> sweep \<Rightarrow> ('r harness, unit) M" where
  "milestone tb sw =
     bindM (getM hn_completed) (\<lambda>n.
     whenM (n \<noteq> 0 \<and> n mod 50 = 0)
       (notify_all_of tb (''Milestone: '' @ show_nat n @ '' runs downloaded'')
          (show_nat n @ ''/'' @ show_nat (length (sw_rows sw)) @ '' so far.'') (Some (''milestone_'' @ show_nat n))))"

definition perform_run ::
  "'r testbed \<Rightarrow> sweep \<Rightarrow> row \<Rightarrow> string \<Rightarrow> row_params \<Rightarrow> pairs \<Rightarrow> pairs \<Rightarrow> path \<Rightarrow> ('r harness, unit) M" where
  "perform_run tb sw r run_id par replica_pairs client_pairs run_log_dir =
     seqM (modifyM (\<lambda>s. s\<lparr>hn_rtt := JNull\<rparr>))
    (seqM (run_single tb replica_pairs client_pairs par)
    (seqM (download_logs tb replica_pairs client_pairs (rp_bench par))
    (seqM (publish_run run_log_dir run_id)
    (seqM (put_row sw r ''DOWNLOADED'')
    (seqM (modifyM (\<lambda>s. s\<lparr>hn_completed := hn_completed s + 1\<rparr>))
    (seqM (say (print_info (''Run '' @ run_id @ '': logs downloaded, queued for parse'')))
          (milestone tb sw)))))))"

definition record_failure ::
  "'r testbed \<Rightarrow> sweep \<Rightarrow> row \<Rightarrow> string \<Rightarrow> pairs \<Rightarrow> pairs \<Rightarrow> path \<Rightarrow> exn \<Rightarrow> ('r harness, unit) M" where
  "record_failure tb sw r run_id replica_pairs client_pairs run_log_dir exc =
     (let e = group_error tb exc in
      seqM (catchM (kill_all tb (Some (sorted_hosts (replica_pairs @ client_pairs))) False) is_Exception
              (\<lambda>k. say_error tb (BenchError (''kill() during cleanup of '' @ run_id @ '' also failed'') k)))
     (seqM (say_error tb (BenchError (''Run '' @ run_id @ '' failed'') e))
     (seqM (modifyM (\<lambda>s. s\<lparr>hn_failed := hn_failed s + 1\<rparr>))
     (seqM (catchM (archive_logs run_log_dir) is_OSError
              (\<lambda>a. say_error tb (BenchError (''Archiving logs for failed '' @ run_id @ '' also failed'') a)))
     (seqM (put_row sw r (''RUN_ERROR: '' @ exn_msg e))
       (bindM (getM (counts_text sw)) (\<lambda>c.
        notify_all_of tb (''Run '' @ run_id @ '' failed ('' @ exn_name e @ '')'') (c @ NL @ exn_msg e)
          (Some (''run_failure_'' @ exn_name e)))))))))"

definition disk_full_msg :: "nat \<Rightarrow> string" where
  "disk_full_msg free =
     ''only '' @ fmt_fixed 1 (of_nat free / 1024 ^ 3) @ ''GB free, need '' @ fmt_fixed 0 (of_nat MIN_FREE_BYTES / 1024 ^ 3) @
     ''GB; run the parser (it prunes raw client logs after parsing) or clear results/run_logs''"

text \<open>How the body of the loop ends: with the next row, or out of the loop.\<close>

datatype row_end = NextRow | Halt

definition run_row :: "'r testbed \<Rightarrow> sweep \<Rightarrow> row \<Rightarrow> string \<Rightarrow> row_params \<Rightarrow> ('r harness, row_end) M" where
  "run_row tb sw r run_id par =
     bindM (select_hosts tb (rp_bench par)) (\<lambda>(replica_pairs, client_pairs).
     if replica_pairs = [] then seqM (put_row sw r ''NOT_ENOUGH_NODES'') (retM NextRow)
     else
       bindM (getM (path_isdir (file_path run_logs_path))) (\<lambda>isdir.
       bindM (at_disk (tb_free tb (if isdir then run_logs_path else ''.''))) (\<lambda>free.
       if free < MIN_FREE_BYTES then
         seqM (say_error tb (BenchError (''DISK_FULL before '' @ run_id) (PlainException (disk_full_msg free))))
        (seqM (put_row sw r (''DISK_FULL: '' @ disk_full_msg free))
        (seqM (notify_all_of tb ''Sweep halted: disk space'' (disk_full_msg free) (Some ''disk_full'')) (retM Halt)))
       else
         let run_log_dir = file_path (path_join run_logs_path run_id) in
         bindM (configure_row tb sw r run_id par replica_pairs client_pairs) (\<lambda>ok.
         if \<not> ok then retM NextRow
         else seqM
           (catchM (perform_run tb sw r run_id par replica_pairs client_pairs run_log_dir) is_run_failure
              (record_failure tb sw r run_id replica_pairs client_pairs run_log_dir))
           (retM NextRow)))))"

definition sweep_row :: "'r testbed \<Rightarrow> sweep \<Rightarrow> nat \<times> row \<Rightarrow> ('r harness, row_end) M" where
  "sweep_row tb sw = (\<lambda>(idx, r).
     let run_id = run_id_of idx r in
     if run_id \<in> set (sw_done sw) then
       seqM (say (print_info (''Skipping '' @ run_id @ '' (already completed)''))) (retM NextRow)
     else
       seqM (say (print_heading (NL @ ''Row '' @ show_nat (idx + 1) @ ''/'' @ show_nat (length (sw_rows sw)) @ '' (run_id='' @ run_id @ '')'')))
       (case parse_row r of
          Inr par \<Rightarrow> run_row tb sw r run_id par
        | Inl e \<Rightarrow>
            if is_ConfigError e then
              seqM (say_error tb (BenchError (''PARAM_ERROR for '' @ run_id) e))
             (seqM (put_row sw r (''PARAM_ERROR: '' @ exn_msg e)) (retM NextRow))
            else raiseM e))"

fun sweep_rows :: "'r testbed \<Rightarrow> sweep \<Rightarrow> (nat \<times> row) list \<Rightarrow> ('r harness, unit) M" where
  "sweep_rows tb sw [] = retM ()"
| "sweep_rows tb sw (x # xs) =
     bindM (sweep_row tb sw x) (\<lambda>ended. case ended of Halt \<Rightarrow> retM () | NextRow \<Rightarrow> sweep_rows tb sw xs)"

subsection \<open>The whole sweep\<close>

definition reconcile_output :: "string \<Rightarrow> ('r harness, unit) M" where
  "reconcile_output csv_path =
     bindM (reconcile_csv (file_path csv_path) (file_path run_logs_path)) (\<lambda>n.
     whenM (n \<noteq> 0) (say (print_info (''Reconciler: upgraded '' @ show_nat n @ '' row(s) in '' @ csv_path))))"

definition reconcile_or_warn :: "string \<Rightarrow> string \<Rightarrow> ('r harness, unit) M" where
  "reconcile_or_warn warning csv_path =
     catchM (reconcile_output csv_path) is_Exception (\<lambda>e. say (print_warn (warning @ exn_msg e)))"

definition EM_DASH :: string where
  "EM_DASH = [CHR 0xE2, CHR 0x80, CHR 0x94]"

definition initial_update :: "'r testbed \<Rightarrow> bool \<Rightarrow> bool \<Rightarrow> ('r harness, unit) M" where
  "initial_update tb proto_log skip_update =
     catchM
       (if skip_update then say (print_warn ''Skipping update: running the binaries already built on each host'')
        else update_all tb proto_log)
       (\<lambda>e. is_transient e \<or> is_ExecutionError e)
       (\<lambda>exc. let e = group_error tb exc in
          seqM (notify_all_of tb (''Initial _update failed '' @ EM_DASH @ '' experiment cannot start'')
                 (''Initial compile/update step failed before any runs could execute.'' @ NL @ ''Error: '' @ exn_name e @ '': '' @ exn_msg e)
                 (Some ''startup_failure''))
            (raiseM (BenchError ''Failed to update nodes'' e)))"

definition find_completed :: "string \<Rightarrow> ('r harness, string list) M" where
  "find_completed output_file =
     bindM (getM (path_exists (file_path output_file))) (\<lambda>ex.
     if \<not> ex then retM []
     else seqM (reconcile_or_warn ''Reconciler at startup failed: '' output_file)
       (bindM (read_text (file_path output_file)) (\<lambda>t.
        let ids = completed_ids (snd (dict_reader t)) in
        seqM (whenM (ids \<noteq> []) (say (print_info (''Resuming: skipping '' @ show_nat (card (set ids)) @ '' already-completed run(s).''))))
          (retM ids))))"

definition progress_text :: "sweep \<Rightarrow> 'r harness \<Rightarrow> string" where
  "progress_text sw s = ''Progress: '' @ counts_text sw s @ NL @ ''Resume by re-running with the same output file: '' @ sw_output sw"

definition run_from_csv :: "'r testbed \<Rightarrow> string \<Rightarrow> string \<Rightarrow> bool \<Rightarrow> bool \<Rightarrow> ('r harness, unit) M" where
  "run_from_csv tb input_file output_file proto_log skip_update =
     seqM (say (print_heading (''Starting CSV-driven CloudLab benchmark: '' @ input_file)))
    (bindM (read_text (file_path input_file)) (\<lambda>t.
     let (input_columns, rows) = dict_reader t in
     if rows = [] then say (print_warn ''Input CSV is empty'')
     else
       bindM (liftR (catchR (bindR (row_to_bench (hd rows)) BenchParameters) is_ConfigError
                (\<lambda>e. Inl (BenchError ''First row has invalid bench params'' e)))) (\<lambda>first_bench.
       seqM (initial_update tb proto_log skip_update)
      (bindM (find_completed output_file) (\<lambda>done_ids.
       let sw = \<lparr>sw_input = input_file, sw_output = output_file, sw_fieldnames = out_fieldnames input_columns,
                 sw_rows = rows, sw_done = done_ids\<rparr> in
       seqM (modifyM (\<lambda>s. s\<lparr>hn_completed := 0, hn_failed := 0\<rparr>))
      (seqM (notify_all_of tb (''Experiment started: '' @ show_nat (length rows) @ '' rows in CSV'')
               (''Input: '' @ input_file @ NL @ ''Output: '' @ output_file @ NL @ ''Rows: '' @ show_nat (length rows) @ NL @
                ''Already completed: '' @ show_nat (card (set done_ids)) @ NL) None)
      (seqM (catchM (sweep_rows tb sw (enumerate 0 rows)) is_KeyboardInterrupt
               (\<lambda>e. bindM (getM (progress_text sw)) (\<lambda>p.
                  seqM (notify_all_of tb ''Experiment INTERRUPTED (Ctrl-C)'' p None) (raiseM e))))
      (seqM (reconcile_or_warn ''Final reconcile failed: '' output_file)
      (seqM (say (print_heading (NL @ ''All experiments done. Results: '' @ output_file)))
        (bindM (getM (\<lambda>s. (hn_completed s, hn_failed s))) (\<lambda>(ok, bad).
         notify_all_of tb (''Experiment complete: '' @ show_nat ok @ '' OK, '' @ show_nat bad @ '' failed'')
           (''Total rows: '' @ show_nat (length rows) @ NL @ ''Completed this session: '' @ show_nat ok @ NL @
            ''Failed: '' @ show_nat bad @ NL @ ''Output: '' @ output_file @ NL) None)))))))))))"

end
