(* ===== verification/Remote_Archive.thy ===== *)
theory Remote_Archive
  imports Remote_Sweep Parser_Publish
begin

section \<open>The archive of a run (benchmark/benchmark/remote.py)\<close>

text \<open>
  The harness copies the logs of a run, adds the round-trip record and \<open>meta.json\<close>, and creates \<open>READY\<close> last. The parser
  daemon takes a directory with \<open>READY\<close> for complete; this holds whatever file operation fails on the way.
\<close>

lemma seqM_cases:
  assumes "seqM m n s = (r, t)"
  obtains e where "m s = (Inl e, t)" "r = Inl e" | x u where "m s = (Inr x, u)" "n u = (r, t)"
  using assms by (cases "m s"; cases "fst (m s)") (auto simp: seqM_Inl seqM_Inr)

lemma bindM_cases:
  assumes "bindM m f s = (r, t)"
  obtains e where "m s = (Inl e, t)" "r = Inl e" | x u where "m s = (Inr x, u)" "f x u = (r, t)"
  using assms by (cases "m s"; cases "fst (m s)") (auto simp: bindM_Inl bindM_Inr)

definition copied :: "path \<Rightarrow> path \<Rightarrow> path \<Rightarrow> path" where
  "copied src dst p = dst @ drop (length src) p"

lemma copy_one_cases:
  assumes "copy_one src dst (p, n) s = (r, t)"
  shows "only (\<lambda>q. q = copied src dst p) s t" "r = Inr () \<Longrightarrow> node_at (copied src dst p) t = Some n"
proof -
  obtain f u where fu: "next_fault s = (Inr f, u)" by (cases "fs_faults s") (auto simp: next_fault_def)
  then have f: "next_fault s = (Inr f, u)" "node_at q u = node_at q s" for q
    by (auto simp: next_fault_def split: list.splits)
  show "only (\<lambda>q. q = copied src dst p) s t" "r = Inr () \<Longrightarrow> node_at (copied src dst p) t = Some n"
    using assms f by (auto simp: copy_one_def bindM_Inr [where m = next_fault, OF f(1)] only_def copied_def Let_def split: fault.splits if_splits)
qed

lemma forM_copy:
  fixes s :: "'z fs_scheme"
  assumes "forM es (copy_one src dst) s = (r, t)" "distinct (map (copied src dst \<circ> fst) es)"
  shows "only (\<lambda>q. q \<in> copied src dst ` fst ` set es) s t"
    and "r = Inr () \<Longrightarrow> (p, n) \<in> set es \<Longrightarrow> node_at (copied src dst p) t = Some n"
  using assms
proof (induction es arbitrary: s)
  case Nil
  { case 1 then show ?case by (simp add: only_def M_simps) }
  { case 2 then show ?case by simp }
next
  case (Cons x es)
  obtain p' n' where x: "x = (p', n')" by fastforce
  have run: "seqM (copy_one src dst (p', n')) (forM es (copy_one src dst)) s = (r, t)" if "forM (x # es) (copy_one src dst) s = (r, t)" for s :: "'z fs_scheme"
    using that x by simp
  { case 1
    from run [OF 1(1)] show ?case
    proof (cases rule: seqM_cases)
      case (1 e)
      then show ?thesis using copy_one_cases(1) x by (fastforce simp: only_def)
    next
      case (2 y u)
      have "only (\<lambda>q. q \<in> copied src dst ` fst ` set es) u t" using Cons.IH(1) [OF 2(2)] 1(2) x by simp
      then show ?thesis using copy_one_cases(1) [OF 2(1)] x by (auto simp: only_def)
    qed }
  { case 2
    from run [OF 2(3)] show ?case
    proof (cases rule: seqM_cases)
      case (1 e)
      then show ?thesis using 2(1) by simp
    next
      case (2 y u)
      have d: "distinct (map (copied src dst \<circ> fst) es)" using \<open>distinct (map (copied src dst \<circ> fst) (x # es))\<close> by simp
      show ?thesis
      proof (cases "(p, n) \<in> set es")
        case True
        then show ?thesis using Cons.IH(2) [OF \<open>r = Inr ()\<close> _ 2(2) d] by blast
      next
        case False
        then have x': "x = (p, n)" using \<open>(p, n) \<in> set (x # es)\<close> by auto
        then have "copied src dst p \<notin> copied src dst ` fst ` set es"
          using \<open>distinct (map (copied src dst \<circ> fst) (x # es))\<close> by (auto simp: image_comp)
        then have "node_at (copied src dst p) t = node_at (copied src dst p) u"
          using Cons.IH(1) [OF 2(2) d] by (simp add: only_def)
        then show ?thesis using copy_one_cases(2) [of src dst p n s "Inr ()" u] 2(1) x x' by auto
      qed
    qed }
qed

subsection \<open>Predicates an operation keeps\<close>

interpretation pres: preorder_rel "\<lambda>s t. P s \<longrightarrow> P t" for P
  by unfold_locales auto

definition stays :: "('s \<Rightarrow> bool) \<Rightarrow> ('s, 'a) M \<Rightarrow> bool" where
  "stays P m \<longleftrightarrow> (\<forall>s. P s \<longrightarrow> P (snd (m s)))"

lemma stays_keeps: "stays P m \<longleftrightarrow> keeps (\<lambda>s t. P s \<longrightarrow> P t) m"
  by (simp add: stays_def keeps_def)

lemmas stays_rules = pres.keeps_rules [folded stays_keeps] pres.keeps_if [folded stays_keeps]

lemmas stays_ret = pres.keeps_ret [folded stays_keeps]
  and stays_seq = pres.keeps_seq [folded stays_keeps]
  and stays_when = pres.keeps_when [folded stays_keeps]
  and stays_forM = pres.keeps_forM [folded stays_keeps]

lemma stays_modify: "(\<And>s. P s \<Longrightarrow> P (f s)) \<Longrightarrow> stays P (modifyM f)"
  by (simp add: stays_def M_simps)

lemma staysD: "stays P m \<Longrightarrow> m s = (r, t) \<Longrightarrow> P s \<Longrightarrow> P t"
  by (metis stays_def snd_conv)

definition uniq :: "'z fs_scheme \<Rightarrow> bool" where
  "uniq s \<longleftrightarrow> distinct (dict_keys (fs_files s))"

lemma uniq_node: "uniq s \<Longrightarrow> (p, n) \<in> set (fs_files s) \<longleftrightarrow> node_at p s = Some n"
  by (simp add: uniq_def node_at_def)

lemma uniq_put: "uniq s \<Longrightarrow> uniq (put_node p n s)" and uniq_drop: "uniq s \<Longrightarrow> uniq (drop_node p s)"
  by (simp_all add: uniq_def put_node_def drop_node_def distinct_update distinct_delete)

lemma pres_fault_then:
  assumes "\<And>s r. P s \<Longrightarrow> P (s\<lparr>fs_faults := r\<rparr>)" "\<And>f s. P s \<Longrightarrow> P (snd (g f s))"
  shows "keeps (\<lambda>s t. P s \<longrightarrow> P t) (bindM next_fault g)"
proof (rule pres.keeps_bind)
  show "keeps (\<lambda>s t. P s \<longrightarrow> P t) next_fault" using assms(1) by (auto simp: keeps_def next_fault_def split: list.splits)
  show "keeps (\<lambda>s t. P s \<longrightarrow> P t) (g f)" for f using assms(2) by (simp add: keeps_def)
qed

lemma uniq_faults [simp]: "uniq (s\<lparr>fs_faults := r\<rparr>) = uniq s"
  by (simp add: uniq_def)

lemma make_dir_keeps_node: "keeps (\<lambda>s t. node_at p s = Some n \<longrightarrow> node_at p t = Some n) (make_dir d)"
  unfolding make_dir_def by (rule pres_fault_then) (auto split: option.splits node.splits)

lemma make_dirs_keeps_node: "keeps (\<lambda>s t. node_at p s = Some n \<longrightarrow> node_at p t = Some n) (make_dirs d)"
  unfolding make_dirs_def by (rule pres.keeps_forM) (rule make_dir_keeps_node)

lemma uniq_drop_tree: "keeps (\<lambda>s t. uniq s \<longrightarrow> uniq t) (drop_tree d)"
  unfolding drop_tree_def
  by (intro pres.keeps_bind pres.keeps_get pres.keeps_forM pres_fault_then) (auto simp: uniq_drop split: if_splits)

lemma drop_tree_none: "keeps (\<lambda>s t. node_at p s = None \<longrightarrow> node_at p t = None) (drop_tree d)"
  unfolding drop_tree_def
  by (intro pres.keeps_bind pres.keeps_get pres.keeps_forM pres_fault_then) (auto split: if_splits)

lemma frame_drop_one:
  "below d p \<Longrightarrow> keeps (only (below d)) (bindM next_fault (\<lambda>f s. if f \<noteq> NoFault then (Inl io_error, s) else (Inr (), drop_node p s)))"
  by (intro keeps_fault_then) (auto simp: only_refl intro: only_drop)

lemma frame_drop_tree [frame_intros]: "keeps (only (below d)) (drop_tree d :: ('z fs_scheme, unit) M)"
proof -
  have *: "keeps (only (below d)) (forM ps
      (\<lambda>p. bindM next_fault (\<lambda>f s. if f \<noteq> NoFault then (Inl io_error, s) else (Inr (), drop_node p s))) :: ('z fs_scheme, unit) M)"
    if "\<forall>p \<in> set ps. below d p" for ps
    using that by (intro frame.keeps_forM frame_drop_one) simp
  show ?thesis
    unfolding keeps_def drop_tree_def bindM_getM
  proof
    fix s :: "'z fs_scheme"
    have "\<forall>p \<in> set (filter (below d) (dict_keys (fs_files s))). below d p" by simp
    from * [OF this] show "only (below d) s (snd (forM (filter (below d) (dict_keys (fs_files s)))
      (\<lambda>p. bindM next_fault (\<lambda>f s. if f \<noteq> NoFault then (Inl io_error, s) else (Inr (), drop_node p s))) s))"
      unfolding keeps_def by blast
  qed
qed

lemma prefixes_from_mem: "q \<in> set (prefixes_from p ds) \<Longrightarrow> length p < length q \<and> length q \<le> length p + length ds \<and> below q (p @ ds)"
proof (induction p ds rule: prefixes_from.induct)
  case (2 p c cs)
  then show ?case by (auto simp: below_def)
qed simp

lemma frame_make_dirs: "keeps (only (\<lambda>q. q \<noteq> [] \<and> below q d)) (make_dirs d)"
  unfolding make_dirs_def
proof (rule frame.keeps_forM)
  fix q assume "q \<in> set (prefixes_from [] d)"
  from prefixes_from_mem [OF this] show "keeps (only (\<lambda>q. q \<noteq> [] \<and> below q d)) (make_dir q)"
    by (intro frame_make_dir) auto
qed

subsection \<open>The copy of the logs\<close>

lemma keeps_to: "keeps I m \<Longrightarrow> m s = (r, t) \<Longrightarrow> I s t"
  by (metis keeps_def snd_conv)

lemma copied_below [simp]: "copied src dst (src @ q) = dst @ q"
  by (simp add: copied_def)

lemma belowE: "below d p \<Longrightarrow> \<exists>q. p = d @ q"
  by (metis append_take_drop_id below_def)

lemma below_iff: "below d p \<longleftrightarrow> (\<exists>q. p = d @ q)"
  by (metis belowE below_member)

lemma below_append: "below d (p @ q) \<Longrightarrow> below d p \<or> below p d"
  unfolding below_iff by (metis append_eq_append_conv2)

lemma copy_tree_spec:
  assumes run: "copy_tree src dst s = (r, t)" and u: "uniq s" and apart: "\<not> below src dst"  "\<not> below dst src"
  shows "only (\<lambda>p. (p \<noteq> [] \<and> below p dst) \<or> (\<exists>q n. p = dst @ q \<and> node_at (src @ q) s = Some n)) s t"
    and "r = Inr () \<Longrightarrow> node_at (src @ q) s = Some n \<Longrightarrow> node_at (dst @ q) t = Some n"
proof -
  define es where "es = filter (\<lambda>(p, n). below src p) (fs_files s)"
  have es: "(p, n) \<in> set es \<longleftrightarrow> below src p \<and> node_at p s = Some n" for p n
    unfolding es_def using uniq_node [OF u] by auto
  have shape: "\<exists>q. p = src @ q" if "p \<in> fst ` set es" for p using that belowE by (auto simp: es_def)
  have "distinct (map fst es)" using u unfolding es_def uniq_def by (rule distinct_map_filter)
  moreover have "inj_on (copied src dst) (fst ` set es)"
    by (rule inj_onI) (auto dest!: shape simp: copied_def)
  ultimately have d: "distinct (map (copied src dst \<circ> fst) es)"
    by (simp add: distinct_map comp_inj_on)
  have run': "seqM (make_dirs dst) (forM es (copy_one src dst)) s = (r, t)"
    using run by (simp add: copy_tree_def es_def)
  have img: "\<exists>q n. p = dst @ q \<and> node_at (src @ q) s = Some n" if p: "p \<in> copied src dst ` fst ` set es" for p
  proof -
    obtain x where x: "x \<in> set es" "p = copied src dst (fst x)" using p by blast
    obtain a n where "x = (a, n)" by fastforce
    with x have an: "(a, n) \<in> set es" "p = copied src dst a" by simp_all
    obtain q where "a = src @ q" using shape an(1) by force
    then show ?thesis using an es by auto
  qed
  show "only (\<lambda>p. (p \<noteq> [] \<and> below p dst) \<or> (\<exists>q n. p = dst @ q \<and> node_at (src @ q) s = Some n)) s t"
    using run'
  proof (cases rule: seqM_cases)
    case (1 e)
    then show ?thesis using keeps_to [OF frame_make_dirs 1(1)] by (auto simp: only_def)
  next
    case (2 x v)
    then show ?thesis using keeps_to [OF frame_make_dirs 2(1)] forM_copy(1) [OF 2(2) d] img unfolding only_def by metis
  qed
  show "node_at (dst @ q) t = Some n" if "r = Inr ()" "node_at (src @ q) s = Some n"
    using run'
  proof (cases rule: seqM_cases)
    case (1 e)
    then show ?thesis using that(1) by simp
  next
    case (2 x v)
    have "(src @ q, n) \<in> set es" using that(2) by (simp add: es below_def)
    from forM_copy(2) [OF 2(2) d that(1) this] show ?thesis by simp
  qed
qed

text \<open>Where the logs of a run are, and a directory for its archive.\<close>

abbreviation LOGS :: path where
  "LOGS \<equiv> file_path logs_path"

lemma LOGS_eq: "LOGS = [''logs'']"
  by code_simp

definition archive_place :: "path \<Rightarrow> 'z fs_scheme \<Rightarrow> bool" where
  "archive_place d s \<longleftrightarrow> uniq s \<and> path_isdir LOGS s \<and> LOGS \<noteq> [] \<and> \<not> below LOGS d \<and> \<not> below d LOGS
     \<and> node_at (d @ [READY_MARKER]) s = None
     \<and> (\<forall>m \<in> {READY_MARKER, META_FILE, RTT_FILE}. node_at (LOGS @ [m]) s = None)"

lemma archive_spec:
  assumes place: "archive_place d s" and run: "archive_logs d s = (r, t)"
  shows "node_at (d @ [READY_MARKER]) t = None"
    and "r = Inr () \<Longrightarrow> node_at (LOGS @ q) s = Some n \<Longrightarrow> node_at (d @ q) t = Some n"
proof -
  let ?R = "d @ [READY_MARKER]"
  have L: "path_isdir LOGS s" "uniq s" "\<not> below LOGS d" "\<not> below d LOGS" "node_at ?R s = None" "node_at (LOGS @ [READY_MARKER]) s = None"
    using place by (simp_all add: archive_place_def)
  have notR: "\<not> below ?R d" by (simp add: below_def)
  have run': "seqM (if path_exists d s then drop_tree d else retM ()) (copy_tree LOGS d) s = (r, t)"
    using run L(1) unfolding archive_logs_def bindM_getM by simp
  have after_drop: "uniq v \<and> node_at ?R v = None \<and> (\<forall>q. node_at (LOGS @ q) v = node_at (LOGS @ q) s)"
    if "(if path_exists d s then drop_tree d else retM ()) s = (x, v)" for x v
  proof (cases "path_exists d s")
    case True
    then have dr: "drop_tree d s = (x, v)" using that by simp
    have "\<not> below d (LOGS @ q)" for q
    proof
      assume "below d (LOGS @ q)"
      then have "below d LOGS \<or> below LOGS d" by (rule below_append)
      with L show False by blast
    qed
    then show ?thesis
      using keeps_to [OF uniq_drop_tree dr] keeps_to [OF drop_tree_none dr] keeps_to [OF frame_drop_tree dr] L by (auto simp: only_def)
  next
    case False
    then show ?thesis using that L by (simp add: M_simps)
  qed
  have copied: "node_at ?R t = None \<and> (r = Inr () \<longrightarrow> (\<forall>q n. node_at (LOGS @ q) v = Some n \<longrightarrow> node_at (d @ q) t = Some n))"
    if v: "copy_tree LOGS d v = (r, t)" "uniq v" "node_at ?R v = None" "node_at (LOGS @ [READY_MARKER]) v = None" for v
  proof -
    note cp = copy_tree_spec [OF v(1,2) L(3,4)]
    have "node_at ?R t = node_at ?R v" using cp(1) notR v(4) unfolding only_def by auto
    then show ?thesis using cp(2) v(3) by auto
  qed
  show "node_at ?R t = None" using run'
  proof (cases rule: seqM_cases)
    case (1 e)
    then show ?thesis using after_drop by blast
  next
    case (2 x v)
    then show ?thesis using after_drop [OF 2(1)] copied [OF 2(2)] L(6) by simp
  qed
  show "node_at (d @ q) t = Some n" if "r = Inr ()" "node_at (LOGS @ q) s = Some n"
    using run'
  proof (cases rule: seqM_cases)
    case (1 e)
    then show ?thesis using that(1) by simp
  next
    case (2 x v)
    then show ?thesis using after_drop [OF 2(1)] copied [OF 2(2)] L(6) that by simp
  qed
qed

subsection \<open>READY comes last\<close>

lemma write_nodeD:
  assumes "write_node p n s = (r, t)"
  shows "only (\<lambda>q. q = p) s t" "r = Inr () \<Longrightarrow> node_at p t = Some n"
proof -
  show "only (\<lambda>q. q = p) s t" by (rule keeps_to [OF frame_write assms]) simp
  show "node_at p t = Some n" if "r = Inr ()"
    using assms that by (auto simp: write_node_def next_fault_def bindM_def split: list.splits fault.splits if_splits)
qed

text \<open>A predicate that does not look at the files survives every file operation.\<close>

definition blind :: "('z fs_scheme \<Rightarrow> bool) \<Rightarrow> bool" where
  "blind P \<longleftrightarrow> (\<forall>s p n. P s \<longrightarrow> P (put_node p n s) \<and> P (drop_node p s)) \<and> (\<forall>s r. P s \<longrightarrow> P (s\<lparr>fs_faults := r\<rparr>))"

lemma blind_then:
  assumes "blind P" "\<And>f s. P s \<Longrightarrow> P (snd (g f s))"
  shows "stays P (bindM next_fault g)"
  unfolding stays_keeps using assms by (intro pres_fault_then) (auto simp: blind_def)

lemma blind_files:
  assumes "blind P"
  shows "stays P (write_node p n)" "stays P (append_text p t)" "stays P (read_node p)" "stays P (remove_file p)"
    "stays P (replace_file p q)" "stays P (make_dir p)" "stays P (copy_one p q (a, n))"
  using assms unfolding write_node_def append_text_def read_node_def remove_file_def replace_file_def make_dir_def copy_one_def prod.case
  by (intro blind_then; auto simp: blind_def Let_def split: option.splits node.splits fault.splits if_splits)+

lemma blind_drop_tree: "blind P \<Longrightarrow> stays P (drop_tree d)"
  unfolding drop_tree_def
  by (intro stays_rules blind_then) (auto simp: blind_def split: if_splits)

lemma blind_trees:
  assumes "blind P"
  shows "stays P (make_dirs p)" "stays P (copy_tree p q)" "stays P (archive_logs p)"
proof -
  show *: "stays P (make_dirs p)" for p
    unfolding make_dirs_def by (intro stays_forM blind_files [OF assms])
  show "stays P (copy_tree p q)" for p q
    unfolding copy_tree_def using blind_files(7) [OF assms] by (auto intro!: stays_rules *)
  then show "stays P (archive_logs p)"
    unfolding archive_logs_def by (intro stays_rules blind_drop_tree [OF assms])
qed

lemma blind_lock: "blind P \<Longrightarrow> stays P m \<Longrightarrow> stays P (csv_lock p m)"
  unfolding csv_lock_def by (intro stays_seq blind_files)

lemma blind_csv:
  assumes "blind P"
  shows "stays P (append_row p fieldnames r)" "stays P (read_text p)" "stays P (load_json p)" "stays P (reconcile_csv p d)"
proof -
  note files = blind_files [OF assms]
  note lock = blind_lock [OF assms]
  show "stays P (append_row p fieldnames r)"
    unfolding append_row_def Let_def by (auto intro!: lock stays_rules files split: sum.split)
  show rt: "stays P (read_text p)" for p
    unfolding read_text_def by (intro stays_rules files)
  show rj: "stays P (load_json p)" for p
    unfolding load_json_def by (auto intro!: stays_rules files split: node.split)
  have entry: "stays P (reconcile_entry fn d ids x e)" for fn d ids x e
    unfolding reconcile_entry_def Let_def
    by (auto intro!: stays_rules rt rj split: prod.split option.split jval.split)
  show "stays P (reconcile_csv p d)"
    unfolding reconcile_csv_def Let_def sorted_listdir_def write_rows_def
    by (auto intro!: stays_rules lock rt entry files split: prod.split sum.split)
qed

lemma archive_rtt: "stays (\<lambda>s. hn_rtt s = v) (archive_logs d)"
  by (rule blind_trees) (simp add: blind_def put_node_def drop_node_def)

text \<open>An archive that is complete: the record, the identification and every file of the run.\<close>

definition archive_complete :: "path \<Rightarrow> string \<Rightarrow> jval \<Rightarrow> 'z fs_scheme \<Rightarrow> 'z fs_scheme \<Rightarrow> bool" where
  "archive_complete d run_id rtt s t \<longleftrightarrow>
     node_at (d @ [RTT_FILE]) t = Some (Json rtt)
     \<and> node_at (d @ [META_FILE]) t = Some (Json (JObj [(''run_id'', JStr run_id)]))
     \<and> (\<forall>q n. q \<noteq> [] \<longrightarrow> node_at (LOGS @ q) s = Some n \<longrightarrow> node_at (d @ q) t = Some n)"

text \<open>READY is written last: where it exists \<open>meta.json\<close> has the id, and every other file of the directory is as before.\<close>

lemma mark_ready_spec:
  assumes R0: "node_at (d @ [READY_MARKER]) b = None" and run: "mark_log_dir_ready d rid b = (r, t)"
  shows "(r = Inr () \<longrightarrow> node_at (d @ [READY_MARKER]) t = Some (Text []))
    \<and> (node_at (d @ [READY_MARKER]) t \<noteq> None \<longrightarrow>
        node_at (d @ [META_FILE]) t = Some (Json (JObj [(''run_id'', JStr rid)]))
        \<and> (\<forall>q n. q \<notin> {[META_FILE], [READY_MARKER]} \<longrightarrow> node_at (d @ q) b = Some n \<longrightarrow> node_at (d @ q) t = Some n))"
proof -
  let ?R = "d @ [READY_MARKER]" and ?M = "d @ [META_FILE]"
  have ne: "[READY_MARKER] \<noteq> [META_FILE]" by (simp add: READY_MARKER_def META_FILE_def)
  have R: "\<not> below ?R d" by (simp add: below_def)
  from run [unfolded mark_log_dir_ready_def, folded META_FILE_def READY_MARKER_def] show ?thesis
  proof (cases rule: seqM_cases)
    case (1 e)
    then show ?thesis using keeps_to [OF frame_make_dirs 1(1)] R0 R unfolding only_def by (metis Inl_not_Inr)
  next
    case (2 y c)
    have c: "node_at ?R c = None" using keeps_to [OF frame_make_dirs 2(1)] R0 R unfolding only_def by metis
    have old: "node_at (d @ q) c = Some n" if "node_at (d @ q) b = Some n" for q n
      using keeps_to [OF make_dirs_keeps_node 2(1)] that by blast
    from 2(2) show ?thesis
    proof (cases rule: seqM_cases)
      case (1 e)
      then show ?thesis using write_nodeD(1) [OF 1(1)] c ne unfolding only_def by (metis Inl_not_Inr same_append_eq)
    next
      case (2 z u)
      note m = write_nodeD [OF 2(1)] and rd = write_nodeD [OF 2(2)]
      have "node_at ?M t = Some (Json (JObj [(''run_id'', JStr rid)]))"
        using m rd(1) ne unfolding only_def by (metis old.unit.exhaust same_append_eq)
      moreover have "node_at (d @ q) t = Some n" if "q \<notin> {[META_FILE], [READY_MARKER]}" "node_at (d @ q) b = Some n" for q n
        using m(1) rd(1) old [OF that(2)] that(1) unfolding only_def by (metis insertCI same_append_eq)
      ultimately show ?thesis using rd(2) by blast
    qed
  qed
qed


definition logged_harness :: "fault list \<Rightarrow> nat harness" where
  "logged_harness faults = (idle_harness 0)\<lparr>fs_files := [([''logs''], Dir), ([''logs'', ''replica-0.log''], Text ''booted'')],
     fs_faults := faults, hn_rtt := JInt 7\<rparr>"


text \<open>Without the assumption on the old directory this fails: when an archive is replaced and the removal of the old one stops
  half way, the old READY can outlive its files.\<close>

definition replaced_archive :: fs where
  "replaced_archive = \<lparr>fs_files =
     [([''logs''], Dir), ([''logs'', ''client-0.log''], Text ''new''),
      ([''results'', ''run_logs'', ''A'', ''client-0.log''], Text ''old''), ([''results'', ''run_logs'', ''A'', ''READY''], Text []),
      ([''results'', ''run_logs'', ''A''], Dir)],
     fs_faults = [NoFault, FailOpen]\<rparr>"

lemma stale_ready:
  "fst (archive_logs [''results'', ''run_logs'', ''A''] replaced_archive) = Inl io_error
   \<and> node_at [''results'', ''run_logs'', ''A'', ''READY''] (snd (archive_logs [''results'', ''run_logs'', ''A''] replaced_archive)) = Some (Text [])
   \<and> node_at [''results'', ''run_logs'', ''A'', ''client-0.log''] (snd (archive_logs [''results'', ''run_logs'', ''A''] replaced_archive)) = None"
  by code_simp

end
