(* ===== verification/Remote_Keeps.thy ===== *)
theory Remote_Keeps
  imports Remote_Archive
begin

section \<open>Predicates a run keeps (benchmark/benchmark/remote.py)\<close>

text \<open>
  A predicate of the harness that survives the elementary steps (printing, commands on the hosts, new connections,
  files below \<open>logs\<close> and in the temporary directory) survives configuring, running and fetching a run. The locale
  states the elementary steps; it is used for the connection pool and for the output file.
\<close>

subsection \<open>Paths\<close>

lemma file_path_slash: "file_path (a @ CHR ''/'' # b) = (if a = [] then [''/''] else file_path a) @ filter (\<lambda>c. c \<noteq> [] \<and> c \<noteq> ''.'') (py_split (CHR ''/'') b)"
  using split_by_sep [of "\<lambda>x. x = CHR ''/''" "CHR ''/''" a b]
  by (auto simp: file_path_def py_split_def starts_with_def take_Cons' neq_Nil_conv)

lemma file_path_join: "\<not> starts_with ''/'' x \<Longrightarrow> below (file_path d) (file_path (path_join d x))"
proof -
  assume x: "\<not> starts_with ''/'' x"
  consider "d = []" | "d \<noteq> []" "last d = CHR ''/''" | "d \<noteq> []" "last d \<noteq> CHR ''/''" by blast
  then show ?thesis
  proof cases
    case 1
    then show ?thesis using x by (simp add: path_join_def file_path_def below_def starts_with_def py_split_def)
  next
    case 2
    then obtain d' where d: "d = d' @ ''/''" by (metis append_butlast_last_id)
    have "file_path d = (if d' = [] then [''/''] else file_path d')" using file_path_slash [of d' "[]"] by (simp add: d py_split_def)
    then show ?thesis using x 2 file_path_slash [of d' x] by (simp add: path_join_def below_iff d)
  next
    case 3
    then show ?thesis using x file_path_slash [of d x] by (simp add: path_join_def below_iff)
  qed
qed

lemma starts_with_Cons [simp]: "starts_with (a # x) (b # y) \<longleftrightarrow> a = b \<and> starts_with x y" "starts_with [] y" "\<not> starts_with (a # x) []"
  by (auto simp: starts_with_def)

lemma log_files_below:
  "below LOGS (file_path (replica_log_file i))" "below LOGS (file_path (client_log_file c))"
  "below LOGS (file_path (failure_file i))" "below LOGS (file_path (compute_file role k))"
  unfolding replica_log_file_def client_log_file_def failure_file_def compute_file_def
  by (rule file_path_join, simp)+

lemma tmp_files_below:
  "below (file_path d) (file_path (path_join d ''ips.txt''))"
  by (rule file_path_join) simp

subsection \<open>The locale\<close>

locale keeps_run =
  fixes P :: "'r harness \<Rightarrow> bool" and tb :: "'r testbed" and H :: "string set"
  assumes print: "P s \<Longrightarrow> P (s\<lparr>hn_out := x\<rparr>)"
    and remote: "P s \<Longrightarrow> P (s\<lparr>hn_remote := w\<rparr>)"
    and post: "P s \<Longrightarrow> P (s\<lparr>hn_post := q\<rparr>)"
    and ifaces: "P s \<Longrightarrow> P (s\<lparr>hn_iface := i\<rparr>)"
    and rtt: "P s \<Longrightarrow> P (s\<lparr>hn_rtt := v\<rparr>)"
    and fresh_pool: "P s \<Longrightarrow> P (s\<lparr>hn_pool := []\<rparr>)"
    and connect: "h \<in> H \<Longrightarrow> stays P (conn h)"
    and shell: "stays P (at_disk (tb_shell tb c d))"
    and reading: "stays P (read_node p)"
    and log_write: "below LOGS p \<Longrightarrow> stays P (write_node p n)"
    and log_dir: "stays P (make_dirs LOGS)"
    and tmp_dir: "stays P (make_dir (file_path (tb_tmp tb st)))"
    and tmp_write: "below (file_path (tb_tmp tb st)) p \<Longrightarrow> stays P (write_node p n)"
    and tmp_drop: "stays P (drop_tree (file_path (tb_tmp tb st)))"
begin

lemma stays_say: "stays P (say t)"
  unfolding say_def by (rule stays_modify) (rule print)

lemma stays_remote: "stays P (at_remote m)"
  by (auto simp: stays_def at_remote_def intro: remote split: prod.splits)

lemma stays_pause: "stays P (pause tb n)"
  unfolding pause_def by (rule stays_modify) (rule remote)

lemma stays_notify: "stays P (notify_all_of tb subject body key)"
  by (auto simp: stays_def notify_all_of_def intro: post split: prod.splits sum.splits)

lemma stays_say_error: "stays P (say_error tb e)"
  unfolding say_error_def by (intro stays_rules stays_say)

lemma stays_reset: "stays P reset_pool"
  unfolding reset_pool_def by (rule stays_modify) (rule fresh_pool)

lemma stays_retry: "stays P m \<Longrightarrow> stays P (retry_loop n bs None (pause tb) m as le)"
proof (induction as arbitrary: le)
  case Nil
  then show ?case by (auto intro: stays_rules split: option.splits)
next
  case (Cons a as)
  then show ?case by (auto simp: run_callback_def intro!: stays_rules stays_pause)
qed

lemma stays_with_retry: "stays P m \<Longrightarrow> stays P (with_retry tb m)"
  unfolding with_retry_def by (rule stays_retry)

lemma stays_run: "h \<in> H \<Longrightarrow> stays P (conn_run tb h c w)"
  unfolding conn_run_def by (intro stays_rules connect stays_remote)

lemma stays_put: "h \<in> H \<Longrightarrow> stays P (conn_put tb h src dst)"
  unfolding conn_put_def by (intro stays_rules connect stays_remote reading)

lemma stays_get: "h \<in> H \<Longrightarrow> below LOGS (file_path dst) \<Longrightarrow> stays P (conn_get tb h src dst)"
  unfolding conn_get_def by (intro stays_rules connect stays_remote log_write)

lemma stays_group: "set hs \<subseteq> H \<Longrightarrow> stays P (group_run tb hs c)"
  unfolding group_run_def by (intro stays_rules connect stays_remote) auto

lemma stays_background: "h \<in> H \<Longrightarrow> stays P (background_run tb h c f)"
  unfolding background_run_def check_stderr_def by (intro stays_rules stays_run)

lemma sorted_hosts_set [simp]: "set (sorted_hosts ps) = fst ` set ps"
  by (simp add: sorted_hosts_def)

lemma stays_count:
  assumes "fst ` set cps \<subseteq> H"
  shows "stays P (count_alive_clients tb cps n)"
proof -
  have "h \<in> H" if "h \<in> set (sorted_hosts (slice_to n cps))" for h
    using that assms set_take_subset [of "slice_pos cps n" cps] by (auto simp: slice_to_def)
  then show ?thesis
    unfolding count_alive_clients_def by (auto intro!: stays_rules stays_run simp: Let_def split: prod.splits)
qed

lemma stays_kill: "set hs \<subseteq> H \<Longrightarrow> stays P (kill_all tb (Some hs) b)"
  unfolding kill_all_def option.case by (intro stays_with_retry stays_group)

lemma stays_fold_run: "h \<in> H \<Longrightarrow> (\<And>x. stays P (k x)) \<Longrightarrow> stays P (bindM (conn_run tb h c w) k)"
  by (intro stays_rules stays_run)

lemma stays_iface: "h \<in> H \<Longrightarrow> stays P (iface_for tb h ip)"
  unfolding iface_for_def
  by (auto intro!: stays_rules stays_run stays_modify ifaces split: option.split)

lemma enumerate_host: "(i, h) \<in> set (enumerate 0 (map fst rps)) \<Longrightarrow> fst ` set rps \<subseteq> H \<Longrightarrow> h \<in> H"
  by (auto simp: in_set_enumerate_eq)

lemma stays_clear:
  assumes "fst ` set rps \<subseteq> H"
  shows "stays P (clear_netem_pairs tb rps)"
  unfolding clear_netem_pairs_def
  by (auto intro!: stays_rules stays_run stays_iface stays_say enumerate_host [OF _ assms] split: option.split)

lemma stays_netem:
  assumes "fst ` set rps \<subseteq> H"
  shows "stays P (apply_netem tb rps network)"
  unfolding apply_netem_def Let_def
  by (auto intro!: stays_rules stays_clear stays_run stays_iface enumerate_host [OF _ assms] assms split: list.split prod.split)

lemma stays_attempt: "stays P m \<Longrightarrow> stays P (attempt m)"
  by (auto simp: stays_def attempt_def split: prod.splits)

lemma rtt_job_host: "job \<in> set (rtt_jobs rps cps network) \<Longrightarrow> fst ` set rps \<subseteq> H \<Longrightarrow> fst ` set cps \<subseteq> H \<Longrightarrow> rj_host job \<in> H"
  by (auto simp: rtt_jobs_def dest: enumerate_host)

lemma stays_probe:
  assumes "fst ` set rps \<subseteq> H" "fst ` set cps \<subseteq> H"
  shows "stays P (probe_rtt tb rps cps network)"
  unfolding probe_rtt_def pool_map_def run_rtt_job_def
  by (intro stays_rules stays_attempt stays_run rtt_job_host [OF _ assms])

lemma stays_progress: "(\<And>x. x \<in> set xs \<Longrightarrow> stays P (f x)) \<Longrightarrow> stays P (each_with_bar prefix xs f)"
proof -
  assume f: "\<And>x. x \<in> set xs \<Longrightarrow> stays P (f x)"
  have "stays P (for_progress es f)" if "set (yielded es) \<subseteq> set xs" for es
    using that by (induction es rule: yielded.induct) (auto intro!: stays_rules stays_say f split: progress.splits elim!: yielded.elims)
  then show ?thesis unfolding each_with_bar_def by (simp add: progress_bar_yields)
qed

lemma stays_then_drop:
  assumes "stays P m" "stays P (drop_tree d)"
  shows "stays P (then_drop d m)"
  unfolding stays_def
proof (intro allI impI)
  fix s assume "P s"
  then have "P (snd (drop_tree d (snd (m s))))" using assms by (simp add: stays_def)
  then show "P (snd (then_drop d m s))" by (auto simp: then_drop_def split: prod.splits sum.splits)
qed

lemma stays_get_bind: "(\<And>s. stays P (f (g s))) \<Longrightarrow> stays P (bindM (getM g) f)"
  by (simp add: stays_def)

lemma stays_temp_dir: "(\<And>st. stays P (body (tb_tmp tb st))) \<Longrightarrow> stays P (with_temp_dir tb body)"
  unfolding with_temp_dir_def by (intro stays_get_bind stays_seq stays_then_drop tmp_dir tmp_drop)

lemma stays_generate: "stays P (generate_configs tb protocol ips (tb_tmp tb st))"
  unfolding generate_configs_def Let_def
  by (auto intro!: stays_rules tmp_write [of st] tmp_files_below stays_say shell split: prod.split)

lemma stays_upload: "h \<in> H \<Longrightarrow> stays P (upload tb h files)"
  unfolding upload_def by (auto intro!: stays_rules stays_run stays_put)

lemma in_enumerate: "(i, x) \<in> set (enumerate 0 xs) \<Longrightarrow> x \<in> set xs"
  by (auto simp: in_set_enumerate_eq)

lemma stays_config:
  assumes "fst ` set rps \<subseteq> H" "fst ` set cps \<subseteq> H"
  shows "stays P (config_run tb rps cps protocol)"
  unfolding config_run_def
proof (intro stays_with_retry stays_temp_dir stays_rules stays_generate)
  show "stays P (case x of (main_conf, sec_confs) \<Rightarrow>
      seqM (each_with_bar ''Uploading replica configs:'' (enumerate 0 rps) (\<lambda>(i, (ssh_host, ip)).
              upload tb ssh_host [(main_conf, main_conf_file), (sec_confs ! i, replica_conf_file i)]))
           (each_with_bar ''Uploading client configs:'' (extras_only rps cps) (\<lambda>ssh_host.
              upload tb ssh_host [(main_conf, main_conf_file)])))" for x
    using assms
    by (auto intro!: stays_rules stays_progress stays_upload simp: extras_only_def split: prod.split dest!: in_enumerate)
qed

lemma compute_job_host: "(h, p, out) \<in> set (compute_jobs rps cps) \<Longrightarrow> fst ` set rps \<subseteq> H \<Longrightarrow> fst ` set cps \<subseteq> H \<Longrightarrow> h \<in> H \<and> below LOGS (file_path out)"
proof -
  assume "(h, p, out) \<in> set (compute_jobs rps cps)" "fst ` set rps \<subseteq> H" "fst ` set cps \<subseteq> H"
  moreover have "h \<in> set (sorted_hosts cps)" if "(i, h) \<in> set (enumerate 0 (sorted_hosts cps))" for i
    using that by (metis enumerate_eq_zip set_zip_rightD)
  ultimately show ?thesis by (auto simp: compute_jobs_def log_files_below dest: enumerate_host)
qed

lemma stays_samplers:
  assumes "fst ` set rps \<subseteq> H" "fst ` set cps \<subseteq> H"
  shows "stays P (start_compute_samplers tb rps cps bench)"
proof -
  have "h \<in> H" if "(h, p, out) \<in> set (compute_jobs rps cps)" for h p out using compute_job_host [OF that assms] by simp
  then show ?thesis
    unfolding start_compute_samplers_def Let_def by (auto intro!: stays_rules stays_put stays_background)
qed

lemma stays_boot:
  assumes "fst ` set rps \<subseteq> H"
  shows "stays P (boot_replicas tb rps bench protocol)"
  unfolding boot_replicas_def by (auto intro!: stays_rules stays_background enumerate_host [OF _ assms])

lemma client_host_in: "client_host cps c = Inr h \<Longrightarrow> h \<in> fst ` set cps"
  by (auto simp: client_host_def split: if_splits)

lemma stays_lift: "(\<And>x. r = Inr x \<Longrightarrow> stays P (f x)) \<Longrightarrow> stays P (bindM (liftR r) f)"
  by (cases r) (auto simp: stays_def bindM_def M_simps)

lemma stays_clients:
  assumes "fst ` set cps \<subseteq> H"
  shows "stays P (boot_clients tb cps bench protocol)"
  unfolding boot_clients_def using assms
  by (auto intro!: stays_forM stays_lift stays_background dest!: client_host_in)

lemma py_index_mem: "py_index xs i = Inr x \<Longrightarrow> x \<in> set xs"
  by (auto simp: py_index_def split: if_splits)

lemma stays_inject:
  assumes "fst ` set rps \<subseteq> H"
  shows "stays P (inject_failure tb rps bench)"
  unfolding inject_failure_def using assms
  by (auto intro!: stays_ret stays_seq stays_lift stays_background stays_put dest!: py_index_mem split: prod.split)

lemma stays_wait:
  assumes "fst ` set cps \<subseteq> H"
  shows "stays P (wait_clients tb cps n d e la)"
proof (induction "nat (d - e)" arbitrary: e la rule: less_induct)
  case less
  have "stays P (wait_clients tb cps n d (e + 2) (Some a))" if "e < d" for a using that by (intro less) simp
  then show ?case
    using assms by (subst wait_clients.simps) (auto intro!: stays_rules stays_count stays_say stays_pause split: option.split)
qed

lemma stays_record_rtt: "stays P (modifyM (\<lambda>s. s\<lparr>hn_rtt := v\<rparr>))"
  by (rule stays_modify) (rule rtt)

lemma stays_run_body:
  assumes "fst ` set rps \<subseteq> H" "fst ` set cps \<subseteq> H"
  shows "stays P (run_body tb rps cps par)"
  unfolding run_body_def Let_def
  using assms
  by (intro stays_rules stays_reset stays_kill stays_netem stays_probe stays_record_rtt stays_say stays_boot stays_samplers
      stays_pause stays_clients stays_inject stays_wait) auto

lemma stays_run_single:
  assumes "fst ` set rps \<subseteq> H" "fst ` set cps \<subseteq> H"
  shows "stays P (run_single tb rps cps par)"
  unfolding run_single_def by (rule stays_with_retry) (rule stays_run_body [OF assms])

lemma stays_fetch: "h \<in> H \<Longrightarrow> below LOGS (file_path f) \<Longrightarrow> stays P (fetch tb h f w)"
  unfolding fetch_def by (intro stays_rules stays_get stays_say)

lemma stays_download:
  assumes "fst ` set rps \<subseteq> H" "fst ` set cps \<subseteq> H"
  shows "stays P (download_logs tb rps cps bench)"
proof -
  have files: "h \<in> H \<and> below LOGS (file_path f)" if "(h, f) \<in> set (compute_files rps cps)" for h f
    using that compute_job_host [OF _ assms] by (auto simp: compute_files_def)
  have "stays P (if bp_fail_node bench < 0 then retM ()
      else bindM (liftR (py_index rps (nat (bp_fail_node bench)))) (\<lambda>(h, ip).
        let f = failure_file (nat (bp_fail_node bench)) in
        fetch tb h f (\<lambda>e. ''failure record fetch failed '' @ f @ '': '' @ exn_msg e)))"
    using assms by (auto intro!: stays_ret stays_lift stays_fetch log_files_below simp: Let_def dest!: py_index_mem split: prod.split)
  moreover have "stays P (each_with_bar ''Downloading replica logs:'' (enumerate 0 (map fst rps)) (\<lambda>(i, ssh_host).
      fetch tb ssh_host (replica_log_file i) (\<lambda>e. ''replica '' @ show_nat i @ '' log fetch failed: '' @ exn_msg e)))"
    by (auto intro!: stays_progress stays_fetch log_files_below enumerate_host [OF _ assms(1)])
  moreover have "stays P (each_with_bar ''Downloading client logs:'' [0..<nat (bp_num_clients bench)] (\<lambda>c.
      bindM (liftR (client_host cps c)) (\<lambda>ssh_host.
      fetch tb ssh_host (client_log_file c) (\<lambda>e. ''client '' @ show_nat c @ '' log fetch failed: '' @ exn_msg e))))"
    using assms(2) by (auto intro!: stays_progress stays_lift stays_fetch log_files_below dest!: client_host_in)
  moreover have "stays P (forM (compute_files rps cps) (\<lambda>(h, f). fetch tb h f (\<lambda>e. ''compute sample fetch failed '' @ f @ '': '' @ exn_msg e)))"
    by (auto intro!: stays_forM stays_fetch dest: files)
  ultimately show ?thesis
    unfolding download_logs_def download_body_def by (intro stays_with_retry stays_seq stays_when shell log_dir)
qed

lemma stays_select: "stays P (select_hosts tb bench)"
  unfolding select_hosts_def Let_def by (auto intro!: stays_rules stays_say)

end

subsection \<open>A whole sweep\<close>

text \<open>A predicate that, moreover, looks neither at the files nor at the counters survives the whole sweep.\<close>

locale keeps_sweep = keeps_run +
  assumes blind: "blind P"
    and counting: "P s \<Longrightarrow> P (s\<lparr>hn_completed := a\<rparr>)" "P s \<Longrightarrow> P (s\<lparr>hn_failed := b\<rparr>)"
    and free: "stays P (at_disk (tb_free tb q))"
    and testbed_hosts: "set (ssh_hosts (tb_manager tb)) \<subseteq> H"
begin

lemma select_hosts_from:
  assumes "select_hosts tb bench s = (Inr (rps, cps), t)"
  shows "fst ` set rps \<subseteq> H" "fst ` set cps \<subseteq> H"
proof -
  have z: "(a, b) \<in> set (zip (slice_to n hs) xs) \<Longrightarrow> a \<in> set hs" "(a, b) \<in> set (zip (slice_from n hs) xs) \<Longrightarrow> a \<in> set hs"
    for a b n and hs xs :: "string list"
    by (auto simp: slice_to_def slice_from_def dest!: set_zip_leftD in_set_takeD in_set_dropD)
  have "fst ` set rps \<subseteq> set (ssh_hosts (tb_manager tb)) \<and> fst ` set cps \<subseteq> set (ssh_hosts (tb_manager tb))"
    using assms by (auto simp: select_hosts_def Let_def seqM_def bindM_def say_def M_simps split: if_splits dest: z)
  then show "fst ` set rps \<subseteq> H" "fst ` set cps \<subseteq> H" using testbed_hosts by auto
qed

lemma stays_bind_res:
  assumes "stays P m" "\<And>x s t. m s = (Inr x, t) \<Longrightarrow> stays P (f x)"
  shows "stays P (bindM m f)"
  unfolding stays_def
proof (intro allI impI)
  fix s assume "P s"
  obtain r t where m: "m s = (r, t)" by fastforce
  then have "P t" using staysD [OF assms(1) m \<open>P s\<close>] by simp
  then show "P (snd (bindM m f s))" using m assms(2) by (cases r) (auto simp: bindM_def stays_def)
qed

lemma stays_put_row: "stays P (put_row sw r status)"
  unfolding put_row_def write_row_def by (rule blind_csv [OF blind])

lemma stays_counted: "stays P (modifyM (\<lambda>s. s\<lparr>hn_completed := f s\<rparr>))" "stays P (modifyM (\<lambda>s. s\<lparr>hn_failed := f s\<rparr>))"
  "stays P (modifyM (\<lambda>s. s\<lparr>hn_completed := 0, hn_failed := 0\<rparr>))"
  using counting by (auto intro!: stays_modify)

lemma stays_publish: "stays P (publish_run d rid)"
  unfolding publish_run_def mark_log_dir_ready_def by (intro stays_rules blind_trees [OF blind] blind_files [OF blind])

lemma stays_run_row: "stays P (run_row tb sw r rid par)"
proof -
  have conf: "stays P (configure_row tb sw r rid par rps cps)" if "fst ` set rps \<subseteq> H" "fst ` set cps \<subseteq> H" for rps cps
    unfolding configure_row_def Let_def
    by (intro stays_rules stays_config that stays_say_error stays_put_row stays_notify)
  have perf: "stays P (perform_run tb sw r rid par rps cps d)" if "fst ` set rps \<subseteq> H" "fst ` set cps \<subseteq> H" for rps cps d
    unfolding perform_run_def milestone_def
    by (intro stays_rules stays_record_rtt stays_run_single that stays_download stays_publish stays_put_row stays_counted stays_say stays_notify)
  have failed: "stays P (record_failure tb sw r rid rps cps d e)" if "fst ` set rps \<subseteq> H" "fst ` set cps \<subseteq> H" for rps cps d e
    unfolding record_failure_def Let_def using that
    by (intro stays_rules stays_kill stays_say_error stays_counted blind_trees [OF blind] stays_put_row stays_notify) auto
  have "stays P (case (rps, cps) of (replica_pairs, client_pairs) \<Rightarrow>
      if replica_pairs = [] then seqM (put_row sw r ''NOT_ENOUGH_NODES'') (retM NextRow)
      else bindM (getM (path_isdir (file_path run_logs_path))) (\<lambda>isdir.
       bindM (at_disk (tb_free tb (if isdir then run_logs_path else ''.''))) (\<lambda>free.
       if free < MIN_FREE_BYTES then
         seqM (say_error tb (BenchError (''DISK_FULL before '' @ rid) (PlainException (disk_full_msg free))))
        (seqM (put_row sw r (''DISK_FULL: '' @ disk_full_msg free))
        (seqM (notify_all_of tb ''Sweep halted: disk space'' (disk_full_msg free) (Some ''disk_full'')) (retM Halt)))
       else
         let run_log_dir = file_path (path_join run_logs_path rid) in
         bindM (configure_row tb sw r rid par replica_pairs client_pairs) (\<lambda>ok.
         if \<not> ok then retM NextRow
         else seqM
           (catchM (perform_run tb sw r rid par replica_pairs client_pairs run_log_dir) is_run_failure
              (record_failure tb sw r rid replica_pairs client_pairs run_log_dir))
           (retM NextRow)))))" if "fst ` set rps \<subseteq> H" "fst ` set cps \<subseteq> H" for rps cps
    unfolding prod.case Let_def
    by (intro stays_rules stays_put_row free stays_say_error stays_notify conf perf failed that)
  then show ?thesis
    unfolding run_row_def
    by (intro stays_bind_res stays_select) (metis (no_types, lifting) prod.exhaust select_hosts_from)
qed

lemma stays_sweep_rows: "stays P (sweep_rows tb sw xs)"
proof (induction xs)
  case Nil
  show ?case by (simp add: stays_rules)
next
  case (Cons x xs)
  have "stays P (sweep_row tb sw x)"
    unfolding sweep_row_def Let_def
    by (auto intro!: stays_rules stays_say stays_run_row stays_say_error stays_put_row split: prod.split sum.split)
  then show ?case by (auto intro!: stays_rules Cons split: row_end.split)
qed

lemma stays_sweep: "stays P (run_from_csv tb i out pl su)"
proof -
  have rec: "stays P (reconcile_or_warn w out)" for w
    unfolding reconcile_or_warn_def reconcile_output_def
    by (intro stays_rules blind_csv [OF blind] stays_say)
  have "stays P (initial_update tb pl su)"
    unfolding initial_update_def update_all_def Let_def
    by (intro stays_rules stays_say stays_with_retry stays_group testbed_hosts stays_notify)
  moreover have "stays P (find_completed out)"
    unfolding find_completed_def Let_def by (intro stays_rules rec blind_csv [OF blind] stays_say)
  ultimately show ?thesis
    unfolding run_from_csv_def Let_def
    by (auto intro!: stays_rules stays_say blind_csv [OF blind] stays_counted stays_notify stays_sweep_rows rec split: prod.split)
qed

end

subsection \<open>The connection pool\<close>

text \<open>At most one connection per host, and only to hosts of the testbed.\<close>

definition pool_ok :: "string set \<Rightarrow> 'r harness \<Rightarrow> bool" where
  "pool_ok H s \<longleftrightarrow> distinct (hn_pool s) \<and> set (hn_pool s) \<subseteq> H"

lemma pool_blind: "blind (pool_ok H)"
  by (simp add: blind_def pool_ok_def put_node_def drop_node_def)

interpretation pool: keeps_run "pool_ok H" tb H for H tb
  by unfold_locales
    (auto simp: pool_ok_def stays_def conn_def at_disk_def M_simps split: prod.splits
      intro!: blind_files [OF pool_blind, unfolded stays_def pool_ok_def, rule_format]
        blind_trees [OF pool_blind, unfolded stays_def pool_ok_def, rule_format]
        blind_drop_tree [OF pool_blind, unfolded stays_def pool_ok_def, rule_format])

interpretation pool_sweep: keeps_sweep "pool_ok (set (ssh_hosts (tb_manager tb)))" tb "set (ssh_hosts (tb_manager tb))" for tb
  by unfold_locales (auto simp: pool_blind pool_ok_def stays_def at_disk_def split: prod.splits)



end
