(* ===== verification/Remote_Records.thy ===== *)
theory Remote_Records
  imports Remote_Keeps
begin

section \<open>What a sweep writes (benchmark/benchmark/remote.py, run_from_csv)\<close>

text \<open>
  The loop of \<open>run_from_csv\<close> against its output file: every row that was not done before gets exactly one record, in
  order, whatever the testbed does. The local disk is taken to work; the testbed may fail in every way.
\<close>

subsection \<open>The output file during a run\<close>

text \<open>The file holds the header and the records; before the first record it may be missing or empty.\<close>

definition out_is :: "path \<Rightarrow> string list \<Rightarrow> string list list \<Rightarrow> 'z fs_scheme \<Rightarrow> bool" where
  "out_is p fn recs s \<longleftrightarrow> table_place p s \<and>
     (node_at p s = Some (Text (csv_print (fn # recs))) \<or> (recs = [] \<and> (node_at p s = None \<or> node_at p s = Some (Text []))))"

text \<open>The files of the output, and directories that have nothing to do with it.\<close>

definition output_files :: "path \<Rightarrow> path set" where
  "output_files p = {p, lock_path p, tmp_path p}"

definition clear_of :: "path \<Rightarrow> path \<Rightarrow> bool" where
  "clear_of p d \<longleftrightarrow> (\<forall>q. below d q \<longrightarrow> q \<notin> output_files p \<and> q \<noteq> butlast p) \<and> (\<forall>q. below q d \<longrightarrow> q \<notin> output_files p)"

lemma clear_of_below: "clear_of p d \<Longrightarrow> below d e \<Longrightarrow> clear_of p e"
  unfolding clear_of_def below_iff by (metis append.assoc append_eq_append_conv2)

lemma out_is_change:
  assumes "out_is p fn recs s" "fs_faults t = []" "\<forall>q \<in> output_files p. node_at q t = node_at q s"
    "path_isdir (butlast p) s \<Longrightarrow> path_isdir (butlast p) t"
  shows "out_is p fn recs t"
  using assms by (auto simp: out_is_def table_place_def output_files_def path_isdir_def)

lemma out_is_put: "out_is p fn recs s \<Longrightarrow> q \<notin> output_files p \<Longrightarrow> q \<noteq> butlast p \<or> n = Dir \<Longrightarrow> out_is p fn recs (put_node q n s)"
  by (rule out_is_change, assumption) (auto simp: out_is_def table_place_def path_isdir_put)

lemma out_is_drop: "out_is p fn recs s \<Longrightarrow> q \<notin> output_files p \<Longrightarrow> q \<noteq> butlast p \<Longrightarrow> out_is p fn recs (drop_node q s)"
  by (rule out_is_change, assumption) (auto simp: out_is_def table_place_def path_isdir_def)

lemma out_is_then:
  assumes "\<And>s. out_is p fn recs s \<Longrightarrow> out_is p fn recs (snd (g NoFault s))"
  shows "stays (out_is p fn recs) (bindM next_fault g)"
  unfolding stays_def
proof (intro allI impI)
  fix s :: "'a fs_scheme" assume s: "out_is p fn recs s"
  then have "bindM next_fault g s = g NoFault s" by (simp add: out_is_def table_place_def bindM_Inr [OF next_fault_none])
  then show "out_is p fn recs (snd (bindM next_fault g s))" using assms s by simp
qed

lemma out_is_files:
  shows "q \<notin> output_files p \<Longrightarrow> q \<noteq> butlast p \<Longrightarrow> stays (out_is p fn recs) (write_node q n)"
    and "stays (out_is p fn recs) (read_node q)"
    and "q \<notin> output_files p \<Longrightarrow> stays (out_is p fn recs) (make_dir q)"
  unfolding write_node_def read_node_def make_dir_def
  by (rule out_is_then, auto intro!: out_is_put split: option.splits node.splits)+

lemma out_is_drop_one:
  "q \<notin> output_files p \<Longrightarrow> q \<noteq> butlast p \<Longrightarrow>
    stays (out_is p fn recs) (bindM next_fault (\<lambda>f s. if f \<noteq> NoFault then (Inl io_error, s) else (Inr (), drop_node q s)))"
  by (rule out_is_then) (simp add: out_is_drop)

lemma out_is_copy_one:
  "q = copied src dst a \<Longrightarrow> q \<notin> output_files p \<Longrightarrow> q \<noteq> butlast p \<Longrightarrow> stays (out_is p fn recs) (copy_one src dst (a, n))"
  unfolding copy_one_def prod.case by (rule out_is_then) (simp add: copied_def out_is_put Let_def)

lemma out_is_dirs:
  assumes "clear_of p d"
  shows "stays (out_is p fn recs) (make_dirs d)"
  unfolding make_dirs_def
proof (rule stays_forM)
  fix q assume "q \<in> set (prefixes_from [] d)"
  then have "below q d" using prefixes_from_mem [of q "[]" d] by simp
  then show "stays (out_is p fn recs) (make_dir q)" using assms by (intro out_is_files) (auto simp: clear_of_def)
qed

lemma stays_get_files: "(\<And>s. stays P (f (g s))) \<Longrightarrow> stays P (bindM (getM g) f)"
  by (simp add: stays_def)

lemma out_is_drop_tree:
  assumes "clear_of p d"
  shows "stays (out_is p fn recs) (drop_tree d :: ('z fs_scheme, unit) M)"
  unfolding drop_tree_def
proof (rule stays_get_files)
  fix s :: "'z fs_scheme"
  show "stays (out_is p fn recs) (forM (filter (below d) (dict_keys (fs_files s)))
      (\<lambda>q. bindM next_fault (\<lambda>f s. if f \<noteq> NoFault then (Inl io_error, s) else (Inr (), drop_node q s))) :: ('z fs_scheme, unit) M)"
    using assms by (intro stays_forM out_is_drop_one) (auto simp: clear_of_def)
qed

lemma out_is_archive:
  assumes "clear_of p d"
  shows "stays (out_is p fn recs) (archive_logs d :: ('z fs_scheme, unit) M)"
proof -
  have "stays (out_is p fn recs) (forM (filter (\<lambda>(q, n). below src q) (fs_files s)) (copy_one src d) :: ('z fs_scheme, unit) M)"
    for src and s :: "'z fs_scheme"
  proof (rule stays_forM)
    fix x assume "x \<in> set (filter (\<lambda>(q, n). below src q) (fs_files s))"
    obtain a n where x: "x = (a, n)" by fastforce
    have "below d (copied src d a)" by (simp add: copied_def below_iff)
    then show "stays (out_is p fn recs) (copy_one src d x :: ('z fs_scheme, unit) M)"
      unfolding x using assms by (intro out_is_copy_one [OF refl]) (auto simp: clear_of_def)
  qed
  then have "stays (out_is p fn recs) (copy_tree src d :: ('z fs_scheme, unit) M)" for src
    unfolding copy_tree_def by (intro stays_get_files stays_seq out_is_dirs assms)
  then show ?thesis
    unfolding archive_logs_def by (intro stays_rules out_is_drop_tree assms)
qed

text \<open>
  A testbed whose local commands leave the output alone (\<open>gen_conf.py\<close> works in the temporary directory, \<open>clean_logs\<close> on
  \<open>logs\<close>), an output apart from the directories the harness works in, and an SMTP session that fails with an \<open>OSError\<close>, as
  \<open>SMTPException\<close> is one.
\<close>

definition quiet_testbed :: "'r testbed \<Rightarrow> path \<Rightarrow> bool" where
  "quiet_testbed tb p \<longleftrightarrow>
     (\<forall>c d st. \<forall>q \<in> output_files p \<union> {butlast p}. map_of (fst (snd (tb_shell tb c d st))) q = map_of (fst st) q) \<and>
     (\<forall>f st. \<forall>q \<in> output_files p \<union> {butlast p}. map_of (fst (snd (tb_free tb f st))) q = map_of (fst st) q) \<and>
     (\<forall>st. clear_of p (file_path (tb_tmp tb st))) \<and> clear_of p LOGS \<and> clear_of p (file_path run_logs_path) \<and>
     (\<forall>h q m e. tb_smtp tb h q m = Inl e \<longrightarrow> is_OSError e)"

lemma out_is_at_disk:
  fixes m :: "('r disk, 'a) M"
  assumes "\<forall>st. \<forall>q \<in> output_files p \<union> {butlast p}. map_of (fst (snd (m st))) q = map_of (fst st) q"
  shows "stays (out_is p fn recs) (at_disk m)"
  unfolding stays_def
proof (intro allI impI)
  fix s :: "'r harness" assume s: "out_is p fn recs s"
  obtain x d w where m: "m (disk s) = (x, d, w)" by (metis surj_pair)
  then have "at_disk m s = (x, s\<lparr>fs_files := d, hn_remote := w\<rparr>)" by (simp add: at_disk_def)
  moreover have "map_of d q = node_at q s" if "q \<in> output_files p \<union> {butlast p}" for q
    using assms that m by (metis disk_def fst_conv node_at_def snd_conv)
  ultimately show "out_is p fn recs (snd (at_disk m s))"
    using s by (intro out_is_change [OF s]) (auto simp: node_at_def path_isdir_def out_is_def table_place_def)
qed

text \<open>The same with the two counters of the sweep.\<close>

definition track :: "path \<Rightarrow> string list \<Rightarrow> string list list \<Rightarrow> nat \<Rightarrow> nat \<Rightarrow> 'r harness \<Rightarrow> bool" where
  "track p fn recs a b s \<longleftrightarrow> out_is p fn recs s \<and> hn_completed s = a \<and> hn_failed s = b"

definition counters :: "nat \<Rightarrow> nat \<Rightarrow> 'r harness \<Rightarrow> bool" where
  "counters a b s \<longleftrightarrow> hn_completed s = a \<and> hn_failed s = b"

lemma counters_blind: "blind (counters a b)"
  by (simp add: blind_def counters_def put_node_def drop_node_def)

lemma counters_update [simp]:
  "counters a b (s\<lparr>hn_out := x\<rparr>) = counters a b s" "counters a b (s\<lparr>hn_remote := w\<rparr>) = counters a b s"
  "counters a b (s\<lparr>hn_post := q\<rparr>) = counters a b s" "counters a b (s\<lparr>hn_iface := i\<rparr>) = counters a b s"
  "counters a b (s\<lparr>hn_rtt := v\<rparr>) = counters a b s" "counters a b (s\<lparr>hn_pool := hs\<rparr>) = counters a b s"
  "counters a b (s\<lparr>fs_files := d\<rparr>) = counters a b s"
  by (simp_all add: counters_def)

interpretation counted: keeps_run "counters a b" tb UNIV for a b tb
proof
  show "stays (counters a b) (conn h)" for h by (simp add: stays_def conn_def M_simps)
  show "stays (counters a b) (at_disk (tb_shell tb c d))" for c d by (auto simp: stays_def at_disk_def split: prod.split)
qed (simp_all add: counters_blind blind_files blind_trees blind_drop_tree)

lemma stays_conj: "stays P m \<Longrightarrow> stays Q m \<Longrightarrow> stays (\<lambda>s. P s \<and> Q s) m"
  by (simp add: stays_def)

lemmas keeps_run_laws = keeps_run.print keeps_run.remote keeps_run.post keeps_run.ifaces keeps_run.rtt keeps_run.fresh_pool
  keeps_run.connect keeps_run.shell keeps_run.reading keeps_run.log_write keeps_run.log_dir keeps_run.tmp_dir keeps_run.tmp_write
  keeps_run.tmp_drop

lemma keeps_run_conj:
  assumes "keeps_run P tb H" "keeps_run Q tb H"
  shows "keeps_run (\<lambda>s. P s \<and> Q s) tb H"
  by (rule keeps_run.intro; (intro conjI stays_conj)?;
      (elim conjE)?; (erule keeps_run_laws [OF assms(1)] keeps_run_laws [OF assms(2)] | rule keeps_run_laws [OF assms(1)] keeps_run_laws [OF assms(2)]))

locale quiet_output =
  fixes tb :: "'r testbed" and p :: path and fn :: "string list"
  assumes quiet: "quiet_testbed tb p"
begin

lemma output_kept: "keeps_run (out_is p fn recs) tb UNIV"
proof -
  have same: "out_is p fn recs t" if "out_is p fn recs s" "fs_files t = fs_files s" "fs_faults t = fs_faults s" for s t :: "'a harness"
    using that by (auto simp: out_is_def table_place_def path_isdir_def node_at_def)
  have clear: "clear_of p LOGS" "\<And>st. clear_of p (file_path (tb_tmp tb st))" using quiet by (auto simp: quiet_testbed_def)
  have wr: "stays (out_is p fn recs) (write_node q n)" if "clear_of p d" "below d q" for d q n
    using that by (intro out_is_files) (auto simp: clear_of_def)
  show "keeps_run (out_is p fn recs) tb UNIV"
  proof unfold_locales
    show "stays (out_is p fn recs) (at_disk (tb_shell tb c d))" for c d
      using quiet by (intro out_is_at_disk) (simp add: quiet_testbed_def)
    show "stays (out_is p fn recs) (conn h)" for h
      by (auto simp: stays_def conn_def M_simps intro: same)
    show "stays (out_is p fn recs) (make_dir (file_path (tb_tmp tb st)))" for st
      using clear(2) [of st] below_iff [of "file_path (tb_tmp tb st)" "file_path (tb_tmp tb st)"] by (intro out_is_files) (simp add: clear_of_def)
  qed (auto intro: same out_is_files wr clear out_is_dirs out_is_drop_tree)
qed

end

sublocale quiet_output \<subseteq> out: keeps_run "track p fn recs a b" tb UNIV for recs a b
  using keeps_run_conj [OF output_kept [of recs] counted.keeps_run_axioms [of a b tb]] unfolding track_def counters_def .

interpretation clock_output: quiet_output clock_testbed "[''out.csv'']" fn for fn
proof
  have tmp: "file_path (tb_tmp clock_testbed st) = [''/'', ''tmp'', ''t'']" for st by (simp add: clock_testbed_def) code_simp
  have rl: "file_path run_logs_path = [''results'', ''run_logs'']" by code_simp
  have clear: "clear_of [''out.csv''] (a # as)" if "a \<notin> {''out.csv'', ''out.csv.lock'', ''out.csv.tmp''}" for a as
    using that by (auto simp: clear_of_def below_iff output_files_def lock_path_def tmp_path_def Cons_eq_append_conv)
  show "quiet_testbed clock_testbed [''out.csv'']"
    unfolding quiet_testbed_def tmp rl LOGS_eq by (simp add: clear, simp add: clock_testbed_def)
qed

end
