(* ===== verification/Remote_Journal.thy ===== *)
theory Remote_Journal
  imports Remote_Records
begin

section \<open>One record per row (benchmark/benchmark/remote.py, run_from_csv)\<close>

text \<open>
  The loop of \<open>run_from_csv\<close> as a journal: what is appended to the output file for the rows of the input, with the
  counters of the sweep. The specification is a list of verdicts; the proofs are Hoare triples over the statements of
  the loop body, whose postconditions speak of normal and of exceptional ends.
\<close>

subsection \<open>Triples\<close>

definition triple :: "('s \<Rightarrow> bool) \<Rightarrow> ('s, 'a) M \<Rightarrow> ('a \<Rightarrow> 's \<Rightarrow> bool) \<Rightarrow> (exn \<Rightarrow> 's \<Rightarrow> bool) \<Rightarrow> bool" where
  "triple P m Q E \<longleftrightarrow> (\<forall>s. P s \<longrightarrow> (case m s of (Inr x, t) \<Rightarrow> Q x t | (Inl e, t) \<Rightarrow> E e t))"

lemma tripleD: "triple P m Q E \<Longrightarrow> P s \<Longrightarrow> m s = (r, t) \<Longrightarrow> (\<forall>x. r = Inr x \<longrightarrow> Q x t) \<and> (\<forall>e. r = Inl e \<longrightarrow> E e t)"
  unfolding triple_def by (metis (mono_tags, lifting) case_prod_conv old.sum.simps(5) old.sum.simps(6))

lemma triple_ret: "(\<And>s. P s \<Longrightarrow> Q x s) \<Longrightarrow> triple P (retM x) Q E"
  by (simp add: triple_def M_simps)

lemma triple_raise: "(\<And>s. P s \<Longrightarrow> E e s) \<Longrightarrow> triple P (raiseM e) Q E"
  by (simp add: triple_def M_simps)

lemma triple_bind: "triple P m R E \<Longrightarrow> (\<And>x. triple (R x) (f x) Q E) \<Longrightarrow> triple P (bindM m f) Q E"
  unfolding triple_def bindM_def by (fastforce split: prod.splits sum.splits)

lemma triple_seq: "triple P m (\<lambda>_. R) E \<Longrightarrow> triple R n Q E \<Longrightarrow> triple P (seqM m n) Q E"
  unfolding seqM_def by (rule triple_bind)

lemma triple_get: "(\<And>v. triple P (f v) Q E) \<Longrightarrow> triple P (bindM (getM g) f) Q E"
  by (simp add: triple_def)

lemma triple_catch:
  assumes "triple P m Q F" "\<And>e. p e \<Longrightarrow> triple (F e) (h e) Q E" "\<And>e s. \<not> p e \<Longrightarrow> F e s \<Longrightarrow> E e s"
  shows "triple P (catchM m p h) Q E"
  unfolding triple_def
proof (intro allI impI)
  fix s assume "P s"
  obtain r t where m: "m s = (r, t)" by fastforce
  note d = tripleD [OF assms(1) \<open>P s\<close> m]
  show "case catchM m p h s of (Inr x, t) \<Rightarrow> Q x t | (Inl e, t) \<Rightarrow> E e t"
  proof (cases r)
    case (Inl e)
    then show ?thesis using d m assms(2) [of e, unfolded triple_def] assms(3) by (simp add: catchM_Inl)
  next
    case (Inr x)
    then show ?thesis using d m by (simp add: catchM_Inr)
  qed
qed

lemma triple_stays: "stays P m \<Longrightarrow> (\<And>e s. P s \<Longrightarrow> E e s) \<Longrightarrow> triple P m (\<lambda>_. P) E"
  by (auto simp: triple_def stays_def split: prod.splits sum.splits; metis snd_conv)

lemma triple_raises: "stays P m \<Longrightarrow> raises_only F m \<Longrightarrow> (\<And>e s. P s \<Longrightarrow> F e \<Longrightarrow> E e s) \<Longrightarrow> triple P m (\<lambda>_. P) E"
  by (auto simp: triple_def stays_def raises_only_def split: prod.splits sum.splits; metis fst_conv snd_conv)

lemma triple_weaken:
  "triple P m Q E \<Longrightarrow> (\<And>s. P' s \<Longrightarrow> P s) \<Longrightarrow> (\<And>x s. Q x s \<Longrightarrow> Q' x s) \<Longrightarrow> (\<And>e s. E e s \<Longrightarrow> E' e s) \<Longrightarrow> triple P' m Q' E'"
  unfolding triple_def by (fastforce split: prod.splits sum.splits)

lemma triple_if: "(c \<Longrightarrow> triple P m Q E) \<Longrightarrow> (\<not> c \<Longrightarrow> triple P n Q E) \<Longrightarrow> triple P (if c then m else n) Q E"
  by simp

subsection \<open>Verdicts\<close>

text \<open>What is said of a row: the statuses of the loop.\<close>

datatype verdict = Downloaded | NotEnoughNodes | ParamFailed string | ConfigFailed string | RunFailed string | DiskFull string

fun verdict_text :: "verdict \<Rightarrow> string" where
  "verdict_text Downloaded = ''DOWNLOADED''"
| "verdict_text NotEnoughNodes = ''NOT_ENOUGH_NODES''"
| "verdict_text (ParamFailed e) = ''PARAM_ERROR: '' @ e"
| "verdict_text (ConfigFailed e) = ''CONFIG_ERROR: '' @ e"
| "verdict_text (RunFailed e) = ''RUN_ERROR: '' @ e"
| "verdict_text (DiskFull e) = ''DISK_FULL: '' @ e"

fun is_RunFailed :: "verdict \<Rightarrow> bool" where
  "is_RunFailed (RunFailed e) = True"
| "is_RunFailed _ = False"

fun is_DiskFull :: "verdict \<Rightarrow> bool" where
  "is_DiskFull (DiskFull e) = True"
| "is_DiskFull _ = False"

text \<open>The record that a verdict leaves for a row.\<close>

definition row_text :: "string list \<Rightarrow> row \<Rightarrow> verdict \<Rightarrow> string list" where
  "row_text fn r v = (case row_record fn (out_row r (verdict_text v)) of Inl e \<Rightarrow> [] | Inr rec \<Rightarrow> rec)"

text \<open>The rows the sweep has to try.\<close>

definition to_do :: "sweep \<Rightarrow> (nat \<times> row) list \<Rightarrow> (nat \<times> row) list" where
  "to_do sw xs = filter (\<lambda>(i, r). run_id_of i r \<notin> set (sw_done sw)) xs"

definition journal :: "string list \<Rightarrow> (nat \<times> row) list \<Rightarrow> verdict list \<Rightarrow> string list list" where
  "journal fn xs vs = map (\<lambda>((i, r), v). row_text fn r v) (zip xs vs)"

lemma journal_simps [simp]:
  "journal fn xs [] = []" "journal fn ((i, r) # xs) (v # vs) = row_text fn r v # journal fn xs vs"
  by (simp_all add: journal_def)

text \<open>A verdict for each of the first rows, none of which has cells beyond the header; only the last may be a full disk.\<close>

definition verdicts_for :: "(nat \<times> row) list \<Rightarrow> verdict list \<Rightarrow> bool" where
  "verdicts_for xs vs \<longleftrightarrow> length vs \<le> length xs \<and> (\<forall>v \<in> set (butlast vs). \<not> is_DiskFull v)
     \<and> (\<forall>(i, r) \<in> set (take (length vs) xs). surplus r = [])"

definition all_judged :: "(nat \<times> row) list \<Rightarrow> verdict list \<Rightarrow> bool" where
  "all_judged xs vs \<longleftrightarrow> length vs = length xs \<or> (vs \<noteq> [] \<and> is_DiskFull (last vs))"

text \<open>A row the output has columns for.\<close>

definition row_fits :: "string list \<Rightarrow> row \<Rightarrow> bool" where
  "row_fits fn r \<longleftrightarrow> set (dict_keys (cells r)) \<subseteq> set fn \<and> set RESULT_COLUMNS \<subseteq> set fn"

lemma row_text_record:
  assumes "row_fits fn r" "surplus r = []"
  shows "row_record fn (out_row r (verdict_text v)) = Inr (row_text fn r v)"
proof -
  have "k \<in> set fn" if "dict_get (cells (out_row r st)) k \<noteq> None" for k st
  proof -
    have "k \<in> set fn" if "dict_get (cells r) k \<noteq> None"
      using that assms(1) unfolding row_fits_def by (metis dict_get_in_keys subsetD)
    then show ?thesis using that assms(1) result_columns(3) by (auto simp: row_fits_def out_row_get split: if_splits option.splits)
  qed
  then have "set (dict_keys (cells (out_row r st))) \<subseteq> set fn" for st using dict_get_in_keys by (metis subsetI)
  then show ?thesis using assms(2) by (simp add: row_text_def row_record_def out_row_get)
qed

subsection \<open>Notifications do not look like a failed run\<close>

lemma json_int_raises: "json_int v = Inl e \<Longrightarrow> \<not> is_run_failure e"
  by (cases v rule: json_int.cases; (auto split: option.splits)?) (rename_tac x, case_tac x; auto)

lemma jget_raises: "jget v k = Inl e \<Longrightarrow> \<not> is_run_failure e"
  by (cases v; auto split: option.splits)

lemma set_header_raises: "set_header v = Inl e \<Longrightarrow> \<not> is_run_failure e"
  by (cases v) (auto split: if_splits)

lemma make_email_raises: "make_email n cfg subject body = Inl e \<Longrightarrow> \<not> is_run_failure e"
  unfolding make_email_def Let_def bindR_def
  by (auto split: sum.splits dest: jget_raises set_header_raises simp del: set_header.simps jget.simps)

lemma throttled_raises: "throttled n now key = Inl e \<Longrightarrow> \<not> is_run_failure e"
  unfolding throttled_def by (cases "nt_throttle_seconds n") auto

lemma raises_state: "(\<And>s e. f s = Inl e \<Longrightarrow> E e) \<Longrightarrow> raises_only E (\<lambda>s. (f s, s))"
  by (simp add: raises_only_def)

lemma notify_raises:
  assumes "\<And>h q m e. smtp h q m = Inl e \<Longrightarrow> is_OSError e"
  shows "raises_only (\<lambda>e. \<not> is_run_failure e) (notify smtp now subject body key)"
proof -
  have port: "\<not> is_run_failure e" if "bindR (jget cfg k) json_int = Inl e" for cfg k e
    using that by (auto simp: bindR_def split: sum.splits dest: jget_raises json_int_raises)
  have "raises_only (\<lambda>e. \<not> is_run_failure e) (send_email smtp now cfg key msg)" for cfg msg
    unfolding send_email_def
  proof (rule raises_catch)
    show "raises_only (\<lambda>e. is_OSError e \<or> \<not> is_run_failure e)
      (bindM (liftR (jget cfg ''smtp_host'')) (\<lambda>host. bindM (liftR (bindR (jget cfg ''smtp_port'') json_int)) (\<lambda>port.
        bindM (modifyM (\<lambda>(n, out). (n, out @ [(now, key, msg)]))) (\<lambda>_. bindM (liftR (smtp host port msg)) (\<lambda>_. retM True)))))"
      by (intro raises_intros raises_lift) (auto dest: assms port jget_raises)
  qed (auto intro: raises_intros)
  moreover have "raises_only (\<lambda>e. \<not> is_run_failure e) (pass_throttle now key)"
    unfolding pass_throttle_def by (auto intro!: raises_intros raises_state dest: throttled_raises split: option.split)
  moreover have "raises_only (\<lambda>e. \<not> is_run_failure e) (\<lambda>s :: post. (make_email (fst s) cfg subject body, s))" for cfg
    by (rule raises_state) (rule make_email_raises)
  ultimately show ?thesis
    unfolding notify_def by (auto intro!: raises_intros split: option.split)
qed

lemma notify_all_of_raises:
  assumes "quiet_testbed tb p"
  shows "raises_only (\<lambda>e. \<not> is_run_failure e) (notify_all_of tb subject body key)"
proof -
  have "raises_only (\<lambda>e. \<not> is_run_failure e) (notify (tb_smtp tb) now subject body key)" for now
    by (rule notify_raises) (use assms in \<open>auto simp: quiet_testbed_def\<close>)
  then show ?thesis
    unfolding raises_only_def notify_all_of_def by (auto split: prod.splits sum.splits) (metis fst_conv surj_pair)
qed

subsection \<open>The statements of a row\<close>

text \<open>The record was written or not; the counters are those of the sweep.\<close>

definition judged :: "path \<Rightarrow> string list \<Rightarrow> string list list \<Rightarrow> row \<Rightarrow> nat \<Rightarrow> nat \<Rightarrow> row_end \<Rightarrow> 'r harness \<Rightarrow> bool" where
  "judged p fn recs r a b x s \<longleftrightarrow> (\<exists>v. surplus r = [] \<and> (x = Halt \<longleftrightarrow> is_DiskFull v) \<and>
     track p fn (recs @ [row_text fn r v]) (if v = Downloaded then Suc a else a) (if is_RunFailed v then Suc b else b) s)"

definition broken :: "path \<Rightarrow> string list \<Rightarrow> string list list \<Rightarrow> row \<Rightarrow> 'r harness \<Rightarrow> bool" where
  "broken p fn recs r s \<longleftrightarrow> out_is p fn recs s \<or> (\<exists>v. surplus r = [] \<and> out_is p fn (recs @ [row_text fn r v]) s)"

lemma brokenI: "track p fn recs a b s \<Longrightarrow> broken p fn recs r s"
  "track p fn (recs @ [row_text fn r v]) a b s \<Longrightarrow> surplus r = [] \<Longrightarrow> broken p fn recs r s"
  by (auto simp: track_def broken_def)

lemma kept_triple: "stays (track p fn recs a b) m \<Longrightarrow> triple (track p fn recs a b) m (\<lambda>_. track p fn recs a b) (\<lambda>_. broken p fn recs r)"
  by (rule triple_stays) (simp_all add: brokenI)

lemma judgedI:
  "track p fn (recs @ [row_text fn r v]) a' b' s \<Longrightarrow> a' = (if v = Downloaded then Suc a else a) \<Longrightarrow>
    b' = (if is_RunFailed v then Suc b else b) \<Longrightarrow> surplus r = [] \<Longrightarrow> (x = Halt \<longleftrightarrow> is_DiskFull v) \<Longrightarrow> judged p fn recs r a b x s"
  unfolding judged_def by blast

lemma track_conj: "track p fn recs a b = (\<lambda>s. out_is p fn recs s \<and> counters a b s)"
  by (rule ext) (simp add: track_def counters_def)

lemma stays_track: "stays (out_is p fn recs) m \<Longrightarrow> stays (counters a b) m \<Longrightarrow> stays (track p fn recs a b) m"
  unfolding track_conj by (rule stays_conj)

context quiet_output
begin

lemma put_row_triple:
  assumes "row_fits fn r" "surplus r = []" "sw_fieldnames sw = fn" "file_path (sw_output sw) = p"
  shows "triple (track p fn recs a b) (put_row sw r (verdict_text v)) (\<lambda>_. track p fn (recs @ [row_text fn r v]) a b) E"
  unfolding triple_def
proof (intro allI impI)
  fix s :: "'a harness" assume s: "track p fn recs a b s"
  define t where "t = put_node p (Text (csv_print (fn # recs @ [row_text fn r v]))) (locked p s)"
  have place: "table_place p s" using s by (simp add: track_def out_is_def)
  have "put_row sw r (verdict_text v) s = (Inr (), t)"
    unfolding put_row_def write_row_def assms(3,4) t_def
    by (rule append_row_run [OF place row_text_record [OF assms(1,2)]]) (use s in \<open>simp add: track_def out_is_def\<close>)
  moreover have "table_place p t" using locked_place [OF place] side_paths [of p] by (auto simp: t_def table_place_def path_isdir_put)
  then have "track p fn (recs @ [row_text fn r v]) a b t"
    using s by (auto simp: t_def track_def out_is_def locked_def put_node_def node_at_def)
  ultimately show "case put_row sw r (verdict_text v) s of (Inr x, t) \<Rightarrow> track p fn (recs @ [row_text fn r v]) a b t | (Inl e, t) \<Rightarrow> E e t"
    by simp
qed

lemma count_ok_triple:
  "triple (track p fn recs a b) (modifyM (\<lambda>s. s\<lparr>hn_completed := hn_completed s + 1\<rparr>)) (\<lambda>_. track p fn recs (Suc a) b) E"
  "triple (track p fn recs a b) (modifyM (\<lambda>s. s\<lparr>hn_failed := hn_failed s + 1\<rparr>)) (\<lambda>_. track p fn recs a (Suc b)) E"
  by (auto simp: triple_def M_simps track_def out_is_def table_place_def node_at_def path_isdir_def)

lemma stays_archive:
  assumes "clear_of p d"
  shows "stays (track p fn recs a b) (archive_logs d)" "stays (track p fn recs a b) (publish_run d rid)"
proof -
  show arch: "stays (track p fn recs a b) (archive_logs d)"
    by (rule stays_track) (simp_all add: out_is_archive assms counters_blind blind_trees)
  have "stays (track p fn recs a b) (write_node (d @ [x]) n)" for x n
    using assms by (intro stays_track out_is_files blind_files counters_blind) (auto simp: clear_of_def below_iff)
  moreover have "stays (track p fn recs a b) (make_dirs d)"
    by (rule stays_track) (simp_all add: out_is_dirs assms counters_blind blind_trees)
  ultimately show "stays (track p fn recs a b) (publish_run d rid)"
    unfolding publish_run_def mark_log_dir_ready_def by (intro stays_rules arch)
qed

lemma stays_free: "stays (track p fn recs a b) (at_disk (tb_free tb q))"
proof -
  have "stays (out_is p fn recs) (at_disk (tb_free tb q))"
    using quiet by (intro out_is_at_disk) (simp add: quiet_testbed_def)
  moreover have "stays (counters a b) (at_disk (tb_free tb q))" by (auto simp: stays_def at_disk_def split: prod.split)
  ultimately show ?thesis by (rule stays_track)
qed

lemmas put_rows =
  put_row_triple [where v = Downloaded, unfolded verdict_text.simps]
  put_row_triple [where v = NotEnoughNodes, unfolded verdict_text.simps]
  put_row_triple [where v = "ParamFailed e" for e, unfolded verdict_text.simps]
  put_row_triple [where v = "ConfigFailed e" for e, unfolded verdict_text.simps]
  put_row_triple [where v = "RunFailed e" for e, unfolded verdict_text.simps]
  put_row_triple [where v = "DiskFull e" for e, unfolded verdict_text.simps]

lemma configure_triple:
  assumes "row_fits fn r" "surplus r = []" "sw_fieldnames sw = fn" "file_path (sw_output sw) = p"
  shows "triple (track p fn recs a b) (configure_row tb sw r rid par rps cps)
    (\<lambda>ok s. if ok then track p fn recs a b s else judged p fn recs r a b NextRow s) (\<lambda>_. broken p fn recs r)"
  unfolding configure_row_def Let_def
proof (rule triple_catch)
  show "triple (track p fn recs a b) (seqM (config_run tb rps cps (rp_protocol par)) (retM True))
    (\<lambda>ok s. if ok then track p fn recs a b s else judged p fn recs r a b NextRow s) (\<lambda>e. track p fn recs a b)"
    by (rule triple_seq [OF triple_stays [OF out.stays_config]]) (simp_all add: triple_ret)
  show "triple (track p fn recs a b)
      (seqM (say_error tb (BenchError (''CONFIG_ERROR for '' @ rid) (group_error tb e)))
        (seqM (put_row sw r (''CONFIG_ERROR: '' @ exn_msg (group_error tb e)))
        (seqM (notify_all_of tb (''Run '' @ rid @ '' CONFIG_ERROR'') (exn_name (group_error tb e) @ '': '' @ exn_msg (group_error tb e))
            (Some ''run_failure'')) (retM False))))
      (\<lambda>ok s. if ok then track p fn recs a b s else judged p fn recs r a b NextRow s) (\<lambda>_. broken p fn recs r)" for e
    by (rule triple_seq [OF triple_stays [OF out.stays_say_error brokenI(1)] triple_seq [OF put_rows(4) [OF assms]
          triple_seq [OF triple_stays [OF out.stays_notify brokenI(2)] triple_ret]]])
      (auto intro: judgedI assms(2))
qed (auto intro: brokenI)

lemma perform_triple:
  assumes "row_fits fn r" "surplus r = []" "sw_fieldnames sw = fn" "file_path (sw_output sw) = p" "clear_of p d"
  shows "triple (track p fn recs a b) (perform_run tb sw r rid par rps cps d) (\<lambda>_. judged p fn recs r a b NextRow)
    (\<lambda>e s. track p fn recs a b s \<or> (\<not> is_run_failure e \<and> broken p fn recs r s))"
proof -
  let ?E = "\<lambda>e s. track p fn recs a b s \<or> (\<not> is_run_failure e \<and> broken p fn recs r s)"
  let ?T = "track p fn (recs @ [row_text fn r Downloaded]) (Suc a) b"
  have before: "stays (track p fn recs a b) (modifyM (\<lambda>s :: 'r harness. s\<lparr>hn_rtt := JNull\<rparr>))" by (rule out.stays_record_rtt)
  have "triple ?T (milestone tb sw) (\<lambda>_. ?T) ?E"
    by (rule triple_raises [where F = "\<lambda>e. \<not> is_run_failure e"])
      (auto simp: milestone_def intro!: stays_rules out.stays_notify raises_intros notify_all_of_raises [OF quiet]
        intro: brokenI(1) brokenI(2) [OF _ assms(2)])
  moreover have "raises_only (\<lambda>e. \<not> is_run_failure e) (say t :: ('r harness, unit) M)" for t
    by (simp add: say_def raises_intros)
  ultimately have after: "triple ?T (seqM (say (print_info (''Run '' @ rid @ '': logs downloaded, queued for parse''))) (milestone tb sw))
      (\<lambda>_. judged p fn recs r a b NextRow) ?E"
    by (intro triple_seq [where R = ?T] triple_raises [where F = "\<lambda>e. \<not> is_run_failure e"] out.stays_say)
      (auto elim!: triple_weaken intro: brokenI(1) brokenI(2) [OF _ assms(2)] judgedI assms(2))
  show ?thesis
    unfolding perform_run_def
    by (rule triple_seq [OF triple_stays [OF before] triple_seq [OF triple_stays [OF out.stays_run_single]
        triple_seq [OF triple_stays [OF out.stays_download] triple_seq [OF triple_stays [OF stays_archive(2) [OF assms(5)]]
        triple_seq [OF put_rows(1) [OF assms(1-4)] triple_seq [OF count_ok_triple(1) after]]]]]]) auto
qed

lemma failure_triple:
  assumes "row_fits fn r" "surplus r = []" "sw_fieldnames sw = fn" "file_path (sw_output sw) = p" "clear_of p d"
  shows "triple (track p fn recs a b) (record_failure tb sw r rid rps cps d e) (\<lambda>_. judged p fn recs r a b NextRow)
    (\<lambda>_. broken p fn recs r)"
proof -
  have kill: "stays (track p fn recs a b) (catchM (kill_all tb (Some hs) False) is_Exception (\<lambda>k. say_error tb (f k)))" for hs f a b
    by (intro stays_rules out.stays_kill out.stays_say_error) simp
  have arch: "stays (track p fn recs a b) (catchM (archive_logs d) is_OSError (\<lambda>k. say_error tb (f k)))" for f a b
    by (intro stays_rules stays_archive assms(5) out.stays_say_error)
  let ?T = "track p fn (recs @ [row_text fn r (RunFailed (exn_msg (group_error tb e)))]) a (Suc b)"
  have told: "triple ?T (bindM (getM (counts_text sw)) (\<lambda>c. notify_all_of tb sub (c @ body) key)) (\<lambda>_. judged p fn recs r a b NextRow)
      (\<lambda>_. broken p fn recs r)" for sub body key
    by (intro triple_get triple_weaken [OF triple_stays [OF out.stays_notify]]) (auto intro: brokenI(2) [OF _ assms(2)] judgedI assms(2))
  show ?thesis
    unfolding record_failure_def Let_def
    by (rule triple_seq [OF triple_stays [OF kill] triple_seq [OF triple_stays [OF out.stays_say_error]
        triple_seq [OF count_ok_triple(2) triple_seq [OF triple_stays [OF arch] triple_seq [OF put_rows(5) [OF assms(1-4)] told]]]]])
      (auto intro: brokenI)
qed

lemma run_row_triple:
  assumes "row_fits fn r" "surplus r = []" "sw_fieldnames sw = fn" "file_path (sw_output sw) = p" "\<not> starts_with ''/'' rid"
  shows "triple (track p fn recs a b) (run_row tb sw r rid par) (judged p fn recs r a b) (\<lambda>_. broken p fn recs r)"
proof -
  define d where "d = file_path (path_join run_logs_path rid)"
  have d: "clear_of p d"
    using quiet clear_of_below file_path_join [OF assms(5)] unfolding quiet_testbed_def d_def by blast
  note put = put_rows [OF assms(1-4)]
  let ?B = "\<lambda>_ :: exn. broken p fn recs r"
  have few: "triple (track p fn recs a b) (seqM (put_row sw r ''NOT_ENOUGH_NODES'') (retM NextRow)) (judged p fn recs r a b) ?B"
    by (rule triple_seq [OF put(2) triple_ret]) (auto intro: judgedI assms(2))
  have full: "triple (track p fn recs a b)
      (seqM (say_error tb x) (seqM (put_row sw r (''DISK_FULL: '' @ e)) (seqM (notify_all_of tb sub e key) (retM Halt))))
      (judged p fn recs r a b) ?B" for x e sub key
    by (rule triple_seq [OF triple_stays [OF out.stays_say_error] triple_seq [OF put(6)
          triple_seq [OF triple_stays [OF out.stays_notify] triple_ret]]])
      (auto intro: brokenI(1) brokenI(2) [OF _ assms(2)] judgedI assms(2))
  have go: "triple (track p fn recs a b)
      (seqM (catchM (perform_run tb sw r rid par rps cps d) is_run_failure (record_failure tb sw r rid rps cps d)) (retM NextRow))
      (judged p fn recs r a b) ?B" for rps cps
  proof (rule triple_seq [OF triple_catch [OF perform_triple [OF assms(1-4) d]] triple_ret])
    show "triple (\<lambda>s. track p fn recs a b s \<or> \<not> is_run_failure e \<and> broken p fn recs r s)
        (record_failure tb sw r rid rps cps d e) (\<lambda>_. judged p fn recs r a b NextRow) ?B" if "is_run_failure e" for e
      by (rule triple_weaken [OF failure_triple [OF assms(1-4) d]]) (use that in auto)
  qed (auto intro: brokenI)
  have conf: "triple (track p fn recs a b)
      (bindM (configure_row tb sw r rid par rps cps) (\<lambda>ok. if \<not> ok then retM NextRow
         else seqM (catchM (perform_run tb sw r rid par rps cps d) is_run_failure (record_failure tb sw r rid rps cps d)) (retM NextRow)))
      (judged p fn recs r a b) ?B" for rps cps
  proof (rule triple_bind [OF configure_triple [OF assms(1-4)]])
    show "triple (\<lambda>s. if ok then track p fn recs a b s else judged p fn recs r a b NextRow s)
       (if \<not> ok then retM NextRow
         else seqM (catchM (perform_run tb sw r rid par rps cps d) is_run_failure (record_failure tb sw r rid rps cps d)) (retM NextRow))
      (judged p fn recs r a b) ?B" for ok
      using go by (cases ok) (simp_all add: triple_ret)
  qed
  show ?thesis
    unfolding run_row_def Let_def d_def [symmetric]
    by (rule triple_bind [OF kept_triple [OF out.stays_select]])
      (split prod.split, intro allI impI triple_if few full conf triple_get triple_bind [OF kept_triple [OF stays_free]])
qed

lemma parsed_surplus: "parse_row r = Inr par \<or> (parse_row r = Inl e \<and> is_ConfigError e) \<Longrightarrow> surplus r = []"
  by (rule ccontr)
    (auto simp: parse_row_def row_to_bench_def row_index_def cpu_cells_def bindR_def split: option.splits sum.splits)

lemma sweep_row_triple:
  assumes "row_fits fn r" "sw_fieldnames sw = fn" "file_path (sw_output sw) = p" "\<not> starts_with ''/'' (run_id_of i r)"
    and todo: "run_id_of i r \<notin> set (sw_done sw)"
  shows "triple (track p fn recs a b) (sweep_row tb sw (i, r)) (judged p fn recs r a b) (\<lambda>_. broken p fn recs r)"
proof -
  have "triple (track p fn recs a b) (case parse_row r of Inr par \<Rightarrow> run_row tb sw r (run_id_of i r) par
      | Inl e \<Rightarrow> if is_ConfigError e then
              seqM (say_error tb (BenchError (''PARAM_ERROR for '' @ run_id_of i r) e))
             (seqM (put_row sw r (''PARAM_ERROR: '' @ exn_msg e)) (retM NextRow))
            else raiseM e) (judged p fn recs r a b) (\<lambda>_. broken p fn recs r)"
  proof (cases "parse_row r")
    case (Inl e)
    show ?thesis
    proof (cases "is_ConfigError e")
      case True
      then have r: "surplus r = []" using Inl parsed_surplus by blast
      have "triple (track p fn recs a b)
          (seqM (say_error tb (BenchError (''PARAM_ERROR for '' @ run_id_of i r) e))
             (seqM (put_row sw r (''PARAM_ERROR: '' @ exn_msg e)) (retM NextRow))) (judged p fn recs r a b) (\<lambda>_. broken p fn recs r)"
        by (rule triple_seq [OF triple_stays [OF out.stays_say_error] triple_seq [OF put_rows(3) [OF assms(1) r assms(2,3)] triple_ret]])
          (auto intro: brokenI(1) judgedI r)
      then show ?thesis using Inl True by simp
    qed (auto simp: Inl intro: triple_raise brokenI)
  next
    case (Inr par)
    then have "surplus r = []" using parsed_surplus by blast
    from run_row_triple [OF assms(1) this assms(2-4)] show ?thesis using Inr by simp
  qed
  then show ?thesis
    using todo unfolding sweep_row_def Let_def prod.case
    by (simp, intro triple_seq [OF triple_stays [OF out.stays_say]]) (auto intro: brokenI)
qed

end

subsection \<open>The loop\<close>

lemma triple_ex:
  assumes "\<And>v. triple (P v) m Q E"
  shows "triple (\<lambda>s. \<exists>v. P v s) m Q E"
  unfolding triple_def
proof (intro allI impI)
  fix s assume "\<exists>v. P v s"
  then obtain v where "P v s" ..
  then show "case m s of (Inr x, t) \<Rightarrow> Q x t | (Inl e, t) \<Rightarrow> E e t" using assms [of v] by (simp add: triple_def)
qed

definition oks :: "verdict list \<Rightarrow> nat" where
  "oks vs = length (filter (\<lambda>v. v = Downloaded) vs)"

definition fails :: "verdict list \<Rightarrow> nat" where
  "fails vs = length (filter is_RunFailed vs)"

definition swept :: "path \<Rightarrow> string list \<Rightarrow> string list list \<Rightarrow> (nat \<times> row) list \<Rightarrow> nat \<Rightarrow> nat \<Rightarrow> 'r harness \<Rightarrow> bool" where
  "swept p fn recs xs a b s \<longleftrightarrow> (\<exists>vs. verdicts_for xs vs \<and> all_judged xs vs \<and> track p fn (recs @ journal fn xs vs) (a + oks vs) (b + fails vs) s)"

definition stopped :: "path \<Rightarrow> string list \<Rightarrow> string list list \<Rightarrow> (nat \<times> row) list \<Rightarrow> 'r harness \<Rightarrow> bool" where
  "stopped p fn recs xs s \<longleftrightarrow> (\<exists>vs. verdicts_for xs vs \<and> out_is p fn (recs @ journal fn xs vs) s)"

lemma verdicts_for_simps [simp]:
  "verdicts_for xs []" "verdicts_for ((i, r) # xs) [v] \<longleftrightarrow> surplus r = []"
  "\<not> is_DiskFull v \<Longrightarrow> verdicts_for ((i, r) # xs) (v # vs) \<longleftrightarrow> surplus r = [] \<and> verdicts_for xs vs"
  by (auto simp: verdicts_for_def)

lemma all_judged_simps [simp]:
  "all_judged [] []" "is_DiskFull v \<Longrightarrow> all_judged xs [v]" "\<not> is_DiskFull v \<Longrightarrow> all_judged (x # xs) (v # vs) \<longleftrightarrow> all_judged xs vs"
  by (auto simp: all_judged_def)

lemma counts_simps [simp]:
  "oks [] = 0" "fails [] = 0"
  "oks (v # vs) = (if v = Downloaded then Suc (oks vs) else oks vs)" "fails (v # vs) = (if is_RunFailed v then Suc (fails vs) else fails vs)"
  by (simp_all add: oks_def fails_def)

lemma broken_stopped: "broken p fn recs r s \<Longrightarrow> stopped p fn recs ((i, r) # xs) s"
proof -
  assume "broken p fn recs r s"
  then consider "out_is p fn recs s" | v where "surplus r = []" "out_is p fn (recs @ [row_text fn r v]) s" by (auto simp: broken_def)
  then show ?thesis
  proof cases
    case 1
    then show ?thesis unfolding stopped_def by (intro exI [of _ "[]"]) simp
  next
    case (2 v)
    then show ?thesis unfolding stopped_def by (intro exI [of _ "[v]"]) simp
  qed
qed

lemma stopped_Cons:
  assumes "\<not> is_DiskFull v" "surplus r = []" "stopped p fn (recs @ [row_text fn r v]) xs s"
  shows "stopped p fn recs ((i, r) # xs) s"
proof -
  obtain vs where "verdicts_for xs vs" "out_is p fn ((recs @ [row_text fn r v]) @ journal fn xs vs) s" using assms(3) by (auto simp: stopped_def)
  then show ?thesis unfolding stopped_def using assms(1,2) by (intro exI [of _ "v # vs"]) simp
qed

lemma swept_Cons:
  assumes "\<not> is_DiskFull v" "surplus r = []" "a' = (if v = Downloaded then Suc a else a)" "b' = (if is_RunFailed v then Suc b else b)"
    "swept p fn (recs @ [row_text fn r v]) xs a' b' s"
  shows "swept p fn recs ((i, r) # xs) a b s"
proof -
  obtain vs where vs: "verdicts_for xs vs" "all_judged xs vs"
    "track p fn ((recs @ [row_text fn r v]) @ journal fn xs vs) (a' + oks vs) (b' + fails vs) s"
    using assms(5) by (auto simp: swept_def)
  have "a' + oks vs = a + oks (v # vs)" "b' + fails vs = b + fails (v # vs)" using assms(3,4) by auto
  then show ?thesis unfolding swept_def using vs assms(1,2) by (intro exI [of _ "v # vs"]) simp
qed

lemma swept_halt:
  assumes "is_DiskFull v" "surplus r = []"
    "track p fn (recs @ [row_text fn r v]) (if v = Downloaded then Suc a else a) (if is_RunFailed v then Suc b else b) s"
  shows "swept p fn recs ((i, r) # xs) a b s"
proof -
  have "v \<noteq> Downloaded" "\<not> is_RunFailed v" using assms(1) by (cases v; simp)+
  then show ?thesis unfolding swept_def using assms by (intro exI [of _ "[v]"]) simp
qed

text \<open>The rows, the columns and the ids that the theorem is about.\<close>

definition rows_fit :: "sweep \<Rightarrow> (nat \<times> row) list \<Rightarrow> bool" where
  "rows_fit sw xs \<longleftrightarrow> (\<forall>(i, r) \<in> set xs. row_fits (sw_fieldnames sw) r \<and> \<not> starts_with ''/'' (run_id_of i r))"

context quiet_output
begin

lemma after_row:
  assumes rest: "\<And>recs a b. triple (track p fn recs a b) m (\<lambda>_. swept p fn recs ys a b) (\<lambda>_. stopped p fn recs ys)"
  shows "triple (judged p fn recs r a b ended) (case ended of Halt \<Rightarrow> retM () | NextRow \<Rightarrow> m)
    (\<lambda>_. swept p fn recs ((i, r) # ys) a b) (\<lambda>_. stopped p fn recs ((i, r) # ys))"
  unfolding judged_def
proof (rule triple_ex)
  fix v
  let ?T = "track p fn (recs @ [row_text fn r v]) (if v = Downloaded then Suc a else a) (if is_RunFailed v then Suc b else b)"
  show "triple (\<lambda>s. surplus r = [] \<and> (ended = Halt \<longleftrightarrow> is_DiskFull v) \<and> ?T s)
    (case ended of Halt \<Rightarrow> retM () | NextRow \<Rightarrow> m)
    (\<lambda>_. swept p fn recs ((i, r) # ys) a b) (\<lambda>_. stopped p fn recs ((i, r) # ys))"
  proof (cases ended)
    case NextRow
    show ?thesis
    proof (cases "is_DiskFull v")
      case True
      then show ?thesis by (simp add: triple_def NextRow)
    next
      case False
      show ?thesis
      proof (cases "surplus r = []")
        case surp: True
        show ?thesis
          by (simp only: NextRow row_end.case, rule triple_weaken [OF rest])
            (auto intro: swept_Cons [OF False surp refl refl] stopped_Cons [OF False surp])
      qed (simp add: triple_def)
    qed
  next
    case Halt
    then show ?thesis by (auto intro!: triple_ret swept_halt)
  qed
qed

lemma sweep_rows_triple:
  assumes "rows_fit sw xs" "sw_fieldnames sw = fn" "file_path (sw_output sw) = p"
  shows "triple (track p fn recs a b) (sweep_rows tb sw xs) (\<lambda>_. swept p fn recs (to_do sw xs) a b) (\<lambda>_. stopped p fn recs (to_do sw xs))"
  using assms(1)
proof (induction xs arbitrary: recs a b)
  case Nil
  have "swept p fn recs [] a b s" if "track p fn recs a b s" for s :: "'r harness"
    using that unfolding swept_def by (intro exI [of _ "[]"]) simp
  then show ?case by (auto simp: to_do_def intro: triple_ret)
next
  case (Cons x xs)
  obtain i r where x: "x = (i, r)" by fastforce
  have fits: "row_fits fn r" "\<not> starts_with ''/'' (run_id_of i r)" "rows_fit sw xs"
    using Cons.prems assms(2) by (auto simp: rows_fit_def x)
  show ?case
  proof (cases "run_id_of i r \<in> set (sw_done sw)")
    case True
    then have "sweep_row tb sw x = seqM (say (print_info (''Skipping '' @ run_id_of i r @ '' (already completed)''))) (retM NextRow)"
      "to_do sw (x # xs) = to_do sw xs"
      by (simp_all add: sweep_row_def x Let_def to_do_def)
    moreover have "stopped p fn recs ys s" if "track p fn recs a b s" for ys and s :: "'r harness"
      using that unfolding stopped_def track_def by (intro exI [of _ "[]"]) simp
    ultimately show ?thesis
      using Cons.IH [OF fits(3), of recs a b]
      by (auto simp: seqM_def bindM_assoc intro!: triple_bind [OF triple_stays [OF out.stays_say]])
  next
    case False
    then have todo: "to_do sw ((i, r) # xs) = (i, r) # to_do sw xs" by (simp add: to_do_def)
    show ?thesis
      unfolding sweep_rows.simps x todo
      by (rule triple_bind [OF triple_weaken [OF sweep_row_triple [OF fits(1) assms(2,3) fits(2) False]] after_row [OF Cons.IH [OF fits(3)]]])
        (auto intro: broken_stopped)
  qed
qed

end

lemma sweep_journal:
  assumes quiet: "quiet_testbed tb (file_path (sw_output sw))" and rows: "rows_fit sw xs"
    and old: "out_is (file_path (sw_output sw)) (sw_fieldnames sw) recs s" and run: "sweep_rows tb sw xs s = (res, t)"
  shows "\<exists>vs. verdicts_for (to_do sw xs) vs
    \<and> out_is (file_path (sw_output sw)) (sw_fieldnames sw) (recs @ journal (sw_fieldnames sw) (to_do sw xs) vs) t
    \<and> (res = Inr () \<longrightarrow> all_judged (to_do sw xs) vs \<and> hn_completed t = hn_completed s + oks vs \<and> hn_failed t = hn_failed s + fails vs)"
proof -
  have "track (file_path (sw_output sw)) (sw_fieldnames sw) recs (hn_completed s) (hn_failed s) s" using old by (simp add: track_def)
  note d = tripleD [OF quiet_output.sweep_rows_triple [OF quiet_output.intro [OF quiet] rows refl refl] this run]
  show ?thesis
  proof (cases res)
    case (Inl e)
    then show ?thesis using d by (auto simp: stopped_def)
  next
    case (Inr x)
    then show ?thesis using d by (auto simp: swept_def track_def)
  qed
qed

text \<open>C5. One record per row. Whatever the testbed does, the loop only ever appends to the output file, at most one record for
  each row that was not done before, in the order of the input; a full disk is the last verdict, and no row with surplus cells
  has a record. When the loop ends
  without an exception, every such row has its record, unless the sweep was halted by a full disk, and the two counters of
  the final message are the numbers of records DOWNLOADED and RUN_ERROR that it appended.\<close>

theorem one_record_per_row:
  assumes quiet: "quiet_testbed tb (file_path (sw_output sw))" and rows: "rows_fit sw xs"
    and old: "out_is (file_path (sw_output sw)) (sw_fieldnames sw) recs s" and run: "sweep_rows tb sw xs s = (res, t)"
  shows "\<exists>vs. verdicts_for (to_do sw xs) vs
    \<and> out_is (file_path (sw_output sw)) (sw_fieldnames sw) (recs @ journal (sw_fieldnames sw) (to_do sw xs) vs) t
    \<and> (res = Inr () \<longrightarrow> all_judged (to_do sw xs) vs \<and> hn_completed t = hn_completed s + oks vs \<and> hn_failed t = hn_failed s + fails vs)"
  by (rule sweep_journal [OF assms])

definition one_row_sweep :: sweep where
  "one_row_sweep = \<lparr>sw_input = ''in.csv'', sw_output = ''out.csv'', sw_fieldnames = out_fieldnames sweep_cols,
     sw_rows = [dict_row sweep_cols [''A'', ''4'', ''100'']], sw_done = []\<rparr>"

lemma one_row_setting:
  shows "file_path (sw_output one_row_sweep) = [''out.csv'']"
    and "quiet_testbed clock_testbed (file_path (sw_output one_row_sweep))"
    and "rows_fit one_row_sweep [(0, dict_row sweep_cols [''A'', ''4'', ''100''])]"
    and "out_is (file_path (sw_output one_row_sweep)) (out_fieldnames sweep_cols) [] (idle_harness 0)"
proof -
  show p: "file_path (sw_output one_row_sweep) = [''out.csv'']" by (simp add: one_row_sweep_def file_path_def py_split_def starts_with_def)
  have fn: "sw_fieldnames one_row_sweep = out_fieldnames sweep_cols" by (simp add: one_row_sweep_def)
  show "quiet_testbed clock_testbed (file_path (sw_output one_row_sweep))" unfolding p by (rule clock_output.quiet)
  have id: "run_id_of 0 (dict_row sweep_cols [''A'', ''4'', ''100'']) = ''A''" by code_simp
  have keys: "dict_keys (cells (dict_row sweep_cols [''A'', ''4'', ''100''])) = sweep_cols" by code_simp
  have fits: "row_fits (out_fieldnames sweep_cols) (dict_row sweep_cols [''A'', ''4'', ''100''])"
    unfolding row_fits_def keys out_fieldnames_set by blast
  show "rows_fit one_row_sweep [(0, dict_row sweep_cols [''A'', ''4'', ''100''])]" by (simp add: rows_fit_def fn fits id)
  show "out_is (file_path (sw_output one_row_sweep)) (out_fieldnames sweep_cols) [] (idle_harness 0)"
    unfolding p by (simp add: out_is_def table_place_def idle_harness_def path_isdir_def node_at_def lock_path_def tmp_path_def)
qed

lemma one_record_per_row_witness:
  "\<exists>vs. length vs \<le> 1 \<and> out_is [''out.csv''] (out_fieldnames sweep_cols)
     (journal (out_fieldnames sweep_cols) [(0, dict_row sweep_cols [''A'', ''4'', ''100''])] vs)
     (snd (sweep_rows clock_testbed one_row_sweep [(0, dict_row sweep_cols [''A'', ''4'', ''100''])] (idle_harness 0)))"
proof -
  let ?xs = "[(0 :: nat, dict_row sweep_cols [''A'', ''4'', ''100''])]"
  have fn: "sw_fieldnames one_row_sweep = out_fieldnames sweep_cols" by (simp add: one_row_sweep_def)
  obtain res t where run: "sweep_rows clock_testbed one_row_sweep ?xs (idle_harness 0) = (res, t)" by fastforce
  have todo: "to_do one_row_sweep ?xs = ?xs" by (simp add: to_do_def one_row_sweep_def)
  from one_record_per_row [OF one_row_setting(2,3) one_row_setting(4) [folded fn] run]
  show ?thesis unfolding todo one_row_setting(1) fn run by (auto simp: verdicts_for_def)
qed

subsection \<open>A row of too many cells\<close>

lemma surplus_not_parsed:
  assumes "surplus r \<noteq> []" "{''num_clients'', ''max_async''} \<subseteq> set (dict_keys (cells r))"
  shows "parse_row r = Inl (AttributeError ''NoneType object has no attribute startswith'')"
proof -
  have "dict_get (cells r) ''num_clients'' \<noteq> None" "dict_get (cells r) ''max_async'' \<noteq> None"
    using assms(2) by (auto simp only: insert_subset dict_get_in_keys)
  then show ?thesis using assms(1) by (auto simp: parse_row_def row_to_bench_def row_index_def cpu_cells_def)
qed

text \<open>C12. One bad line ends the sweep. A row with more cells than the header, as a trailing comma makes it, is not recorded
  as a PARAM_ERROR: reading its parameters raises an \<open>AttributeError\<close>, which no handler of the loop takes, so neither
  this row nor any row after it leaves a record.\<close>

theorem surplus_row_aborts:
  assumes "surplus r \<noteq> []" "{''num_clients'', ''max_async''} \<subseteq> set (dict_keys (cells r))" "run_id_of i r \<notin> set (sw_done sw)"
  shows "\<exists>t. sweep_rows tb sw ((i, r) # xs) s = (Inl (AttributeError ''NoneType object has no attribute startswith''), t)
    \<and> fs_files t = fs_files s \<and> hn_failed t = hn_failed s"
  using assms(3) surplus_not_parsed [OF assms(1,2)]
  by (simp add: sweep_row_def say_def seqM_def bindM_def M_simps)

definition wide_row :: row where
  "wide_row = \<lparr>cells = cells (dict_row sweep_cols [''A'', ''4'', ''100'']), surplus = [[]]\<rparr>"

lemma surplus_row_aborts_witness:
  "\<exists>t. sweep_rows clock_testbed one_row_sweep [(0, wide_row), (1, dict_row sweep_cols [''B'', ''4'', ''100''])] (idle_harness 0)
      = (Inl (AttributeError ''NoneType object has no attribute startswith''), t) \<and> fs_files t = []"
proof -
  have keys: "dict_keys (cells wide_row) = sweep_cols" by code_simp
  have wide: "surplus wide_row \<noteq> []" "{''num_clients'', ''max_async''} \<subseteq> set (dict_keys (cells wide_row))"
    "run_id_of 0 wide_row \<notin> set (sw_done one_row_sweep)"
    unfolding keys by (simp_all add: wide_row_def sweep_cols_def one_row_sweep_def)
  have "fs_files (idle_harness (0 :: rat)) = []" by (simp add: idle_harness_def)
  with surplus_row_aborts [OF wide, of clock_testbed "[(1, dict_row sweep_cols [''B'', ''4'', ''100''])]" "idle_harness 0"]
  show ?thesis by (auto simp del: sweep_rows.simps)
qed

end
