(* ===== verification/Remote_Sessions.thy ===== *)
theory Remote_Sessions
  imports Remote_Journal
begin

section \<open>From one session to the next (benchmark/benchmark/remote.py)\<close>

text \<open>
  A sweep that was interrupted, or that had failures, is started again with the same files. The records it left decide
  which rows the next session takes up.
\<close>

text \<open>The rows of a CSV with a column \<open>run_id\<close>, each with an id of its own.\<close>

definition named_row :: "string list \<Rightarrow> row \<Rightarrow> bool" where
  "named_row cols r \<longleftrightarrow> (\<exists>rec rid. r = dict_row cols rec \<and> length rec = length cols \<and> rid \<noteq> [] \<and> row_get r ''run_id'' = JStr rid)"

definition named_rows :: "string list \<Rightarrow> (nat \<times> row) list \<Rightarrow> bool" where
  "named_rows cols xs \<longleftrightarrow> distinct cols \<and> ''run_id'' \<in> set cols \<and> (\<forall>(i, r) \<in> set xs. named_row cols r)
     \<and> distinct (map (\<lambda>(i, r). run_id_of i r) xs)"

text \<open>What is left of the rows after their verdicts.\<close>

fun left_over :: "(nat \<times> row) list \<Rightarrow> verdict list \<Rightarrow> (nat \<times> row) list" where
  "left_over xs [] = xs"
| "left_over [] vs = []"
| "left_over (x # xs) (v # vs) = (if v = Downloaded then left_over xs vs else x # left_over xs vs)"

lemma verdict_done: "verdict_text v \<in> {''OK'', ''DOWNLOADED''} \<longleftrightarrow> v = Downloaded"
  by (cases v) auto

lemma row_text_done:
  assumes "named_row cols r" "distinct cols" "''run_id'' \<in> set cols"
  shows "completed_ids [dict_row (out_fieldnames cols) (row_text (out_fieldnames cols) r v)] = (if v = Downloaded then [run_id_of i r] else [])"
proof -
  let ?fn = "out_fieldnames cols"
  obtain rec rid where r: "r = dict_row cols rec" "length rec = length cols" "rid \<noteq> []" "row_get r ''run_id'' = JStr rid"
    using assms(1) by (auto simp: named_row_def)
  have out: "row_text ?fn r v = out_record cols rec (verdict_text v)"
    using out_row_record [OF r(2) assms(2)] by (simp add: row_text_def r(1))
  have "map_of (zip cols rec) ''run_id'' = Some rid"
    using r(1,4) dict_row_map_of [OF r(2) assms(2), of "''run_id''"]
    by (cases "map_of (zip cols rec) ''run_id''") (auto simp: row_get_def dict_get_or_def)
  then have "row_get (dict_row ?fn (row_text ?fn r v)) ''run_id'' = JStr rid"
    "row_get (dict_row ?fn (row_text ?fn r v)) ''status'' = JStr (verdict_text v)"
    using out_record_reread [OF assms(2)] assms(3) result_columns(3) by (simp_all add: out out_fieldnames_set)
  moreover have "run_id_of i r = rid" using r(3,4) by (simp add: run_id_of_def)
  ultimately show ?thesis using verdict_done [of v] r(3) by (cases "v = Downloaded") (simp_all add: completed_ids_def)
qed

lemma journal_done:
  assumes "\<forall>(i, r) \<in> set xs. named_row cols r" "distinct cols" "''run_id'' \<in> set cols" "length vs \<le> length xs"
  shows "completed_ids (map (dict_row (out_fieldnames cols)) (journal (out_fieldnames cols) xs vs))
    = map (\<lambda>((i, r), v). run_id_of i r) (filter (\<lambda>(x, v). v = Downloaded) (zip xs vs))"
  using assms(1,4)
proof (induction xs arbitrary: vs)
  case Nil
  then show ?case by (simp add: completed_ids_def)
next
  case (Cons x xs us)
  obtain i r where x: "x = (i, r)" by fastforce
  show ?case
  proof (cases us)
    case Nil
    then show ?thesis by (simp add: completed_ids_def)
  next
    case (Cons v vs)
    have "named_row cols r" using Cons.prems x by simp
    note d = row_text_done [OF this assms(2,3), of v i]
    have "\<forall>(i, r) \<in> set xs. named_row cols r" "length vs \<le> length xs" using Cons.prems Cons by simp_all
    note ih = Cons.IH [OF this]
    show ?thesis
      using completed_ids_append [of "[dict_row (out_fieldnames cols) (row_text (out_fieldnames cols) r v)]"
          "map (dict_row (out_fieldnames cols)) (journal (out_fieldnames cols) xs vs)"] d ih
      by (simp add: Cons x)
  qed
qed

lemma left_over_filter:
  assumes "distinct (map f xs)" "length vs \<le> length xs"
  shows "filter (\<lambda>x. f x \<notin> set (map (f \<circ> fst) (filter (\<lambda>(x, v). v = Downloaded) (zip xs vs)))) xs = left_over xs vs"
  using assms
proof (induction xs vs rule: left_over.induct)
  case (3 x xs v vs)
  have other: "f y \<noteq> f x" if "y \<in> set xs" for y using that 3(3) by (auto simp: image_iff)
  have new: "f x \<notin> set (map (f \<circ> fst) (filter (\<lambda>(x, v). v = Downloaded) (zip xs vs)))"
  proof
    assume "f x \<in> set (map (f \<circ> fst) (filter (\<lambda>(x, v). v = Downloaded) (zip xs vs)))"
    then obtain y where "(y, Downloaded) \<in> set (zip xs vs)" "f y = f x" by auto
    then show False using other by (metis set_zip_leftD)
  qed
  have "filter (\<lambda>y. f y \<notin> set (map (f \<circ> fst) (filter (\<lambda>(x, v). v = Downloaded) (zip (x # xs) (v # vs))))) xs
      = filter (\<lambda>y. f y \<notin> set (map (f \<circ> fst) (filter (\<lambda>(x, v). v = Downloaded) (zip xs vs)))) xs"
    using other by (intro filter_cong) auto
  moreover have "filter (\<lambda>y. f y \<notin> set (map (f \<circ> fst) (filter (\<lambda>(x, v). v = Downloaded) (zip xs vs)))) xs = left_over xs vs"
    using 3 by (cases "v = Downloaded") auto
  ultimately show ?case using new by (cases "v = Downloaded") auto
qed simp_all

lemma run_id_row: "(\<lambda>(i, r). run_id_of i r) = (\<lambda>x. run_id_of (fst x) (snd x))"
  by auto



end
