(* ===== verification/Csv_Reread.thy ===== *)
theory Csv_Reread
  imports Csv_File
begin

section \<open>Reading a table back, carriage returns included (csv_writer.py, reconciler.py)\<close>

text \<open>
  A message that goes into a cell can hold a carriage return. The writer quotes it and leaves it alone; reading translates
  the newlines of the whole text, those inside quotes too. So a record comes back with its cells translated, and a pass of
  the reconciler that writes the table makes the translation permanent. No record is split, merged or lost by it.
\<close>

subsection \<open>What the reader makes of the writer's text\<close>

abbreviation reread :: "string list \<Rightarrow> string list" where
  "reread rec \<equiv> map translate_newlines rec"

lemma translate_split:
  "t = [] \<or> hd t \<noteq> LF \<or> s = [] \<or> last s \<noteq> CR \<Longrightarrow> translate_newlines (s @ t) = translate_newlines s @ translate_newlines t"
proof (induction s rule: translate_newlines.induct)
  case (2 c)
  then show ?case by (cases t) auto
next
  case (3 c d cs)
  then show ?case by (cases "cs = []") auto
qed auto

lemma translate_Nil [simp]: "translate_newlines s = [] \<longleftrightarrow> s = []"
  by (induction s rule: translate_newlines.induct) auto

lemma translate_quotes: "translate_newlines (double_quotes f) = double_quotes (translate_newlines f)"
  by (induction f rule: translate_newlines.induct) (auto simp: double_quotes_def translate_Cons char_defs)

lemma translate_needs: "needs_quotes (translate_newlines f) = needs_quotes f"
  by (induction f rule: translate_newlines.induct) (auto simp: needs_quotes_def)

lemma last_field: "f \<noteq> [] \<Longrightarrow> last (csv_field f) \<noteq> CR"
  by (auto simp: csv_field_def needs_quotes_def char_defs dest: last_in_set)

lemma translate_field: "translate_newlines (csv_field f) = csv_field (translate_newlines f)"
proof (cases "needs_quotes f")
  case True
  have "translate_newlines (DQ # double_quotes f @ [DQ]) = DQ # double_quotes (translate_newlines f) @ [DQ]"
    using translate_split [of "[DQ]" "double_quotes f"] by (simp add: translate_Cons char_defs translate_quotes [unfolded char_defs])
  then show ?thesis using True by (simp add: csv_field_def translate_needs)
next
  case False
  then show ?thesis by (simp add: csv_field_def translate_needs)
qed

lemma translate_join: "translate_newlines (py_join '','' fs) = py_join '','' (map translate_newlines fs)"
proof (induction "'',''" fs rule: py_join.induct)
  case (3 f g fs)
  have "translate_newlines (f @ '','' @ py_join '','' (g # fs)) = translate_newlines f @ '','' @ translate_newlines (py_join '','' (g # fs))"
    using translate_split [of "'','' @ py_join '','' (g # fs)" f] by (simp add: translate_Cons char_defs)
  then show ?case using 3 by simp
qed auto

lemma translate_body: "translate_newlines (csv_body fs) = csv_body (reread fs)"
proof -
  have "map translate_newlines fs = [[]] \<longleftrightarrow> fs = [[]]" by (cases fs; cases "tl fs") auto
  then show ?thesis
    by (simp add: csv_body_def translate_join translate_field comp_def) (simp add: translate_Cons char_defs)
qed

lemma translate_any_line: "translate_newlines (csv_line fs @ t) = csv_body (reread fs) @ LF # translate_newlines t"
proof -
  have "translate_newlines (csv_body fs @ CR # LF # t) = translate_newlines (csv_body fs) @ LF # translate_newlines t"
    using translate_split [of "CR # LF # t" "csv_body fs"] by (simp add: char_defs)
  then show ?thesis by (simp add: csv_line_def csv_body_def translate_body [unfolded csv_body_def])
qed

lemma csv_reread: "(\<And>r. r \<in> set rs \<Longrightarrow> r \<noteq> []) \<Longrightarrow> csv_parse (csv_print rs) = map reread rs"
proof (induction rs)
  case Nil
  show ?case by (simp add: csv_parse_def csv_print_def)
next
  case (Cons r rs)
  then have "csv_go StartRecord [] [] (translate_newlines (csv_print rs)) = map reread rs"
    by (simp add: csv_parse_def)
  with Cons.prems [of r] show ?case
    by (simp add: csv_parse_def csv_print_def translate_any_line go_record)
qed

lemma reread_no_cr: "no_cr fs \<Longrightarrow> reread fs = fs"
  by (simp add: no_cr_def map_idI translate_id)

text \<open>The table as \<open>DictReader\<close> sees it.\<close>

definition full_records :: "string list \<Rightarrow> string list list \<Rightarrow> bool" where
  "full_records fn recs \<longleftrightarrow> (\<forall>rec \<in> set recs. length rec = length fn)"

lemma dict_reread:
  assumes "fn \<noteq> []" "no_cr fn" "full_records fn recs"
  shows "dict_reader (csv_print (fn # recs)) = (fn, map (\<lambda>rec. dict_row fn (reread rec)) recs)"
proof -
  have "rec \<noteq> []" if "rec \<in> set recs" for rec using assms(1,3) that by (auto simp: full_records_def)
  then have "csv_parse (csv_print (fn # recs)) = fn # map reread recs" "filter (\<lambda>r. r \<noteq> []) (map reread recs) = map reread recs"
    using csv_reread [of "fn # recs"] assms(1) reread_no_cr [OF assms(2)] by (auto simp: filter_id_conv)
  then show ?thesis by (simp add: dict_reader_def)
qed

text \<open>The text of a file with no carriage return has none in its cells.\<close>

lemma no_cr_simps: "no_cr []" "no_cr (x # xs) \<longleftrightarrow> CR \<notin> set x \<and> no_cr xs" "no_cr (rev xs @ [x]) \<longleftrightarrow> CR \<notin> set x \<and> no_cr xs"
  by (auto simp: no_cr_def)

lemma csv_go_no_cr:
  "CR \<notin> set cs \<Longrightarrow> CR \<notin> set f \<Longrightarrow> no_cr fs \<Longrightarrow> \<forall>rec \<in> set (csv_go st f fs cs). no_cr rec"
proof (induction st f fs cs rule: csv_go.induct)
  case (6 f fs c cs)
  then show ?case by (simp add: no_cr_simps split: if_splits)
qed (simp_all add: no_cr_simps char_defs split: if_splits)

lemma dict_reader_no_cr:
  assumes "dict_reader body = (fn, rows)"
  shows "no_cr fn"
proof -
  have "\<forall>rec \<in> set (csv_parse body). no_cr rec"
    unfolding csv_parse_def by (rule csv_go_no_cr) (simp_all add: translate_no_cr no_cr_simps)
  then show ?thesis using assms by (auto simp: dict_reader_def no_cr_simps split: list.splits)
qed

subsection \<open>What a pass leaves of the records\<close>

text \<open>A record whose status is final, and tables that only grew: the old records are still there, at their places, and the final
  ones are what they were.\<close>

definition is_final :: "string list \<Rightarrow> string list \<Rightarrow> bool" where
  "is_final fn rec \<longleftrightarrow> map_of (zip fn (reread rec)) ''status'' = Some ''OK''"

definition grown :: "string list \<Rightarrow> string list list \<Rightarrow> string list list \<Rightarrow> bool" where
  "grown fn olds recs \<longleftrightarrow> length olds \<le> length recs \<and> (\<forall>i < length olds. is_final fn (olds ! i) \<longrightarrow> reread (recs ! i) = reread (olds ! i))"

lemma grown_refl: "grown fn recs recs"
  by (simp add: grown_def)

lemma grown_trans: "grown fn a b \<Longrightarrow> grown fn b c \<Longrightarrow> grown fn a c"
  unfolding grown_def is_final_def by (intro conjI allI impI; elim conjE) (linarith, simp)

lemma grown_append: "grown fn recs (recs @ news)"
  by (simp add: grown_def nth_append)

text \<open>The rows during a pass: as many, with no key that is not a column, and the finished ones untouched.\<close>

definition writable :: "string list \<Rightarrow> row \<Rightarrow> bool" where
  "writable fn r \<longleftrightarrow> surplus r = [] \<and> set (dict_keys (cells r)) \<subseteq> set fn"

definition rows_kept :: "string list \<Rightarrow> row list \<Rightarrow> row list \<Rightarrow> bool" where
  "rows_kept fn rows rows' \<longleftrightarrow> length rows' = length rows \<and> (\<forall>r \<in> set rows'. writable fn r)
     \<and> (\<forall>i < length rows. row_get (rows ! i) ''status'' = JStr ''OK'' \<longrightarrow> rows' ! i = rows ! i)"

lemma row_step_writable:
  assumes "writable fn r" "''status'' \<in> set fn" "row_step fn d s e r = Inr (Some r')"
  shows "writable fn r' \<and> row_get r ''status'' \<noteq> JStr ''OK''"
proof -
  have keys: "set (dict_keys (cells (row_set ''status'' v q))) \<subseteq> set fn" if "set (dict_keys (cells q)) \<subseteq> set fn" for v q
    using that assms(2) unfolding row_set_keys by blast
  have "writable fn (fold_metrics fn ms r)" for ms
    using assms(1) fold_set_keys [of r fn ms] fold_set_surplus [of fn ms r] unfolding writable_def fold_metrics_def
    by (intro conjI keys) simp_all
  moreover have "writable fn (row_set ''status'' v r)" for v
    using assms(1) unfolding writable_def by (intro conjI keys) simp_all
  ultimately show ?thesis
    using assms(3)
    by (auto simp: row_step_def Let_def bindR_Inr_iff str_of_OK split: option.splits node.splits jval.splits if_splits)
qed

lemma entry_step_kept:
  assumes "rows_kept fn rows0 rows" "''status'' \<in> set fn" "entry_step fn d (rows_by_id rows0) s (rows, n) e = Inr (rows', n')"
  shows "rows_kept fn rows0 rows'"
proof (cases "if path_isdir (d @ [e]) s then dict_get (rows_by_id rows0) e else None")
  case None
  then show ?thesis using assms by (simp add: entry_step_def)
next
  case (Some i)
  have i: "i < length rows" using Some rows_by_id_SomeD [of rows0 e i] assms(1) by (auto simp: rows_kept_def split: if_splits)
  obtain ro where ro: "row_step fn d s e (rows ! i) = Inr ro" "(rows', n') = (case ro of None \<Rightarrow> (rows, n) | Some r' \<Rightarrow> (rows[i := r'], Suc n))"
    using assms(3) Some by (auto simp: entry_step_def bindR_Inr_iff)
  show ?thesis
  proof (cases ro)
    case None
    then show ?thesis using ro assms(1) by simp
  next
    case r': (Some r')
    have "writable fn (rows ! i)" using assms(1) i by (simp add: rows_kept_def)
    note w = row_step_writable [OF this assms(2) ro(1) [unfolded r']]
    have "\<not> row_get (rows0 ! i) ''status'' = JStr ''OK''"
      using w assms(1) i by (auto simp: rows_kept_def)
    moreover have "\<forall>r \<in> set (rows[i := r']). writable fn r"
      using w assms(1) set_update_subset_insert [of rows i r'] unfolding rows_kept_def by blast
    ultimately show ?thesis using ro(2) assms(1) using i by (auto simp: r' rows_kept_def nth_list_update)
  qed
qed

lemma fold_kept:
  assumes "foldR (entry_step fn d (rows_by_id rows0) s) (rows, n) es = Inr (rows', n')" "rows_kept fn rows0 rows" "''status'' \<in> set fn"
  shows "rows_kept fn rows0 rows'"
  using assms(1,2)
proof (induction es arbitrary: rows n)
  case (Cons e es)
  then obtain rows1 n1 where "entry_step fn d (rows_by_id rows0) s (rows, n) e = Inr (rows1, n1)"
    "foldR (entry_step fn d (rows_by_id rows0) s) (rows1, n1) es = Inr (rows', n')"
    by (auto simp: bindR_Inr_iff)
  then show ?case using Cons.IH entry_step_kept [OF Cons.prems(2) assms(3)] by blast
qed simp

subsection \<open>A pass over any table\<close>

lemma row_record_writable: "writable fn r \<Longrightarrow> row_record fn r = Inr (map (written r) fn)"
proof -
  have "csv_cell (dict_get_or (cells r) k (JStr [])) = written r k" for k
    by (simp add: written_def row_get_def dict_get_or_def split: option.splits)
  then show "writable fn r \<Longrightarrow> row_record fn r = Inr (map (written r) fn)" by (simp add: row_record_def writable_def)
qed

lemma written_back:
  assumes "length rec = length fn" "distinct fn"
  shows "map (written (dict_row fn rec)) fn = rec"
  by (rule nth_equalityI) (simp_all add: assms written_def row_get_def dict_get_or_def dict_row_get)

lemma write_any_rows:
  assumes place: "table_place p s" and ok: "\<forall>r \<in> set rows. writable fn r"
  shows "write_rows p fn rows s = (Inr (), rewritten p fn (map (\<lambda>r. map (written r) fn) rows) s)"
proof -
  have m: "mapR (row_record fn) rows = Inr (map (\<lambda>r. map (written r) fn) rows)"
    using ok row_record_writable by (intro mapR_total) blast
  let ?t = "Text (csv_print (fn # map (\<lambda>r. map (written r) fn) rows))"
  have s: "fs_faults s = []" "\<not> path_isdir (tmp_path p) s" "path_isdir (butlast (tmp_path p)) s"
    "\<not> path_isdir p s" "p \<noteq> tmp_path p"
    using place side_paths(2,5) [of p] by (auto simp: table_place_def)
  have "write_node (tmp_path p) ?t s = (Inr (), put_node (tmp_path p) ?t s)" using s by (intro write_node_ok)
  moreover have "replace_file (tmp_path p) p (put_node (tmp_path p) ?t s) =
      (Inr (), put_node p ?t (drop_node (tmp_path p) (put_node (tmp_path p) ?t s)))"
    using s by (intro replace_file_ok) (simp_all add: path_isdir_put path_isdir_def)
  ultimately show ?thesis by (simp add: write_rows_def m seqM_def bindM_def rewritten_def)
qed

lemma reconcile_any:
  assumes place: "table_place p s" and node: "node_at p s = Some (Text (csv_print (fn # recs)))"
    and tab: "fn \<noteq> []" "no_cr fn" "full_records fn recs"
  shows "reconcile_csv p d s =
    (let L = locked p s; R = map (\<lambda>rec. dict_row fn (reread rec)) recs in
     if R = [] \<or> \<not> path_isdir d L then (Inr 0, L)
     else case foldR (entry_step fn d (rows_by_id R) L) (R, 0) (sort (names_in d L)) of
       Inl e \<Rightarrow> (Inl e, L)
     | Inr (rows', n) \<Rightarrow> if n = 0 then (Inr 0, L) else seqM (write_rows p fn rows') (retM n) L)"
proof -
  have p: "p \<noteq> lock_path p" using place side_paths(1) [of p] by (auto simp: table_place_def)
  have L: "fs_faults (locked p s) = []" "node_at p (locked p s) = Some (Text (csv_print (fn # recs)))"
    using locked_place [OF place] node by (simp_all add: table_place_def node_at_locked [OF p])
  have fold: "foldM (reconcile_entry fn d by_id) acc es (locked p s) = (foldR (entry_step fn d by_id (locked p s)) acc es, locked p s)"
    for by_id acc es by (rule foldM_pure) (rule reconcile_entry_ok [OF L(1)])
  have "path_exists p s" using node by (simp add: path_exists_def)
  then show ?thesis
    unfolding reconcile_csv_def csv_lock_ok [OF place]
    by (simp add: csv_lock_ok [OF place] bindM_def [of "read_text p"] read_text_ok [OF L] dict_reread [OF tab] sorted_listdir_def Let_def
        retM_def bindM_def [of "foldM _ _ _"] fold split: sum.splits prod.splits)
qed

lemma reconcile_grows:
  assumes place: "table_place p s" and node: "node_at p s = Some (Text (csv_print (fn # recs)))"
    and tab: "distinct fn" "no_cr fn" "full_records fn recs" and st: "''status'' \<in> set fn"
    and run: "reconcile_csv p d s = (res, t)"
  shows "\<exists>recs'. table_place p t \<and> node_at p t = Some (Text (csv_print (fn # recs'))) \<and> full_records fn recs'
    \<and> length recs' = length recs \<and> grown fn recs recs'"
proof -
  let ?L = "locked p s" and ?R = "map (\<lambda>rec. dict_row fn (reread rec)) recs"
  have "p \<noteq> lock_path p" using place side_paths [of p] by (auto simp: table_place_def)
  then have L: "table_place p ?L" "node_at p ?L = Some (Text (csv_print (fn # recs)))"
    using locked_place [OF place] node by (simp_all add: node_at_locked)
  have fn: "fn \<noteq> []" using st by auto
  note pass = run [unfolded reconcile_any [OF place node fn tab(2,3)] Let_def]
  show ?thesis
  proof (cases "t = ?L")
    case True
    then show ?thesis using L tab(3) grown_refl by blast
  next
    case False
    then obtain rows k where fold: "foldR (entry_step fn d (rows_by_id ?R) ?L) (?R, 0) (sort (names_in d ?L)) = Inr (rows, k)"
      "seqM (write_rows p fn rows) (retM k) ?L = (res, t)"
      using pass by (auto split: if_splits sum.splits prod.splits)
    have len: "length (recs ! i) = length fn" if "i < length recs" for i using tab(3) that by (simp add: full_records_def)
    have "rows_kept fn ?R ?R" using dict_row_keys tab(3) by (auto simp: rows_kept_def writable_def full_records_def)
    note kept = fold_kept [OF fold(1) this st, unfolded rows_kept_def]
    define recs' where "recs' = map (\<lambda>r. map (written r) fn) rows"
    have t: "t = rewritten p fn recs' ?L"
      using fold(2) kept by (simp add: seqM_def bindM_def write_any_rows [OF L(1)] retM_def recs'_def)
    have "reread (recs' ! i) = reread (recs ! i)" if "i < length recs" "is_final fn (recs ! i)" for i
    proof -
      have "row_get (?R ! i) ''status'' = JStr ''OK''"
      proof -
        obtain j where j: "j < length fn" "fn ! j = ''status''" using st by (meson in_set_conv_nth)
        then have "map_of (zip fn (reread (recs ! i))) ''status'' = Some (reread (recs ! i) ! j)"
          using len that tab(1) map_of_zip_nth [of fn "reread (recs ! i)" j] by simp
        then show ?thesis using that len j tab(1) dict_row_get [of "reread (recs ! i)" fn j] by (simp add: is_final_def row_get_def dict_get_or_def)
      qed
      then have "rows ! i = ?R ! i" "i < length rows" using kept that by auto
      then have "recs' ! i = reread (recs ! i)"
        using that(1) written_back [of "reread (recs ! i)" fn] len tab(1) by (simp add: recs'_def)
      then show ?thesis by (simp add: comp_def)
    qed
    then have "grown fn recs recs'" "length recs' = length recs" using kept by (simp_all add: grown_def recs'_def)
    moreover have "full_records fn recs'" by (simp add: full_records_def recs'_def)
    ultimately show ?thesis using rewritten_facts(1,2) [OF place, of fn recs'] unfolding t by blast
  qed
qed

end
