(* ===== verification/Remote_Whole.thy ===== *)
theory Remote_Whole
  imports Remote_Sessions Csv_Reread
begin

section \<open>A whole session and its output file (benchmark/benchmark/remote.py, run_from_csv)\<close>

text \<open>
  \<open>run_from_csv\<close> from its first line to its last: the update of the hosts, the reconciliation at the start, the loop over
  the rows, the interruption by the user, the final reconciliation. Whatever way it ends, the output file has kept its
  records.
\<close>

subsection \<open>The output file, by what it has kept\<close>

definition tabled :: "path \<Rightarrow> string list \<Rightarrow> string list list \<Rightarrow> nat set \<Rightarrow> 'z fs_scheme \<Rightarrow> bool" where
  "tabled p fn olds N s \<longleftrightarrow> (\<exists>recs. out_is p fn recs s \<and> full_records fn recs \<and> grown fn olds recs \<and> length recs \<in> N)"

lemma tabled_stays:
  assumes "\<And>recs. stays (out_is p fn recs) m"
  shows "stays (tabled p fn olds N) m"
  using assms unfolding stays_def tabled_def by blast

lemma dict_row_keys_sub: "set (dict_keys (cells (dict_row fn rec))) \<subseteq> set fn"
proof
  fix k assume "k \<in> set (dict_keys (cells (dict_row fn rec)))"
  then have "k \<in> fst ` set (map (\<lambda>k. (k, JNull)) (drop (length rec) fn)) \<union> fst ` set (map (\<lambda>(k, v). (k, JStr v)) (zip fn rec))"
    unfolding dict_row_def row.simps dict_keys_update_set by (simp add: disj_commute)
  then show "k \<in> set fn" by (auto dest: in_set_dropD set_zip_leftD)
qed

lemma read_rows_fit:
  assumes "dict_reader body = (cols, rows)" "r \<in> set rows"
  shows "row_fits (out_fieldnames cols) r"
proof -
  obtain rec where "r = dict_row cols rec" using assms by (auto simp: dict_reader_def split: list.splits)
  then show ?thesis using dict_row_keys_sub [of cols rec] by (auto simp: row_fits_def out_fieldnames_set)
qed

lemma journal_full:
  assumes "\<forall>(i, r) \<in> set xs. row_fits fn r" "verdicts_for xs vs"
  shows "full_records fn (journal fn xs vs)" "length (journal fn xs vs) \<le> length xs"
proof -
  have "length (row_text fn r v) = length fn" if "((i, r), v) \<in> set (zip xs vs)" for i r v
  proof -
    from that obtain k where "k < length (zip xs vs)" "zip xs vs ! k = ((i, r), v)" by (meson in_set_conv_nth)
    then have k: "k < length xs" "k < length vs" "xs ! k = (i, r)" by simp_all
    have "take (length vs) xs ! k = (i, r)" "k < length (take (length vs) xs)" using k by simp_all
    then have "(i, r) \<in> set (take (length vs) xs)" by (metis nth_mem)
    moreover have "(i, r) \<in> set xs" using k by (metis nth_mem)
    ultimately have "row_fits fn r" "surplus r = []" using assms by (auto simp: verdicts_for_def)
    from row_text_record [OF this, of v] show ?thesis by (auto simp: row_record_def simp del: surj_pair split: if_splits dest: sym)
  qed
  then show "full_records fn (journal fn xs vs)" unfolding full_records_def journal_def by auto
  show "length (journal fn xs vs) \<le> length xs" by (simp add: journal_def)
qed

subsection \<open>Reconciling\<close>

lemma out_is_locked: "out_is p fn recs s \<Longrightarrow> out_is p fn recs (locked p s)"
  using side_paths [of p] locked_place [of p s] by (auto simp: out_is_def table_place_def node_at_locked)

lemma reconcile_empty:
  assumes "table_place p s" "node_at p s = None \<or> node_at p s = Some (Text [])"
  shows "snd (reconcile_csv p d s) = s \<or> snd (reconcile_csv p d s) = locked p s"
proof (cases "node_at p s")
  case None
  moreover have "p \<noteq> []" using assms(1) by (simp add: table_place_def)
  ultimately show ?thesis by (simp add: reconcile_csv_def path_exists_def retM_def)
next
  case (Some n)
  have p: "p \<noteq> lock_path p" using assms(1) side_paths(1) [of p] by (auto simp: table_place_def)
  have L: "fs_faults (locked p s) = []" "node_at p (locked p s) = Some (Text [])"
    using locked_place [OF assms(1)] assms(2) Some by (simp_all add: table_place_def node_at_locked [OF p])
  show ?thesis
    using Some assms(2) unfolding reconcile_csv_def csv_lock_ok [OF assms(1)]
    by (simp add: path_exists_def csv_lock_ok [OF assms(1)] bindM_def [of "read_text p"] read_text_ok [OF L] dict_reader_def csv_parse_def retM_def)
qed

lemma reconcile_tabled:
  assumes "distinct fn" "no_cr fn" "''status'' \<in> set fn"
  shows "stays (tabled p fn olds N) (reconcile_csv p d)"
  unfolding stays_def
proof (intro allI impI)
  fix s :: "'a fs_scheme" assume "tabled p fn olds N s"
  then obtain recs where r: "out_is p fn recs s" "full_records fn recs" "grown fn olds recs" "length recs \<in> N" by (auto simp: tabled_def)
  obtain res t where run: "reconcile_csv p d s = (res, t)" by fastforce
  have place: "table_place p s" using r(1) by (simp add: out_is_def)
  show "tabled p fn olds N (snd (reconcile_csv p d s))"
  proof (cases "node_at p s = Some (Text (csv_print (fn # recs)))")
    case True
    from reconcile_grows [OF place True assms(1,2) r(2) assms(3) run] obtain recs' where
      "table_place p t" "node_at p t = Some (Text (csv_print (fn # recs')))" "full_records fn recs'" "length recs' = length recs" "grown fn recs recs'"
      by blast
    then show ?thesis using r(3,4) grown_trans [OF r(3)] unfolding run tabled_def out_is_def by auto
  next
    case False
    then have "snd (reconcile_csv p d s) = s \<or> snd (reconcile_csv p d s) = locked p s"
      using r(1) by (intro reconcile_empty [OF place]) (auto simp: out_is_def)
    then show ?thesis using r out_is_locked [OF r(1)] unfolding tabled_def by metis
  qed
qed

subsection \<open>The statements of a session\<close>

context quiet_output
begin

lemmas session_steps = keeps_run.stays_say [OF output_kept] keeps_run.stays_notify [OF output_kept]

lemma tabled_say: "stays (tabled p fn olds N) (say t :: ('r harness, unit) M)" "stays (tabled p fn olds N) (notify_all_of tb subject body key)"
  by (intro tabled_stays session_steps)+

lemma tabled_read: "stays (tabled p fn olds N) (read_text q)"
  unfolding read_text_def by (intro tabled_stays stays_rules out_is_files)

lemma tabled_update: "stays (tabled p fn olds N) (initial_update tb pl su)"
  unfolding initial_update_def update_all_def Let_def
  by (intro tabled_stays stays_rules session_steps keeps_run.stays_with_retry [OF output_kept] keeps_run.stays_group [OF output_kept]) simp

lemma tabled_zero: "stays (tabled p fn olds N) (modifyM (\<lambda>s. s\<lparr>hn_completed := 0, hn_failed := 0\<rparr>))"
  by (rule stays_modify) (auto simp: tabled_def out_is_def table_place_def path_isdir_def node_at_def)

end

locale quiet_session = quiet_output tb p fn for tb :: "'r testbed" and p and fn +
  fixes out :: string
  assumes place: "file_path out = p" and columns: "distinct fn" "no_cr fn" "''status'' \<in> set fn"
begin

lemma tabled_reconcile: "stays (tabled p fn olds N) (reconcile_or_warn w out :: ('r harness, unit) M)"
  unfolding reconcile_or_warn_def reconcile_output_def place
  by (intro stays_rules reconcile_tabled columns tabled_say)

lemma tabled_find: "stays (tabled p fn olds N) (find_completed out :: ('r harness, string list) M)"
  unfolding find_completed_def Let_def by (intro stays_rules tabled_reconcile tabled_read tabled_say)

lemma tabled_sweep:
  assumes "rows_fit sw xs" "sw_fieldnames sw = fn" "sw_output sw = out"
  shows "triple (tabled p fn olds {n}) (sweep_rows tb sw xs) (\<lambda>_. tabled p fn olds {n..n + length xs}) (\<lambda>_. tabled p fn olds {n..n + length xs})"
  unfolding triple_def
proof (intro allI impI)
  fix s :: "'r harness" assume "tabled p fn olds {n} s"
  then obtain recs where r: "out_is p fn recs s" "full_records fn recs" "grown fn olds recs" "length recs = n" by (auto simp: tabled_def)
  obtain res t where run: "sweep_rows tb sw xs s = (res, t)" by fastforce
  have p: "file_path (sw_output sw) = p" by (simp add: assms(3) place)
  obtain vs where vs: "verdicts_for (to_do sw xs) vs" "out_is p fn (recs @ journal fn (to_do sw xs) vs) t"
    using sweep_journal [OF _ assms(1) _ run] quiet r(1) unfolding p assms(2) by blast
  have "\<forall>(i, r) \<in> set (to_do sw xs). row_fits fn r" using assms(1,2) by (auto simp: rows_fit_def to_do_def)
  note j = journal_full [OF this vs(1)]
  have "length (to_do sw xs) \<le> length xs" by (simp add: to_do_def)
  then have "tabled p fn olds {n..n + length xs} t"
    using vs(2) j r(2-4) grown_trans [OF r(3) grown_append] unfolding tabled_def
    by (intro exI [of _ "recs @ journal fn (to_do sw xs) vs"]) (auto simp: full_records_def)
  then show "case sweep_rows tb sw xs s of (Inr x, t) \<Rightarrow> tabled p fn olds {n..n + length xs} t | (Inl e, t) \<Rightarrow> tabled p fn olds {n..n + length xs} t"
    by (simp add: run split: sum.split)
qed

text \<open>From the first line to the last.\<close>

lemma tabled_run:
  assumes input: "node_at (file_path i) s = Some (Text body)" "dict_reader body = (cols, rows)" "fn = out_fieldnames cols"
    and ids: "\<forall>(k, r) \<in> set (enumerate 0 rows). \<not> starts_with ''/'' (run_id_of k r)"
    and old: "tabled p fn olds {n} s"
  shows "tabled p fn olds {n..n + length rows} (snd (run_from_csv tb i out pl su s))"
proof -
  let ?T = "tabled p fn olds {n} :: 'r harness \<Rightarrow> bool" and ?U = "tabled p fn olds {n..n + length rows} :: 'r harness \<Rightarrow> bool"
  have sub: "?U t" if "?T t" for t using that by (force simp: tabled_def)
  have keep: "triple ?T m (\<lambda>_. ?T) (\<lambda>_. ?U)" if "stays ?T m" for m :: "('r harness, 'b) M"
    by (rule triple_stays [OF that]) (rule sub)
  have late: "triple ?U m (\<lambda>_. ?U) (\<lambda>_. ?U)" if "stays ?U m" for m :: "('r harness, 'b) M"
    by (rule triple_stays [OF that])
  have fits: "rows_fit sw (enumerate 0 rows)" if "sw_fieldnames sw = fn" for sw
    using ids read_rows_fit [OF input(2)] that input(3) by (auto simp: rows_fit_def in_set_enumerate_eq)
  define sw where "sw d = \<lparr>sw_input = i, sw_output = out, sw_fieldnames = out_fieldnames cols, sw_rows = rows, sw_done = d\<rparr>" for d
  have loop: "triple ?T (catchM (sweep_rows tb (sw d) (enumerate 0 rows)) is_KeyboardInterrupt
      (\<lambda>e. bindM (getM (progress_text (sw d))) (\<lambda>p. seqM (notify_all_of tb x p k) (raiseM e)))) (\<lambda>_. ?U) (\<lambda>_. ?U)" for d x k
  proof (rule triple_catch)
    show "triple ?T (sweep_rows tb (sw d) (enumerate 0 rows)) (\<lambda>_. ?U) (\<lambda>_. ?U)"
      using tabled_sweep [OF fits, of "sw d"] by (simp add: sw_def input(3))
    show "triple ?U (bindM (getM (progress_text (sw d))) (\<lambda>p. seqM (notify_all_of tb x p k) (raiseM e))) (\<lambda>_. ?U) (\<lambda>_. ?U)" for e
      by (rule late) (intro stays_rules tabled_say)
  qed
  have after: "triple ?U (seqM (reconcile_or_warn w out) (seqM (say a) (bindM (getM g) (\<lambda>(ok, bad). notify_all_of tb (x ok bad) (y ok bad) k))))
      (\<lambda>_. ?U) (\<lambda>_. ?U)" for w a k x y and g :: "'r harness \<Rightarrow> nat \<times> nat"
    by (rule late) (auto intro!: stays_rules tabled_reconcile tabled_say split: prod.split)
  have whole: "triple (\<lambda>t. ?T t \<and> node_at (file_path i) t = Some (Text body)) (run_from_csv tb i out pl su) (\<lambda>_. ?U) (\<lambda>_. ?U)"
  proof -
    have first: "triple (\<lambda>t. ?T t \<and> node_at (file_path i) t = Some (Text body)) (say x)
        (\<lambda>_ t. ?T t \<and> node_at (file_path i) t = Some (Text body)) (\<lambda>_. ?U)" for x
      using tabled_say(1) [of olds "{n}" x] by (simp add: triple_def stays_def say_def M_simps node_at_def)
    have read: "triple (\<lambda>t. ?T t \<and> node_at (file_path i) t = Some (Text body)) (read_text (file_path i))
        (\<lambda>x t. ?T t \<and> x = translate_newlines body) (\<lambda>_. ?U)"
      by (auto simp: triple_def read_text_ok tabled_def out_is_def table_place_def)
    have lift: "stays ?T (liftR b)" for b :: "'c res" by (simp add: stays_def liftR_def)
    have told: "triple ?T (say x) (\<lambda>_. ?U) (\<lambda>_. ?U)" for x
      by (rule triple_weaken [OF keep [OF tabled_say(1)]]) (auto intro: sub)
    have rest: "triple ?T (if rows = [] then say a else bindM (liftR b) (\<lambda>x. seqM (initial_update tb pl su) (bindM (find_completed out) (f x))))
       (\<lambda>_. ?U) (\<lambda>_. ?U)" if "\<And>x d. triple ?T (f x d) (\<lambda>_. ?U) (\<lambda>_. ?U)" for a f and b :: "'c res"
      by (intro triple_if told triple_bind [OF keep [OF lift]] triple_seq [OF keep [OF tabled_update]]
          triple_bind [OF keep [OF tabled_find]] that)
    show ?thesis
      unfolding run_from_csv_def
    proof (rule triple_seq [OF first triple_bind [OF read]], goal_cases)
      case (1 x)
      show ?case
      proof (cases "x = translate_newlines body")
        case True
        show ?thesis
          unfolding True dict_reader_translated input(2) Let_def prod.case
          by (simp only: simp_thms, intro rest triple_seq [OF keep [OF tabled_zero]] triple_seq [OF keep [OF tabled_say(2)]]
              triple_seq [OF loop [unfolded sw_def]] after)
      qed (simp add: triple_def)
    qed
  qed
  obtain res t where run: "run_from_csv tb i out pl su s = (res, t)" by fastforce
  have "?U t" using tripleD [OF whole _ run] old input(1) by (cases res) auto
  then show ?thesis by (simp add: run)
qed

end

lemma session_setting:
  assumes "quiet_testbed tb (file_path out)" "dict_reader body = (cols, rows)" "distinct cols"
  shows "quiet_session tb (file_path out) (out_fieldnames cols) out"
proof (rule quiet_session.intro [OF quiet_output.intro [OF assms(1)] quiet_session_axioms.intro])
  show "''status'' \<in> set (out_fieldnames cols)" using result_columns(3) by (simp add: out_fieldnames_set)
qed (use out_fieldnames_ok assms(3) dict_reader_no_cr [OF assms(2)] in auto)


lemma sweep_cols_ok: "distinct sweep_cols" "no_cr sweep_cols" "sweep_cols \<noteq> []"
  by (simp_all add: sweep_cols_def no_cr_def CR_def)

interpretation clock_session: quiet_session clock_testbed "[''out.csv'']" "out_fieldnames sweep_cols" "''out.csv''"
proof
  show "file_path ''out.csv'' = [''out.csv'']" by code_simp
qed (simp_all add: out_fieldnames_ok sweep_cols_ok out_fieldnames_set result_columns(3))

text \<open>A session over one row, with a finished record and a failed one in the output.\<close>

definition old_results :: "string list list" where
  "old_results = [out_record sweep_cols [''Z'', ''4'', ''100''] ''OK'', out_record sweep_cols [''A'', ''4'', ''100''] ''RUN_ERROR: x'']"

definition session_harness :: "rat harness" where
  "session_harness = (idle_harness 0)\<lparr>fs_files := [([''in.csv''], Text (csv_print [sweep_cols, [''A'', ''4'', ''100'']])),
     ([''out.csv''], Text (csv_print (out_fieldnames sweep_cols # old_results)))]\<rparr>"


end
