(* ===== verification/Compute_Sampler.thy ===== *)
theory Compute_Sampler
  imports Effects PyStr "HOL-Library.Char_ord" "HOL-Library.List_Lexorder"
begin

section \<open>The sampler of compute counters (benchmark/benchmark/compute_sampler.py)\<close>

text \<open>
  The program that runs on a host during a benchmark and prints the counters of the kernel once in an interval. The
  kernel is a parameter: every read of a file, listing of a directory and look at a clock is an operation of its own on
  the state of the world, so processes may appear and vanish between any two of them. A read is \<open>None\<close> where the code
  gets an \<open>OSError\<close>.
\<close>

subsection \<open>The kernel\<close>

record 'w kernel =
  k_read :: "string \<Rightarrow> 'w \<Rightarrow> string option \<times> 'w"
  k_list :: "string \<Rightarrow> 'w \<Rightarrow> string list option \<times> 'w"
  k_wall :: "'w \<Rightarrow> rat \<times> 'w"
  k_now :: "'w \<Rightarrow> rat \<times> 'w"
  k_sleep :: "rat \<Rightarrow> 'w \<Rightarrow> 'w"
  k_pid :: nat
  k_clk_tck :: int
  k_ncpu :: "int option"

text \<open>An operation of the kernel as a computation.\<close>

definition ask :: "('w \<Rightarrow> 'a \<times> 'w) \<Rightarrow> ('w, 'a) M" where
  "ask f = (\<lambda>w. case f w of (x, w') \<Rightarrow> (Inr x, w'))"

subsection \<open>Parsing the counters\<close>

text \<open>\<open>text.rsplit(')', 1)[1]\<close>; without the character there is only one part.\<close>

definition after_last :: "char \<Rightarrow> string \<Rightarrow> string res" where
  "after_last c t = (if c \<in> set t then Inr (rev (takeWhile (\<lambda>x. x \<noteq> c) (rev t))) else Inl (IndexError ''list index out of range''))"

definition stat_ticks :: "string \<Rightarrow> int res" where
  "stat_ticks t =
     bindR (after_last (CHR '')'') t) (\<lambda>u. let rest = py_words u in
     bindR (bindR (py_index rest 11) (\<lambda>x. py_int (PStr x))) (\<lambda>utime.
     bindR (bindR (py_index rest 12) (\<lambda>x. py_int (PStr x))) (\<lambda>stime.
     Inr (utime + stime))))"

definition status_line :: "(string, jval) dict \<Rightarrow> string \<Rightarrow> (string, jval) dict res" where
  "status_line out line =
     (let (k, v) = py_partition (CHR '':'') line in
      if k = ''voluntary_ctxt_switches'' then bindR (py_int (PStr v)) (\<lambda>n. Inr (dict_set ''vcs'' (JInt n) out))
      else if k = ''nonvoluntary_ctxt_switches'' then bindR (py_int (PStr v)) (\<lambda>n. Inr (dict_set ''nvcs'' (JInt n) out))
      else if k = ''VmRSS'' then
        bindR (bindR (py_index (py_words v) 0) (\<lambda>x. py_int (PStr x))) (\<lambda>n. Inr (dict_set ''rss_kb'' (JInt n) out))
      else if k = ''Cpus_allowed_list'' then Inr (dict_set ''cpus'' (JStr (py_strip v)) out)
      else Inr out)"

text \<open>\<open>cmd.replace('\\0', ' ').strip() if cmd else None\<close>.\<close>

definition cmdline_of :: "string option \<Rightarrow> jval" where
  "cmdline_of cmd = (case cmd of None \<Rightarrow> JNull
     | Some t \<Rightarrow> if t = [] then JNull else JStr (py_strip (map (\<lambda>c. if c = CHR 0x00 then CHR '' '' else c) t)))"

definition cpus_lines :: "string option \<Rightarrow> string list" where
  "cpus_lines ts =
     map (\<lambda>line. py_strip (snd (py_partition (CHR '':'') line)))
       (filter (starts_with ''Cpus_allowed_list:'') (py_splitlines (case ts of None \<Rightarrow> [] | Some t \<Rightarrow> t)))"

definition or_else :: "string option \<Rightarrow> string \<Rightarrow> string" where
  "or_else x d = (case x of None \<Rightarrow> d | Some t \<Rightarrow> if t = [] then d else t)"

definition task_path :: "string \<Rightarrow> string \<Rightarrow> string \<Rightarrow> string" where
  "task_path pid tid f = ''/proc/'' @ pid @ ''/task/'' @ tid @ ''/'' @ f"

definition proc_path :: "string \<Rightarrow> string \<Rightarrow> string" where
  "proc_path pid f = ''/proc/'' @ pid @ ''/'' @ f"

subsection \<open>One process\<close>

definition thread ::
  "'w kernel \<Rightarrow> string \<Rightarrow> (string, jval) dict \<times> string list \<Rightarrow> string \<Rightarrow> ('w, (string, jval) dict \<times> string list) M" where
  "thread k pid = (\<lambda>(threads, cpus) tid.
     bindM (ask (k_read k (task_path pid tid ''stat''))) (\<lambda>t.
     bindM (ask (k_read k (task_path pid tid ''comm''))) (\<lambda>comm.
     bindM (case t of None \<Rightarrow> retM threads
            | Some t \<Rightarrow> bindM (liftR (stat_ticks t)) (\<lambda>n. retM (dict_set tid (JList [JStr (py_strip (or_else comm ''?'')), JInt n]) threads))) (\<lambda>threads.
     bindM (ask (k_read k (task_path pid tid ''status''))) (\<lambda>ts.
     retM (threads, cpus @ cpus_lines ts))))))"

definition proc :: "'w kernel \<Rightarrow> string \<Rightarrow> ('w, (string, jval) dict option) M" where
  "proc k pid =
     bindM (ask (k_read k (proc_path pid ''stat''))) (\<lambda>stat.
     bindM (ask (k_read k (proc_path pid ''status''))) (\<lambda>status.
     case (stat, status) of
       (Some stat, Some status) \<Rightarrow>
         bindM (liftR (stat_ticks stat)) (\<lambda>n.
         bindM (liftR (foldR status_line [(''ticks'', JInt n), (''threads'', JObj [])] (py_splitlines status))) (\<lambda>out.
         bindM (ask (k_read k (proc_path pid ''cmdline''))) (\<lambda>cmd.
         bindM (ask (k_list k (proc_path pid ''task''))) (\<lambda>tids.
         bindM (foldM (thread k pid) ([], []) (case tids of None \<Rightarrow> [] | Some ts \<Rightarrow> ts)) (\<lambda>(threads, cpus).
         retM (Some (dict_set ''thread_cpus'' (JList (map JStr (sort (remdups cpus))))
           (dict_set ''threads'' (JObj threads) (dict_set ''cmdline'' (cmdline_of cmd) out)))))))))
     | _ \<Rightarrow> retM None))"

subsection \<open>The host\<close>

definition psi_line :: "(string, jval) dict \<Rightarrow> string \<Rightarrow> (string, jval) dict res" where
  "psi_line out line =
     bindR (py_index (py_words line) 0) (\<lambda>kind.
     case filter (starts_with ''total='') (py_words line) of
       [] \<Rightarrow> Inr out
     | f # fs \<Rightarrow> bindR (bindR (py_index (py_split (CHR ''='') f) 1) (\<lambda>x. py_int (PStr x))) (\<lambda>n. Inr (dict_set kind (JInt n) out)))"

definition psi :: "'w kernel \<Rightarrow> ('w, jval) M" where
  "psi k =
     bindM (ask (k_read k ''/proc/pressure/cpu'')) (\<lambda>t.
     bindM (liftR (foldR psi_line [] (py_splitlines (or_else t [])))) (\<lambda>out. retM (JObj out)))"

definition host_cpu_of :: "string \<Rightarrow> int list res" where
  "host_cpu_of t =
     (if t = [] then Inr []
      else bindR (py_index (py_splitlines t) 0) (\<lambda>line. let first = py_words line in
        if first \<noteq> [] \<and> hd first = ''cpu'' then mapR (\<lambda>x. py_int (PStr x)) (take 8 (drop 1 first)) else Inr []))"

definition host_cpu :: "'w kernel \<Rightarrow> ('w, jval) M" where
  "host_cpu k =
     bindM (ask (k_read k ''/proc/stat'')) (\<lambda>t. bindM (liftR (host_cpu_of (or_else t []))) (\<lambda>xs. retM (JList (map JInt xs))))"

definition RAPL :: string where
  "RAPL = ''/sys/class/powercap/intel-rapl:0''"

text \<open>\<open>int(x) if x else None\<close>.\<close>

definition int_or_null :: "string option \<Rightarrow> jval res" where
  "int_or_null x = (if or_else x [] = [] then Inr JNull else bindR (py_int (PStr (or_else x []))) (\<lambda>n. Inr (JInt n)))"

definition is_pid :: "string \<Rightarrow> bool" where
  "is_pid s \<longleftrightarrow> s \<noteq> [] \<and> list_all is_digit s"

definition sample_pid :: "'w kernel \<Rightarrow> string set \<Rightarrow> (string, jval) dict \<Rightarrow> string \<Rightarrow> ('w, (string, jval) dict) M" where
  "sample_pid k names procs pid =
     (if \<not> is_pid pid then retM procs
      else bindM (ask (k_read k (proc_path pid ''comm''))) (\<lambda>comm.
        case comm of
          None \<Rightarrow> retM procs
        | Some c \<Rightarrow>
            if py_strip c \<notin> names then retM procs
            else bindM (proc k pid) (\<lambda>p. case p of
                None \<Rightarrow> retM procs
              | Some ms \<Rightarrow> retM (dict_set pid (JObj (dict_set ''comm'' (JStr (py_strip c)) ms)) procs))))"

definition sample :: "'w kernel \<Rightarrow> string set \<Rightarrow> ('w, (string, jval) dict) M" where
  "sample k names =
     bindM (ask (k_list k ''/proc'')) (\<lambda>pids.
     bindM (case pids of None \<Rightarrow> raiseM (OSError ''/proc'') | Some ps \<Rightarrow> foldM (sample_pid k names) [] ps) (\<lambda>procs.
     bindM (ask (k_read k (RAPL @ ''/energy_uj''))) (\<lambda>energy.
     bindM (ask (k_read k (RAPL @ ''/max_energy_range_uj''))) (\<lambda>erange.
     bindM (ask (k_read k (proc_path (show_nat (k_pid k)) ''stat''))) (\<lambda>self_stat.
     bindM (ask (k_wall k)) (\<lambda>wall.
     bindM (host_cpu k) (\<lambda>cpu.
     bindM (psi k) (\<lambda>pressure.
     bindM (liftR (int_or_null energy)) (\<lambda>e.
     bindM (liftR (int_or_null erange)) (\<lambda>r.
     bindM (if or_else self_stat [] = [] then retM JNull
            else bindM (liftR (stat_ticks (or_else self_stat []))) (\<lambda>n. retM (JInt n))) (\<lambda>ticks.
     retM [(''wall'', JFloat (Fin wall)), (''procs'', JObj procs), (''host_cpu'', cpu), (''psi'', pressure),
           (''energy_uj'', e), (''energy_range_uj'', r), (''self_ticks'', ticks)])))))))))))"

subsection \<open>The loop\<close>

text \<open>A sample is printed as soon as it is taken; its time is kept beside it.\<close>

partial_function (option) sample_loop ::
  "'w kernel \<Rightarrow> string set \<Rightarrow> rat \<Rightarrow> rat \<Rightarrow> rat \<Rightarrow> nat \<Rightarrow> (rat \<times> (string, jval) dict) list \<Rightarrow> 'w \<Rightarrow>
    (unit res \<times> (rat \<times> (string, jval) dict) list \<times> 'w) option" where
  "sample_loop k names seconds interval t0 n out w =
     (case sample k names w of
        (Inl e, w) \<Rightarrow> Some (Inl e, out, w)
      | (Inr s, w) \<Rightarrow>
          (case k_now k w of (now, w) \<Rightarrow>
           let t = py_round (now - t0) 3; out = out @ [(t, dict_set ''t'' (JFloat (Fin t)) s)] in
           if seconds \<le> t then Some (Inr (), out, w)
           else (case k_now k w of (now, w) \<Rightarrow>
             sample_loop k names seconds interval t0 (Suc n) out
               (k_sleep k (max 0 (t0 + of_nat (Suc n) * interval - now)) w))))"

definition run_sampler ::
  "'w kernel \<Rightarrow> string set \<Rightarrow> rat \<Rightarrow> rat \<Rightarrow> 'w \<Rightarrow> (unit res \<times> (rat \<times> (string, jval) dict) list \<times> 'w) option" where
  "run_sampler k names seconds interval w = (case k_now k w of (t0, w) \<Rightarrow> sample_loop k names seconds interval t0 0 [] w)"

text \<open>The program, once its arguments are parsed: what it prints, one line each.\<close>

definition header :: "'w kernel \<Rightarrow> string set \<Rightarrow> rat \<Rightarrow> jval" where
  "header k names interval =
     JObj [(''header'', JObj [(''clk_tck'', JInt (k_clk_tck k)),
       (''ncpu'', case k_ncpu k of None \<Rightarrow> JNull | Some n \<Rightarrow> JInt n),
       (''procs'', JList (map JStr (sorted_list_of_set names))), (''interval'', JFloat (Fin interval))])]"

definition sampler_main :: "'w kernel \<Rightarrow> string list \<Rightarrow> rat \<Rightarrow> rat \<Rightarrow> 'w \<Rightarrow> (unit res \<times> jval list) option" where
  "sampler_main k procs seconds interval w =
     (case run_sampler k (set procs) seconds interval w of
        None \<Rightarrow> None
      | Some (r, out, w) \<Rightarrow> Some (r, header k (set procs) interval # map (JObj \<circ> snd) out))"

subsection \<open>The line of a process\<close>

text \<open>As the kernel prints it: the name of the process, in parentheses, may hold anything.\<close>

definition stat_line :: "nat \<Rightarrow> string \<Rightarrow> string list \<Rightarrow> string" where
  "stat_line pid comm fs = show_nat pid @ '' ('' @ comm @ '') '' @ py_join '' '' fs @ [LF]"

definition stat_fields :: "string list \<Rightarrow> nat \<Rightarrow> nat \<Rightarrow> bool" where
  "stat_fields fs u s \<longleftrightarrow> 13 \<le> length fs \<and> fs ! 11 = show_nat u \<and> fs ! 12 = show_nat s
     \<and> (\<forall>f \<in> set fs. f \<noteq> [] \<and> CHR '')'' \<notin> set f \<and> (\<forall>c \<in> set f. \<not> is_space c))"

lemma after_last_append:
  assumes "c \<notin> set b"
  shows "after_last c (a @ c # b) = Inr b"
proof -
  have "takeWhile (\<lambda>x. x \<noteq> c) (rev b @ c # rev a) = rev b" using assms by (intro takeWhile_tail [THEN trans] takeWhile_eq_all_conv [THEN iffD2]) auto
  then show ?thesis by (simp add: after_last_def)
qed

lemma join_no_paren: "(\<forall>f \<in> set fs. c \<notin> set f) \<Longrightarrow> c \<notin> set sep \<Longrightarrow> c \<notin> set (py_join sep fs)"
  by (induction sep fs rule: py_join.induct) auto

lemma words_in_spaces: "is_space a \<Longrightarrow> is_space b \<Longrightarrow> py_words (a # s @ [b]) = py_words s"
  using split_by_sep [of is_space a "[]" "s @ [b]"] split_by_sep [of is_space b s "[]"] by (simp add: py_words_def)

lemma int_of_show_nat [simp]: "int_of_string (show_nat n) = Some (int n)"
  using int_of_show_int [of "int n"] by (simp add: show_int_def)

lemma stat_ticks_of_line:
  assumes "stat_fields fs u s"
  shows "stat_ticks (stat_line pid comm fs) = Inr (int u + int s)"
proof -
  have f: "13 \<le> length fs" "fs ! 11 = show_nat u" "fs ! 12 = show_nat s"
    "\<And>w. w \<in> set fs \<Longrightarrow> w \<noteq> [] \<and> (\<forall>c \<in> set w. \<not> is_space c)" "\<forall>w \<in> set fs. CHR '')'' \<notin> set w"
    using assms by (auto simp: stat_fields_def)
  have "CHR '')'' \<notin> set ('' '' @ py_join '' '' fs @ [LF])" using join_no_paren [OF f(5), of "'' ''"] by (simp add: LF_def)
  from after_last_append [OF this, of "show_nat pid @ '' ('' @ comm"]
  have "after_last (CHR '')'') (stat_line pid comm fs) = Inr ('' '' @ py_join '' '' fs @ [LF])" by (simp add: stat_line_def)
  moreover have "py_words ('' '' @ py_join '' '' fs @ [LF]) = fs"
    using words_in_spaces [of "CHR '' ''" LF "py_join '' '' fs"] py_words_join [OF f(4)] by (simp add: is_space_def LF_def)
  ultimately show ?thesis using f(1-3) by (simp add: stat_ticks_def py_index_def)
qed

text \<open>C14. The processor time of a process. Whatever its name is, with spaces, parentheses or line breaks in it, the sampler
  reads from the line of \<open>/proc/PID/stat\<close> the sum of its user and system time, the fields 14 and 15.\<close>

theorem stat_ticks_line:
  assumes "stat_fields fs u s"
  shows "stat_ticks (stat_line pid comm fs) = Inr (int u + int s)"
  by (rule stat_ticks_of_line [OF assms])

definition some_fields :: "string list" where
  "some_fields = [''S'', ''1'', ''1'', ''1'', ''0'', ''-1'', ''4194560'', ''5'', ''0'', ''0'', ''0'', ''250'', ''17'', ''0'']"

lemma stat_ticks_line_witness: "stat_ticks (stat_line 42 ''a) (b c'' some_fields) = Inr 267"
proof -
  have "stat_fields some_fields 250 17" by code_simp
  from stat_ticks_line [OF this, of 42 "''a) (b c''"] show ?thesis by simp
qed

subsection \<open>The clock\<close>

text \<open>
  The monotonic clock and \<open>time.sleep\<close> as Python documents them: \<open>at w\<close> is the time of a state of the world, no operation
  goes back, a look at the clock shows the time at which it happens, and a sleep lasts at least as long as asked.
\<close>

definition clock_runs :: "'w kernel \<Rightarrow> ('w \<Rightarrow> rat) \<Rightarrow> bool" where
  "clock_runs k at_time \<longleftrightarrow>
     (\<forall>p w. at_time w \<le> at_time (snd (k_read k p w))) \<and> (\<forall>p w. at_time w \<le> at_time (snd (k_list k p w))) \<and>
     (\<forall>w. at_time w \<le> at_time (snd (k_wall k w))) \<and>
     (\<forall>w. at_time w \<le> fst (k_now k w) \<and> fst (k_now k w) \<le> at_time (snd (k_now k w))) \<and>
     (\<forall>d w. 0 \<le> d \<longrightarrow> at_time w + d \<le> at_time (k_sleep k d w))"

interpretation later: preorder_rel "\<lambda>v w. f v \<le> f w" for f :: "'w \<Rightarrow> rat"
  by unfold_locales auto

lemma later_ask: "(\<And>w. f w \<le> f (snd (g w))) \<Longrightarrow> keeps (\<lambda>v w. f v \<le> f w) (ask g)" for f :: "'w \<Rightarrow> rat"
  by (auto simp: keeps_def ask_def split: prod.split) (metis snd_conv)

lemma sample_later:
  assumes "clock_runs k f"
  shows "keeps (\<lambda>v w. f v \<le> f w) (sample k names)"
proof -
  have ask: "keeps (\<lambda>v w. f v \<le> f w) (ask (k_read k p))" "keeps (\<lambda>v w. f v \<le> f w) (ask (k_list k p))"
    "keeps (\<lambda>v w. f v \<le> f w) (ask (k_wall k))" for p
    using assms by (auto simp: clock_runs_def intro: later_ask)
  have thread: "keeps (\<lambda>v w. f v \<le> f w) (thread k pid acc tid)" for pid acc tid
    unfolding thread_def by (auto intro!: later.keeps_rules ask split: prod.split option.split)
  have proc: "keeps (\<lambda>v w. f v \<le> f w) (proc k pid)" for pid
    unfolding proc_def by (auto intro!: later.keeps_rules ask thread split: prod.split option.split)
  have pid: "keeps (\<lambda>v w. f v \<le> f w) (sample_pid k names procs pid)" for procs pid
    unfolding sample_pid_def by (auto intro!: later.keeps_rules ask proc split: option.split)
  show ?thesis
    unfolding sample_def host_cpu_def psi_def by (auto intro!: later.keeps_rules ask pid split: option.split)
qed

lemma py_round_close: "\<bar>py_round x 3 - x\<bar> \<le> 1 / 2000"
  using round_half_even_close [of "x * 1000"] by (simp add: py_round_def abs_le_iff field_simps)

text \<open>Sample \<open>i\<close> is not taken before its tick.\<close>

definition on_ticks :: "rat \<Rightarrow> (rat \<times> 'a) list \<Rightarrow> bool" where
  "on_ticks interval out \<longleftrightarrow> (\<forall>i < length out. of_nat i * interval - 1 / 2000 \<le> fst (out ! i))"

lemma on_ticks_snoc: "on_ticks interval out \<Longrightarrow> of_nat (length out) * interval - 1 / 2000 \<le> t \<Longrightarrow> on_ticks interval (out @ [(t, x)])"
  by (auto simp: on_ticks_def nth_append less_Suc_eq)

lemma sample_loop_ends:
  assumes clock: "clock_runs k f" and total: "\<And>w. \<exists>s w'. sample k names w = (Inr s, w')"
    and now: "t0 + of_nat (length out) * interval \<le> f w" and ticks: "on_ticks interval out"
    and steps: "seconds + 1 / 2000 \<le> of_nat (length out + m) * interval"
  shows "\<exists>out' w'. sample_loop k names seconds interval t0 (length out) out w = Some (Inr (), out', w')
    \<and> length out' \<le> length out + m + 1 \<and> on_ticks interval out' \<and> out' \<noteq> [] \<and> seconds \<le> fst (last out')"
  using now ticks steps
proof (induction m arbitrary: out w rule: less_induct)
  case (less m out w)
  obtain s w1 where s: "sample k names w = (Inr s, w1)" using total by blast
  obtain now w2 where now: "k_now k w1 = (now, w2)" by fastforce
  obtain now' w3 where now': "k_now k w2 = (now', w3)" by fastforce
  define t where "t = py_round (now - t0) 3"
  define out1 where "out1 = out @ [(t, dict_set ''t'' (JFloat (Fin t)) s)]"
  define w4 where "w4 = k_sleep k (max 0 (t0 + of_nat (Suc (length out)) * interval - now')) w3"
  have "f w \<le> f w1" using sample_later [OF clock, of names] s unfolding keeps_def by (metis snd_conv)
  moreover have "f w1 \<le> now" "now' \<le> f w3" using clock now now' unfolding clock_runs_def by (metis fst_conv snd_conv)+
  moreover have "f w3 + max 0 (t0 + of_nat (Suc (length out)) * interval - now') \<le> f w4"
    using clock unfolding clock_runs_def w4_def by simp
  ultimately have start: "of_nat (length out) * interval \<le> now - t0" and again: "t0 + of_nat (length out1) * interval \<le> f w4"
    using less.prems(1) by (simp_all add: out1_def)
  then have t: "of_nat (length out) * interval - 1 / 2000 \<le> t" using py_round_close [of "now - t0"] unfolding t_def by linarith
  then have ticks: "on_ticks interval out1" unfolding out1_def by (rule on_ticks_snoc [OF less.prems(2)])
  have loop: "sample_loop k names seconds interval t0 (length out) out w =
      (if seconds \<le> t then Some (Inr (), out1, w2) else sample_loop k names seconds interval t0 (length out1) out1 w4)"
    by (subst sample_loop.simps) (simp add: s now now' t_def [symmetric] out1_def w4_def)
  show ?case
  proof (cases "seconds \<le> t")
    case True
    then show ?thesis unfolding loop using ticks by (simp add: out1_def)
  next
    case False
    have "m \<noteq> 0" using False t less.prems(3) by (cases m) auto
    then have m: "m - 1 < m" "length out1 + (m - 1) = length out + m" by (simp_all add: out1_def)
    have "seconds + 1 / 2000 \<le> of_nat (length out1 + (m - 1)) * interval" using less.prems(3) m(2) by simp
    from less.IH [OF m(1) again ticks this] m(2) False show ?thesis unfolding loop by simp
  qed
qed

subsection \<open>What the kernel writes\<close>

definition written :: "'w kernel \<Rightarrow> string \<Rightarrow> (string \<Rightarrow> bool) \<Rightarrow> bool" where
  "written k path ok \<longleftrightarrow> (\<forall>w t. fst (k_read k path w) = Some t \<longrightarrow> ok t)"

definition is_stat_text :: "string \<Rightarrow> bool" where
  "is_stat_text t \<longleftrightarrow> (\<exists>pid comm fs u s. stat_fields fs u s \<and> t = stat_line pid comm fs)"

definition status_line_ok :: "string \<Rightarrow> bool" where
  "status_line_ok line \<longleftrightarrow> (let (key, v) = py_partition (CHR '':'') line in
     (key \<in> {''voluntary_ctxt_switches'', ''nonvoluntary_ctxt_switches''} \<longrightarrow> (\<exists>n. v = CHR 0x09 # show_nat n)) \<and>
     (key = ''VmRSS'' \<longrightarrow> (\<exists>n. py_words v = [show_nat n, ''kB''])))"

definition psi_line_ok :: "string \<Rightarrow> bool" where
  "psi_line_ok line \<longleftrightarrow> (\<exists>kind avgs n. py_words line = kind # avgs @ [''total='' @ show_nat n] \<and> \<not> starts_with ''total='' kind
     \<and> (\<forall>a \<in> set avgs. \<not> starts_with ''total='' a))"

definition is_cpu_text :: "string \<Rightarrow> bool" where
  "is_cpu_text t \<longleftrightarrow> py_splitlines t \<noteq> [] \<and> (\<exists>ns. py_words (hd (py_splitlines t)) = ''cpu'' # map show_nat ns)"

definition is_number_text :: "string \<Rightarrow> bool" where
  "is_number_text t \<longleftrightarrow> (\<exists>n. t = show_nat n @ [LF])"

text \<open>The files of \<open>/proc\<close> and of the energy counter, as the manual pages describe them; every one of them may be missing at any
  time. Only \<open>/proc\<close> itself can always be listed.\<close>

definition kernel_files :: "'w kernel \<Rightarrow> bool" where
  "kernel_files k \<longleftrightarrow>
     (\<forall>pid. written k (proc_path pid ''stat'') is_stat_text \<and>
        written k (proc_path pid ''status'') (\<lambda>t. list_all status_line_ok (py_splitlines t)) \<and>
        (\<forall>tid. written k (task_path pid tid ''stat'') is_stat_text)) \<and>
     written k ''/proc/pressure/cpu'' (\<lambda>t. list_all psi_line_ok (py_splitlines t)) \<and> written k ''/proc/stat'' is_cpu_text \<and>
     written k (RAPL @ ''/energy_uj'') is_number_text \<and> written k (RAPL @ ''/max_energy_range_uj'') is_number_text \<and>
     (\<forall>w. fst (k_list k ''/proc'' w) \<noteq> None)"

lemma raises_ask: "(\<And>w. raises_only E (g (fst (f w)))) \<Longrightarrow> raises_only E (bindM (ask f) g)"
  unfolding raises_only_def bindM_def ask_def by (auto split: prod.splits) (metis fst_conv)

lemma raises_read:
  assumes "written k p ok" "\<And>x. pred_option ok x \<Longrightarrow> raises_only E (g x)"
  shows "raises_only E (bindM (ask (k_read k p)) g)"
proof (rule raises_ask)
  show "raises_only E (g (fst (k_read k p w)))" for w
    using assms by (cases "fst (k_read k p w)") (auto simp: written_def)
qed

lemma stat_text_ticks: "is_stat_text t \<Longrightarrow> \<exists>n. stat_ticks t = Inr n"
  unfolding is_stat_text_def using stat_ticks_of_line by blast

lemma py_strip_spaces: "is_space c \<Longrightarrow> py_strip (c # s) = py_strip s" "is_space c \<Longrightarrow> py_strip (s @ [c]) = py_strip s"
proof -
  assume c: "is_space c"
  show "py_strip (c # s) = py_strip s" using c by (simp add: py_strip_def py_lstrip_def)
  show "py_strip (s @ [c]) = py_strip s"
    using c by (cases "\<forall>x \<in> set s. is_space x")
      (auto simp: py_strip_def py_lstrip_def py_rstrip_def dropWhile_append3 dropWhile_append1 dropWhile_append2 dropWhile_eq_Nil_conv dest: set_dropWhileD)
qed

lemma int_in_space [simp]:
  "is_space c \<Longrightarrow> int_of_string (c # show_nat n) = Some (int n)" "is_space c \<Longrightarrow> int_of_string (show_nat n @ [c]) = Some (int n)"
  using int_of_show_nat [of n] by (simp_all add: int_of_string_def py_strip_spaces)

lemma status_line_parsed:
  assumes "status_line_ok line"
  shows "\<exists>out'. status_line out line = Inr out'"
proof -
  obtain key v where kv: "py_partition (CHR '':'') line = (key, v)" by fastforce
  have tab: "is_space (CHR 0x09)" by (simp add: is_space_def)
  consider (vol) "key = ''voluntary_ctxt_switches''" | (nonvol) "key = ''nonvoluntary_ctxt_switches''" | (rss) "key = ''VmRSS''"
    | (other) "key \<notin> {''voluntary_ctxt_switches'', ''nonvoluntary_ctxt_switches'', ''VmRSS''}" by blast
  then show ?thesis
  proof cases
    case rss
    then obtain n where "py_words v = [show_nat n, ''kB'']" using assms by (auto simp: status_line_ok_def kv)
    with rss show ?thesis by (simp add: status_line_def kv py_index_def)
  next
    case other
    then show ?thesis by (simp add: status_line_def kv)
  next
    case vol
    then obtain n where "v = CHR 0x09 # show_nat n" using assms by (auto simp: status_line_ok_def kv)
    with vol show ?thesis by (simp add: status_line_def kv tab)
  next
    case nonvol
    then obtain n where "v = CHR 0x09 # show_nat n" using assms by (auto simp: status_line_ok_def kv)
    with nonvol show ?thesis by (simp add: status_line_def kv tab)
  qed
qed

lemma foldR_ok:
  assumes "\<And>b x. x \<in> set xs \<Longrightarrow> \<exists>b'. f b x = Inr b'"
  shows "\<exists>b'. foldR f b xs = Inr b'"
  using assms
proof (induction xs arbitrary: b)
  case (Cons x xs)
  obtain b' where "f b x = Inr b'" using Cons.prems by (meson list.set_intros(1))
  with Cons show ?case by simp
qed simp

lemma py_splitlines_Nil [simp]: "py_splitlines [] = []"
  by (simp add: py_splitlines_def)

lemma psi_line_parsed:
  assumes "psi_line_ok line"
  shows "\<exists>out'. psi_line out line = Inr out'"
proof -
  obtain kind avgs n where w: "py_words line = kind # avgs @ [''total='' @ show_nat n]" "\<not> starts_with ''total='' kind"
      "\<forall>a \<in> set avgs. \<not> starts_with ''total='' a"
    using assms by (auto simp: psi_line_ok_def)
  then have "filter (starts_with ''total='') (py_words line) = [''total='' @ show_nat n]"
    by (auto simp: starts_with_def filter_empty_conv)
  moreover have "CHR ''='' \<notin> set (show_nat n)" by (rule show_nat_no_char) (simp add: is_digit_def)
  then have "py_split (CHR ''='') (''total='' @ show_nat n) = [''total'', show_nat n]"
    using split_by_append [of "''total''" "\<lambda>x. x = CHR ''=''" "CHR ''=''" "show_nat n"] split_by_none [of "show_nat n" "\<lambda>x. x = CHR ''=''"]
    by (auto simp: py_split_def)
  ultimately show ?thesis using w(1) by (simp add: psi_line_def py_index_def)
qed

lemma psi_lines_parsed: "list_all psi_line_ok ls \<Longrightarrow> \<exists>out. foldR psi_line [] ls = Inr out"
  by (rule foldR_ok) (simp add: list_all_iff psi_line_parsed)

lemma host_cpu_of_Nil: "host_cpu_of [] = Inr []"
  by (simp add: host_cpu_of_def)

lemma cpu_text_parsed:
  assumes "t = [] \<or> is_cpu_text t"
  shows "\<exists>xs. host_cpu_of t = Inr xs"
proof (cases "t = []")
  case False
  then obtain ns where w: "py_splitlines t \<noteq> []" "py_words (hd (py_splitlines t)) = ''cpu'' # map show_nat ns"
    using assms by (auto simp: is_cpu_text_def)
  have "mapR (\<lambda>x. py_int (PStr x)) (map show_nat ms) = Inr (map int ms)" for ms by (induction ms) simp_all
  then show ?thesis using w False by (simp add: host_cpu_of_def py_index_def hd_conv_nth take_map)
qed (simp add: host_cpu_of_def)

lemma number_text_int: "pred_option is_number_text x \<Longrightarrow> \<exists>v. int_or_null x = Inr v"
  by (cases x) (auto simp: is_number_text_def int_or_null_def or_else_def LF_def is_space_def)

subsection \<open>The sampler exits\<close>

lemma raises_ticks: "is_stat_text t \<Longrightarrow> raises_only E (liftR (stat_ticks t))"
  by (rule raises_lift) (auto dest: stat_text_ticks)

lemma sample_total:
  assumes "kernel_files k"
  shows "raises_only (\<lambda>_. False) (sample k names)"
proof -
  have stat: "written k (proc_path pid ''stat'') is_stat_text"
    and status: "written k (proc_path pid ''status'') (\<lambda>t. list_all status_line_ok (py_splitlines t))"
    and task: "written k (task_path pid tid ''stat'') is_stat_text" for pid tid
    using assms by (simp_all add: kernel_files_def)
  have host: "written k ''/proc/pressure/cpu'' (\<lambda>t. list_all psi_line_ok (py_splitlines t))" "written k ''/proc/stat'' is_cpu_text"
    "written k (RAPL @ ''/energy_uj'') is_number_text" "written k (RAPL @ ''/max_energy_range_uj'') is_number_text"
    and listed: "\<And>w. fst (k_list k ''/proc'' w) \<noteq> None"
    using assms by (simp_all add: kernel_files_def)
  let ?E = "\<lambda>_ :: exn. False"
  have lines: "raises_only ?E (liftR (foldR status_line out (py_splitlines t)))" if "list_all status_line_ok (py_splitlines t)" for out t
    using foldR_ok [of "py_splitlines t" status_line out] that status_line_parsed by (auto simp: list_all_iff intro!: raises_lift)
  have thread: "raises_only ?E (thread k pid acc tid)" for pid acc tid
    unfolding thread_def
    by (cases acc, simp only: prod.case)
      (rule raises_read [OF task], auto split: option.split intro!: raises_ask raises_intros raises_ticks)
  have proc: "raises_only ?E (proc k pid)" for pid
    unfolding proc_def
    by (intro raises_read [OF stat] raises_read [OF status])
      (auto split: prod.split option.split intro!: raises_ask raises_intros raises_ticks lines raises_foldM thread)
  have pid: "raises_only ?E (sample_pid k names procs pid)" for procs pid
    unfolding sample_pid_def by (auto split: option.split intro!: raises_ask raises_intros proc)
  have psi: "raises_only ?E (psi k)"
    unfolding psi_def
    by (rule raises_read [OF host(1)])
      (auto simp: or_else_def intro!: raises_intros raises_lift dest!: psi_lines_parsed split: option.split)
  have cpu: "raises_only ?E (host_cpu k)"
    unfolding host_cpu_def
    by (rule raises_read [OF host(2)]) (auto simp: or_else_def host_cpu_of_Nil intro!: raises_intros raises_lift dest!: cpu_text_parsed [OF disjI2] split: option.split)
  have int: "raises_only ?E (liftR (int_or_null x))" if "pred_option is_number_text x" for x
    using number_text_int [OF that] by (auto intro: raises_lift)
  have self: "raises_only ?E (if or_else x [] = [] then retM JNull else bindM (liftR (stat_ticks (or_else x []))) (\<lambda>n. retM (JInt n)))"
    if "pred_option is_stat_text x" for x
    using that by (cases x) (auto simp: or_else_def intro!: raises_intros raises_ticks)
  have pids: "raises_only ?E (case fst (k_list k ''/proc'' w) of None \<Rightarrow> raiseM (OSError ''/proc'') | Some ps \<Rightarrow> foldM (sample_pid k names) [] ps)" for w
    using listed [of w] by (auto intro!: raises_foldM pid)
  show ?thesis
    unfolding sample_def
    by (rule raises_ask, rule raises_bind [OF pids], rule raises_read [OF host(3)], rule raises_read [OF host(4)], rule raises_read [OF stat],
        intro raises_ask raises_bind psi cpu int self raises_ret)
qed


text \<open>A kernel whose world is the time in seconds, with one process that is gone before its status is read.\<close>

definition clock_kernel :: "rat kernel" where
  "clock_kernel = \<lparr>
     k_read = (\<lambda>p t. (if p = ''/proc/42/comm'' then Some (''hotstuff-app'' @ [LF])
        else if p = ''/proc/42/stat'' then Some (stat_line 42 ''hotstuff-app'' some_fields)
        else if p = ''/proc/stat'' then Some (''cpu  1 2 3 4'' @ [LF]) else None, t + 1 / 10000)),
     k_list = (\<lambda>p t. (if p = ''/proc'' then Some [''self'', ''42''] else None, t)),
     k_wall = (\<lambda>t. (t + 1700000000, t)), k_now = (\<lambda>t. (t, t)), k_sleep = (\<lambda>d t. t + d + 1 / 1000),
     k_pid = 43, k_clk_tck = 100, k_ncpu = Some 8\<rparr>"

lemma clock_kernel_files: "kernel_files clock_kernel"
proof -
  have stat: "is_stat_text (stat_line 42 ''hotstuff-app'' some_fields)"
  proof -
    have "stat_fields some_fields 250 17" by code_simp
    then show ?thesis unfolding is_stat_text_def by blast
  qed
  have cpu: "is_cpu_text (''cpu  1 2 3 4'' @ [LF])"
  proof -
    have "py_words (hd (py_splitlines (''cpu  1 2 3 4'' @ [LF]))) = ''cpu'' # map show_nat [1, 2, 3, 4]" by code_simp
    moreover have "py_splitlines (''cpu  1 2 3 4'' @ [LF]) \<noteq> []" by code_simp
    ultimately show ?thesis unfolding is_cpu_text_def by blast
  qed
  have path: "proc_path pid ''status'' \<noteq> ''/proc/42/comm''" "proc_path pid ''status'' \<noteq> ''/proc/42/stat''" "proc_path pid ''status'' \<noteq> ''/proc/stat''"
    "proc_path pid ''stat'' \<noteq> ''/proc/42/comm''" "proc_path pid ''stat'' \<noteq> ''/proc/stat''"
    "task_path pid tid ''stat'' \<noteq> ''/proc/42/comm''" "task_path pid tid ''stat'' \<noteq> ''/proc/stat''" for pid tid
    unfolding proc_path_def task_path_def by (auto dest: arg_cong [where f = last] arg_cong [where f = length])
  show ?thesis
    unfolding kernel_files_def written_def
    by (auto simp: clock_kernel_def path stat cpu [simplified] RAPL_def)
qed


end
