(* ===== verification/Fabfile.thy ===== *)
theory Fabfile
  imports Remote_Journal Parser_Publish
begin

section \<open>The tasks of the command line (benchmark/fabfile.py)\<close>

text \<open>
  What a user starts: every task makes a \<open>CloudLabBench\<close> from the manifest, the settings and the notifier file of the
  directory, calls one of its operations, and turns some of the exceptions into a printed error. The task for the daemon
  passes its parameters through the daemon's argument parser. Not in the repository, and parameters here: the documents
  the parsers of XML and JSON return, the host name, the modification times of directories, the time zone, and the
  connections of \<open>testbed\<close>, whose manager is the one read.
\<close>

record 'r lab =
  lb_xml :: "xml res"
  lb_json :: "jval res"
  lb_notifier_path :: string
  lb_notifier_file :: "jval res option"
  lb_hostname :: string
  lb_testbed :: "'r testbed"
  lb_mtime :: "path \<Rightarrow> rat res"
  lb_tz :: "int \<Rightarrow> int"

subsection \<open>The object\<close>

text \<open>What loading the manifest and the notifier's configuration prints.\<close>

definition manifest_lines :: "xml res \<Rightarrow> string list" where
  "manifest_lines file =
     (case file of Inl e \<Rightarrow> []
      | Inr rt \<Rightarrow> multi_site_warning (map (snd \<circ> snd) (concat (map manifest_node (xml_findall ''node'' rt)))))"

definition config_field :: "jval \<Rightarrow> string \<Rightarrow> string" where
  "config_field cfg k = (case jget cfg k of Inl e \<Rightarrow> [] | Inr v \<Rightarrow> json_str v)"

definition load_lines :: "string \<Rightarrow> jval res option \<Rightarrow> string list" where
  "load_lines path file =
     (case file of
        None \<Rightarrow> []
      | Some (Inl e) \<Rightarrow> [''[notifier] failed to read '' @ path @ '': '' @ exn_msg e]
      | Some (Inr cfg) \<Rightarrow>
          (let missing = filter (\<lambda>f. json_contains cfg f = Inr False) REQUIRED_FIELDS in
           if missing = [] then []
           else [''[notifier] config '' @ path @ '' missing fields: ['' @ py_join '', '' (map py_repr missing) @ '']'']))"

definition status_line_of :: "string \<Rightarrow> notifier \<Rightarrow> string" where
  "status_line_of path n =
     (case nt_config n of
        Some cfg \<Rightarrow> ''[notifier] enabled, sending to '' @ config_field cfg ''to_address'' @ '' via '' @ config_field cfg ''smtp_host'' @
          '':'' @ config_field cfg ''smtp_port'' @ '' (throttle '' @ json_str (nt_throttle_seconds n) @ ''s)''
      | None \<Rightarrow> ''[notifier] disabled '' @ EM_DASH @ '' config not found at '' @ path @
          ''. See benchmark/notifier.example.json for the format.'')"

definition CloudLabBench :: "'r lab \<Rightarrow> ('r harness, 'r testbed) M" where
  "CloudLabBench lab =
     seqM (forM (manifest_lines (lb_xml lab)) say)
    (bindM (liftR (manager_make ''manifest.xml'' (lb_xml lab) (lb_json lab))) (\<lambda>mg.
     bindM (liftR (EmailNotifier (lb_hostname lab) (lb_notifier_file lab))) (\<lambda>nt.
     seqM (forM (load_lines (lb_notifier_path lab) (lb_notifier_file lab) @ [status_line_of (lb_notifier_path lab) nt]) say)
    (seqM (modifyM (\<lambda>s. s\<lparr>hn_pool := [], hn_iface := [], hn_rtt := JNull, hn_post := (nt, snd (hn_post s))\<rparr>))
          (retM ((lb_testbed lab)\<lparr>tb_manager := mg\<rparr>))))))"

subsection \<open>The tasks on the testbed\<close>

fun is_BenchError :: "exn \<Rightarrow> bool" where
  "is_BenchError (BenchError _ _) = True"
| "is_BenchError _ = False"

definition on_bench :: "'r lab \<Rightarrow> ('r testbed \<Rightarrow> ('r harness, unit) M) \<Rightarrow> ('r harness, unit) M" where
  "on_bench lab body = bindM (CloudLabBench lab) body"

definition install_cloudlab :: "'r lab \<Rightarrow> ('r harness, unit) M" where
  "install_cloudlab lab = catchM (on_bench lab install) is_BenchError (say_error (lb_testbed lab))"

definition experiment_cloudlab :: "'r lab \<Rightarrow> string \<Rightarrow> string \<Rightarrow> pyval \<Rightarrow> pyval \<Rightarrow> ('r harness, unit) M" where
  "experiment_cloudlab lab input_csv output_csv proto_log skip_update =
     catchM (on_bench lab (\<lambda>tb. run_from_csv tb input_csv output_csv (py_truthy proto_log) (py_truthy skip_update)))
       is_BenchError (say_error (lb_testbed lab))"

definition kill_task :: "'r lab \<Rightarrow> ('r harness, unit) M" where
  "kill_task lab =
     catchM (on_bench lab (\<lambda>tb. kill_all tb None False)) (\<lambda>e. is_BenchError e \<or> is_GroupException e) (say_error (lb_testbed lab))"

definition clear_netem_task :: "'r lab \<Rightarrow> pyval \<Rightarrow> ('r harness, unit) M" where
  "clear_netem_task lab nodes =
     catchM
       (on_bench lab (\<lambda>tb. bindM (liftR (py_int nodes)) (\<lambda>n.
          seqM (clear_netem tb n)
               (say (print_heading (''Cleared netem on the first '' @ py_str nodes @ '' manifest hosts''))))))
       (\<lambda>e. is_BenchError e \<or> is_GroupException e) (say_error (lb_testbed lab))"

subsection \<open>The tasks on the files\<close>

definition reconcile_csv_task :: "string \<Rightarrow> string \<Rightarrow> ('r harness, unit) M" where
  "reconcile_csv_task csv_path run_logs_dir =
     bindM (reconcile_csv (file_path csv_path) (file_path run_logs_dir)) (\<lambda>n.
     say (print_info (''Reconciled '' @ show_nat n @ '' row(s)'')))"

text \<open>The subdirectories in the order of the listing; \<open>sorted(..., key=mtime, reverse=True)\<close> keeps that order among equals.\<close>

definition subdirs :: "path \<Rightarrow> 'z fs_scheme \<Rightarrow> string list" where
  "subdirs d s = filter (\<lambda>x. path_isdir (d @ [x]) s) (names_in d s)"

definition newest_first :: "(string \<Rightarrow> rat res) \<Rightarrow> string list \<Rightarrow> string list res" where
  "newest_first mtime ds =
     bindR (mapR mtime ds) (\<lambda>ts. Inr (map snd (rev (sort_key fst (rev (zip ts ds))))))"

fun is_LogParseError :: "exn \<Rightarrow> bool" where
  "is_LogParseError (LogParseError _) = True"
| "is_LogParseError _ = False"

definition show_run :: "'r lab \<Rightarrow> string \<Rightarrow> string \<Rightarrow> ('r harness, unit) M" where
  "show_run lab run_logs_dir run_id =
     (let target = path_join run_logs_dir run_id in
      catchM (bindM (log_process (lb_tz lab) (file_path target) (JObj [(''run_id'', JStr run_id)])) (\<lambda>p. say (result_text p)))
        is_LogParseError (\<lambda>e. say_error (lb_testbed lab) (BenchError (''Failed to parse '' @ target) e)))"

definition logs_task :: "'r lab \<Rightarrow> string \<Rightarrow> string option \<Rightarrow> ('r harness, unit) M" where
  "logs_task lab run_logs_dir run_id =
     bindM (getM (path_isdir (file_path run_logs_dir))) (\<lambda>isdir.
     if \<not> isdir then say (print_warn (''No run_logs at '' @ run_logs_dir))
     else case run_id of
       Some r \<Rightarrow> show_run lab run_logs_dir r
     | None \<Rightarrow>
         bindM (getM (subdirs (file_path run_logs_dir))) (\<lambda>ds.
         bindM (liftR (newest_first (\<lambda>x. lb_mtime lab (file_path run_logs_dir @ [x])) ds)) (\<lambda>candidates.
         case candidates of
           [] \<Rightarrow> say (print_warn (''No run subdirs under '' @ run_logs_dir))
         | r # _ \<Rightarrow> seqM (say (print_info (''(using most recent run_id: '' @ r @ '')''))) (show_run lab run_logs_dir r))))"

text \<open>\<open>parser_daemon.main\<close> from its arguments; the number of passes and the script of the signals are those of \<open>daemon_loop\<close>.\<close>

definition daemon_options :: "opt list" where
  "daemon_options =
     [add_argument ''--run-logs-dir'' StoreStr (PStr ''results/run_logs''),
      add_argument ''--csv-path'' StoreStr (PStr ''results/final_results.csv''),
      add_argument ''--poll-interval'' StoreInt (PInt 10),
      add_argument ''--no-prune'' StoreTrue (PBool False),
      add_argument ''--gzip-replica-logs'' StoreTrue (PBool False),
      add_argument ''--once'' StoreTrue (PBool False)]"

definition daemon_args_of :: "namespace \<Rightarrow> daemon_args" where
  "daemon_args_of ns =
     \<lparr>da_run_logs_dir = file_path (str_arg ns ''run_logs_dir''),
      da_csv_path = (if str_arg ns ''csv_path'' = [] then None else Some (file_path (str_arg ns ''csv_path''))),
      da_prune = (arg ns ''no_prune'' \<noteq> PBool True), da_gzip = (arg ns ''gzip_replica_logs'' = PBool True),
      da_once = (arg ns ''once'' = PBool True)\<rparr>"

definition daemon_main ::
  "(int \<Rightarrow> int) \<Rightarrow> (exn \<Rightarrow> string) \<Rightarrow> (node \<Rightarrow> node) \<Rightarrow> nat \<Rightarrow> bool list \<Rightarrow> string list \<Rightarrow> ('r harness, unit) M" where
  "daemon_main tz tb gz passes running argv =
     bindM (liftR (parse_args daemon_options argv)) (\<lambda>ns.
     seqM (say (''[parser-daemon] watching '' @ str_arg ns ''run_logs_dir'' @ '', polling every '' @ show_int (int_arg ns ''poll_interval'') @
             ''s, reconciling '' @ str_arg ns ''csv_path'' @ '' after each batch''))
    (seqM (daemon_loop tz tb gz (daemon_args_of ns) passes running)
          (say ''[parser-daemon] exited'')))"

definition parser_daemon_task ::
  "'r lab \<Rightarrow> (exn \<Rightarrow> string) \<Rightarrow> (node \<Rightarrow> node) \<Rightarrow> nat \<Rightarrow> bool list \<Rightarrow> string \<Rightarrow> string \<Rightarrow> pyval \<Rightarrow> ('r harness, unit) M" where
  "parser_daemon_task lab tb gz passes running run_logs_dir csv_path poll_interval =
     daemon_main (lb_tz lab) tb gz passes running
       [''--run-logs-dir'', run_logs_dir, ''--csv-path'', csv_path, ''--poll-interval'', py_str poll_interval]"

subsection \<open>What the tasks report\<close>

text \<open>A computation that never returns normally.\<close>

abbreviation always_fails :: "(exn \<Rightarrow> bool) \<Rightarrow> ('s, 'a) M \<Rightarrow> bool" where
  "always_fails E m \<equiv> triple (\<lambda>_. True) m (\<lambda>_ _. False) (\<lambda>e _. E e)"

lemma triple_pure: "(B \<Longrightarrow> triple (\<lambda>_. True) m Q E) \<Longrightarrow> triple (\<lambda>_. B) m Q E"
  by (cases B) (simp_all add: triple_def)

lemma triple_total: "(\<And>s. \<exists>x t. m s = (Inr x, t)) \<Longrightarrow> triple (\<lambda>_. True) m (\<lambda>_ _. True) E"
  unfolding triple_def by (metis (mono_tags, lifting) case_prod_conv old.sum.simps(6))

lemma always_failsD: "always_fails E m \<Longrightarrow> \<exists>e t. m s = (Inl e, t) \<and> E e"
  using tripleD [of "\<lambda>_. True" m "\<lambda>_ _. False" "\<lambda>e _. E e" s] by (cases "m s"; cases "fst (m s)") auto

lemma retry_fails:
  assumes "always_fails E m" "\<And>e. E e \<Longrightarrow> is_transient e"
  shows "as \<noteq> [] \<or> le \<noteq> None \<Longrightarrow> (\<And>e. le = Some e \<Longrightarrow> E e) \<Longrightarrow> always_fails E (retry_loop n bs None (pause tb) m as le)"
proof (induction as arbitrary: le)
  case Nil
  then show ?case by (auto intro: triple_raise)
next
  case (Cons a as)
  have "always_fails E (seqM (run_callback None a e)
      (if a = n then raiseM e else seqM (pause tb (bs ! (a - 1))) (retry_loop n bs None (pause tb) m as (Some e))))" if "E e" for e
  proof -
    have rest: "always_fails E (retry_loop n bs None (pause tb) m as (Some e))" by (rule Cons.IH) (use that in auto)
    have "\<exists>x t. run_callback None a e s = (Inr x, t)" "\<exists>x t. pause tb k s = (Inr x, t)" for k and s :: "'a harness"
      by (simp_all add: run_callback_def pause_def M_simps)
    then show ?thesis using that rest by (intro triple_seq [OF triple_total] triple_if triple_raise)
  qed
  then show ?case
    by simp (rule triple_catch [OF assms(1)], use assms(2) in \<open>auto intro: triple_pure\<close>)
qed

lemma with_retry_fails: "always_fails E m \<Longrightarrow> (\<And>e. E e \<Longrightarrow> is_transient e) \<Longrightarrow> always_fails E (with_retry tb m)"
  unfolding with_retry_def by (rule retry_fails) auto

lemma group_fails:
  assumes "\<And>c r. \<exists>m r'. tb_group tb hs c r = (Inl (GroupException m), r')"
  shows "always_fails is_GroupException (group_run tb hs c)"
proof -
  have "\<exists>x t. forM hs conn s = (Inr x, t)" for hs and s :: "'a harness"
    by (induction hs arbitrary: s) (simp_all add: conn_def M_simps)
  moreover have "always_fails is_GroupException (at_remote (tb_group tb hs c))"
    unfolding triple_def
  proof (intro allI impI)
    fix s :: "'a harness"
    obtain m r' where "tb_group tb hs c (hn_remote s) = (Inl (GroupException m), r')" using assms by blast
    then show "case at_remote (tb_group tb hs c) s of (Inr x, t) \<Rightarrow> False | (Inl e, t) \<Rightarrow> is_GroupException e"
      by (simp add: at_remote_def)
  qed
  ultimately show ?thesis unfolding group_run_def by (intro triple_seq [OF triple_total])
qed

text \<open>Printing an error works for a \<open>BenchError\<close> and fails for every other exception.\<close>

lemma say_all: "\<exists>t. forM ls say s = (Inr (), t)"
  by (induction ls arbitrary: s) (simp_all add: say_def M_simps)

lemma say_error_bench: "is_BenchError e \<Longrightarrow> \<exists>t. say_error tb e s = (Inr (), t)"
proof -
  assume "is_BenchError e"
  then obtain m c where "e = BenchError m c" by (cases e) auto
  then obtain ls where "print_error (tb_type_str tb) e = Inr ls" by (simp add: print_error_def split_def Let_def)
  then show ?thesis using say_all by (simp add: say_error_def liftR_def bindM_def)
qed

lemma say_error_other: "\<not> is_BenchError e \<Longrightarrow> say_error tb e s = (Inl (AssertionError []), s)"
  by (cases e) (simp_all add: say_error_def print_error_def liftR_def bindM_def)


subsection \<open>Which run is shown\<close>

lemma newest_first_order:
  assumes "\<And>x. x \<in> set ds \<Longrightarrow> mtime x = Inr (mt x)"
  shows "newest_first mtime ds = Inr (rev (sort_key mt (rev ds)))"
proof -
  have "mapR mtime ds = Inr (map mt ds)" using assms by (induction ds) auto
  moreover have "sort_key fst (rev (zip (map mt ds) ds)) = map (\<lambda>x. (mt x, x)) (sort_key mt (rev ds))"
  proof -
    have "rev (zip (map mt ds) ds) = map (\<lambda>x. (mt x, x)) (rev ds)" by (simp add: zip_map1 zip_same_conv_map comp_def rev_map)
    moreover have "sort_key fst (map (\<lambda>x. (mt x, x)) xs) = map (\<lambda>x. (mt x, x)) (sort_key mt xs)" for xs
    proof (induction xs)
      case (Cons x xs)
      have "insort_key fst (mt x, x) (map (\<lambda>x. (mt x, x)) ys) = map (\<lambda>x. (mt x, x)) (insort_key mt x ys)" for ys
        by (induction ys) auto
      with Cons show ?case by simp
    qed simp
    ultimately show ?thesis by simp
  qed
  ultimately show ?thesis by (simp add: newest_first_def rev_map comp_def)
qed

lemma newest_is_newest:
  assumes "ds \<noteq> []"
  obtains r rest where "rev (sort_key mt (rev ds)) = r # rest" "r \<in> set ds" "\<And>x. x \<in> set ds \<Longrightarrow> mt x \<le> mt (r :: string)"
proof -
  let ?s = "sort_key mt (rev ds)"
  have s: "set ?s = set ds" by simp
  then have ne: "?s \<noteq> []" using assms by (metis set_empty)
  then obtain ys r where y: "?s = ys @ [r]" by (metis append_butlast_last_id)
  moreover have "mt x \<le> mt r" if "x \<in> set ds" for x
    using that s sorted_sort_key [of mt "rev ds"] unfolding y by (auto simp: sorted_append)
  ultimately show ?thesis using s by (intro that [of r "rev ys"]) auto
qed

lemma frame_say [frame_intros]: "keeps (only P) (say t)" "keeps (only P) (say_error tb e)"
proof -
  show say: "keeps (only P) (say t)" for t by (simp add: keeps_def only_def say_def M_simps node_at_def)
  show "keeps (only P) (say_error tb e)"
    unfolding say_error_def by (intro frame.keeps_rules say)
qed

lemma logs_keep: "keeps (only P) (logs_task lab d rid)"
  unfolding logs_task_def show_run_def Let_def
  by (auto intro!: frame.keeps_rules frame_intros split: option.split list.split)

text \<open>C9. Which run \<open>fab logs\<close> shows. Without a run id the task does what it does for the id of a most recently modified
  subdirectory, after saying so; it is in the listing, and no other subdirectory is newer. Whatever the logs hold and
  whatever fails, no file is touched.\<close>

theorem logs_shows_newest:
  assumes "path_isdir (file_path d) s" "subdirs (file_path d) s \<noteq> []"
    and "\<And>x. x \<in> set (subdirs (file_path d) s) \<Longrightarrow> lb_mtime lab (file_path d @ [x]) = Inr (mt x)"
  shows "\<exists>r \<in> set (subdirs (file_path d) s). (\<forall>x \<in> set (subdirs (file_path d) s). mt x \<le> mt r)
    \<and> logs_task lab d None s = seqM (say (print_info (''(using most recent run_id: '' @ r @ '')''))) (show_run lab d r) s
    \<and> (\<forall>q. node_at q (snd (logs_task lab d None s)) = node_at q s)"
proof -
  obtain r rest where r: "rev (sort_key mt (rev (subdirs (file_path d) s))) = r # rest" "r \<in> set (subdirs (file_path d) s)"
    "\<And>x. x \<in> set (subdirs (file_path d) s) \<Longrightarrow> mt x \<le> mt r"
    using newest_is_newest [OF assms(2)] by metis
  have lift: "bindM (liftR (Inr x)) f = f x" for x :: "'b" and f :: "'b \<Rightarrow> ('s, 'c) M"
    by (rule ext) (simp add: liftR_def bindM_def)
  have "newest_first (\<lambda>x. lb_mtime lab (file_path d @ [x])) (subdirs (file_path d) s) = Inr (r # rest)"
    using newest_first_order [of "subdirs (file_path d) s", OF assms(3)] r(1) by simp
  then have "logs_task lab d None s = seqM (say (print_info (''(using most recent run_id: '' @ r @ '')''))) (show_run lab d r) s"
    using assms(1) by (simp add: logs_task_def lift)
  moreover have "only (\<lambda>_. False) s (snd (logs_task lab d None s))" using logs_keep unfolding keeps_def by blast
  ultimately show ?thesis using r(2,3) unfolding only_def by blast
qed

subsection \<open>A small laboratory\<close>

lemma bench_made:
  assumes "manager_make ''manifest.xml'' (lb_xml lab) (lb_json lab) = Inr mg" "EmailNotifier (lb_hostname lab) (lb_notifier_file lab) = Inr nt"
  shows "\<exists>u. CloudLabBench lab s = (Inr ((lb_testbed lab)\<lparr>tb_manager := mg\<rparr>), u)"
proof -
  obtain t where t: "forM (manifest_lines (lb_xml lab)) say s = (Inr (), t)" using say_all by blast
  obtain v where v: "forM (load_lines (lb_notifier_path lab) (lb_notifier_file lab) @ [status_line_of (lb_notifier_path lab) nt]) say t = (Inr (), v)"
    using say_all by blast
  show ?thesis by (simp only: CloudLabBench_def seqM_def bindM_def liftR_def t v assms prod.case sum.case) (simp add: M_simps)
qed

definition demo_lab :: "rat lab" where
  "demo_lab = \<lparr>lb_xml = Inr sample_rspec,
     lb_json = Inr (settings_doc \<lparr>cloudlab_username = ''u'', base_port = 5000, repo_name = ''r'', repo_url = ''l'', branch = ''b''\<rparr>),
     lb_notifier_path = ''n.json'', lb_notifier_file = None, lb_hostname = ''h'',
     lb_testbed = clock_testbed\<lparr>tb_group := \<lambda>hs c r. (Inl (GroupException ''down''), r)\<rparr>,
     lb_mtime = \<lambda>p. Inr (if last p = ''B'' then 2 else 1), lb_tz = \<lambda>t. 0\<rparr>"

definition two_runs :: "rat harness" where
  "two_runs = (idle_harness 0)\<lparr>fs_files := [([''run_logs''], Dir), ([''run_logs'', ''A''], Dir), ([''run_logs'', ''B''], Dir)]\<rparr>"


lemma logs_shows_newest_witness:
  "logs_task demo_lab ''run_logs'' None two_runs
    = seqM (say (print_info ''(using most recent run_id: B)'')) (show_run demo_lab ''run_logs'' ''B'') two_runs"
proof -
  have d: "file_path ''run_logs'' = [''run_logs'']" by code_simp
  have sub: "subdirs (file_path ''run_logs'') two_runs = [''A'', ''B'']"
    unfolding d by (simp add: subdirs_def names_in_def two_runs_def path_isdir_def node_at_def)
  have isd: "path_isdir (file_path ''run_logs'') two_runs" unfolding d by (simp add: two_runs_def path_isdir_def node_at_def)
  have mt: "lb_mtime demo_lab (file_path ''run_logs'' @ [x]) = Inr (if x = ''B'' then 2 else 1)" for x
    by (simp add: demo_lab_def)
  from logs_shows_newest [OF isd, of demo_lab "\<lambda>x. if x = ''B'' then 2 else 1"] sub mt show ?thesis by auto
qed

end
