(* ===== verification/Run_Summary.thy ===== *)
theory Run_Summary
  imports Fabfile
begin

section \<open>Showing a run the daemon has parsed (benchmark/fabfile.py, benchmark/benchmark/parser_daemon.py)\<close>

text \<open>
  \<open>fab logs\<close> reads the logs of a run directory; the daemon, once it has published the metrics, replaces the client logs of
  that directory by a summary. The two components together: what is left for \<open>fab logs\<close> to show.
\<close>

subsection \<open>Pruning without faults\<close>

lemma mapM_read:
  assumes "fs_faults s = []" "\<And>n. n \<in> set ns \<Longrightarrow> \<exists>x. node_at (d @ [n]) s = Some x \<and> x \<noteq> Dir"
  shows "mapM (\<lambda>n. bindM (read_text (d @ [n])) (\<lambda>t. retM (g n t))) ns s = (Inr (map (\<lambda>n. g n (text_at (d @ [n]) s)) ns), s)"
  using assms(2)
proof (induction ns)
  case Nil
  then show ?case by (simp add: retM_def)
next
  case (Cons n ns)
  from Cons.prems [of n] obtain x where "node_at (d @ [n]) s = Some x" "x \<noteq> Dir" by auto
  from read_text_nf [OF assms(1) this] Cons show ?case by (simp add: bindM_def retM_def)
qed

lemma remove_all:
  assumes "fs_faults s = []" "distinct ns" "\<And>n. n \<in> set ns \<Longrightarrow> \<exists>x. node_at (d @ [n]) s = Some x \<and> x \<noteq> Dir"
  shows "\<exists>k' t. foldM (\<lambda>freed n. remove_sized (d @ [n]) freed) k ns s = (Inr k', t)
    \<and> (\<forall>p. node_at p t = (if p \<in> (\<lambda>n. d @ [n]) ` set ns then None else node_at p s))"
  using assms
proof (induction ns arbitrary: k s)
  case Nil
  then show ?case by (simp add: retM_def)
next
  case (Cons n ns)
  from Cons.prems(3) [of n] obtain x where x: "node_at (d @ [n]) s = Some x" "x \<noteq> Dir" by auto
  let ?s = "drop_node (d @ [n]) s"
  have step: "remove_sized (d @ [n]) k s = (Inr (k + node_size x), ?s)"
    using remove_nf [OF Cons.prems(1) x] x by (simp add: remove_sized_def)
  have "\<exists>x. node_at (d @ [m]) ?s = Some x \<and> x \<noteq> Dir" if "m \<in> set ns" for m
    using Cons.prems(2,3) that by auto
  from Cons.IH [OF _ _ this, of "k + node_size x"] Cons.prems(1,2) obtain k' t where
    t: "foldM (\<lambda>freed n. remove_sized (d @ [n]) freed) (k + node_size x) ns ?s = (Inr k', t)"
      "\<forall>p. node_at p t = (if p \<in> (\<lambda>n. d @ [n]) ` set ns then None else node_at p ?s)" by auto
  have "foldM (\<lambda>freed n. remove_sized (d @ [n]) freed) k (n # ns) s = (Inr k', t)"
    using step t(1) by (simp add: bindM_def)
  then show ?case using t(2) by auto
qed

text \<open>A directory whose client logs are files and where the summary can be written.\<close>

definition prunable :: "path \<Rightarrow> 'z fs_scheme \<Rightarrow> bool" where
  "prunable d s \<longleftrightarrow> path_isdir d s \<and> node_at (d @ [SUMMARY_FILE]) s \<noteq> Some Dir \<and> node_at (d @ [SUMMARY_FILE @ ''.tmp'']) s \<noteq> Some Dir
     \<and> list_all (\<lambda>n. node_at (d @ [n]) s \<noteq> Some Dir) (client_logs d s)"

lemma client_not_published:
  assumes "client_path d p"
  shows "p \<notin> {d @ [METRICS_FILE], d @ [METRICS_FILE @ ''.tmp''], d @ [RESULT_FILE], d @ [RESULT_FILE @ ''.tmp''], d @ [READY_MARKER]}"
proof -
  from assms obtain n where n: "p = d @ [n]" "starts_with ''client-'' n" by (auto simp: client_path_def)
  have "\<not> starts_with ''client-'' x" if "x \<in> {METRICS_FILE, METRICS_FILE @ ''.tmp'', RESULT_FILE, RESULT_FILE @ ''.tmp'', READY_MARKER}" for x
    using that by (auto simp: file_name_defs starts_with_def)
  with n show ?thesis by auto
qed

lemma summary_not_client: "client_path d p \<Longrightarrow> p \<notin> {d @ [SUMMARY_FILE], d @ [SUMMARY_FILE @ ''.tmp'']}"
  by (auto simp: client_path_def SUMMARY_FILE_def starts_with_def)

lemma client_in_logs:
  "n \<in> set (client_logs d s) \<Longrightarrow> client_path d (d @ [n]) \<and> node_at (d @ [n]) s \<noteq> None"
  "n \<in> set (client_logs d t) \<Longrightarrow> node_at (d @ [n]) s \<noteq> None \<Longrightarrow> n \<in> set (client_logs d s)"
  by (auto simp: client_logs_def glob_names_def client_path_def names_in_iff)

lemma bind_ok: "m s = (Inr x, t) \<Longrightarrow> f x t = y \<Longrightarrow> bindM m f s = y"
  by (simp add: bindM_def)

lemma prune_clears:
  assumes nf: "fs_faults s = []" and ok: "prunable d s" and kept: "kept_summary d s \<noteq> []"
  shows "\<exists>k t. prune_client_logs d s = (Inr k, t) \<and> client_logs d t = [] \<and> path_isdir d t"
proof -
  let ?logs = "client_logs d s"
  have ne: "?logs \<noteq> []" using kept by (auto simp: kept_summary_def)
  have files: "\<exists>x. node_at (d @ [n]) s = Some x \<and> x \<noteq> Dir" if "n \<in> set ?logs" for n
    using ok that client_in_logs(1) [OF that] by (auto simp: prunable_def list_all_iff)
  have rd: "read_kept d ?logs s = (Inr (Some (kept_summary d s)), s)"
    unfolding read_kept_def kept_summary_def
    by (rule bind_ok) (rule mapM_read [where ns = "client_logs d s"], use nf files in \<open>simp_all add: retM_def\<close>)
  let ?x = "Text (summary_text (kept_summary d s))"
  let ?w = "put_node (d @ [SUMMARY_FILE]) ?x (drop_node (d @ [SUMMARY_FILE @ ''.tmp'']) (put_node (d @ [SUMMARY_FILE @ ''.tmp'']) ?x s))"
  have sv: "save_summary d (kept_summary d s) s = (Inr True, ?w)"
    using ok nf atomic_nf [of s d SUMMARY_FILE ?x]
    by (simp add: save_summary_def seqM_def bindM_def retM_def prunable_def path_isdir_def)
  have same: "node_at (d @ [n]) ?w = node_at (d @ [n]) s" if "client_path d (d @ [n])" for n
    using summary_not_client [OF that] by simp
  have w: "fs_faults ?w = []" "distinct ?logs" "\<exists>x. node_at (d @ [n]) ?w = Some x \<and> x \<noteq> Dir" if "n \<in> set ?logs" for n
    using nf files that same client_in_logs(1) [OF that] by (simp_all add: client_logs_def glob_names_def names_in_def)
  obtain k t where t: "foldM (\<lambda>freed n. remove_sized (d @ [n]) freed) 0 ?logs ?w = (Inr k, t)"
    "\<forall>p. node_at p t = (if p \<in> (\<lambda>n. d @ [n]) ` set ?logs then None else node_at p ?w)"
    using remove_all [of ?w ?logs d 0] w nf by (auto simp: client_logs_def glob_names_def names_in_def)
  have "prune_client_logs d s = (Inr k, t)"
    using ne kept rd sv t(1) by (simp add: prune_unfold bindM_def catchM_def)
  moreover have "n \<notin> set (client_logs d t)" for n
  proof
    assume n: "n \<in> set (client_logs d t)"
    then have "node_at (d @ [n]) s \<noteq> None" using t(2) same [of n] client_in_logs(1) [OF n] by (auto split: if_splits)
    then have "d @ [n] \<in> (\<lambda>n. d @ [n]) ` set ?logs" using client_in_logs(2) [OF n] by blast
    then have "node_at (d @ [n]) t = None" using t(2) by simp
    then show False using client_in_logs(1) [OF n] by simp
  qed
  then have "client_logs d t = []" by (metis list.set_intros(1) neq_Nil_conv)
  moreover have "path_isdir d t" using ok t(2) by (auto simp: prunable_def path_isdir_def)
  ultimately show ?thesis by blast
qed

subsection \<open>The two components together\<close>

lemma show_nothing:
  assumes "path_isdir (file_path (path_join dir r)) t" "client_logs (file_path (path_join dir r)) t = []"
  shows "show_run lab dir r t = say_error (lb_testbed lab) (BenchError (''Failed to parse '' @ path_join dir r)
    (LogParseError (''no client-*.log files found under '' @ py_join ''/'' (file_path (path_join dir r))))) t"
proof -
  have "log_process tz d meta t = (Inl (LogParseError (''no client-*.log files found under '' @ py_join ''/'' d)), t)"
    if "path_isdir d t" "client_logs d t = []" for tz d meta
    using that by (simp only: log_process_def bindM_def getM_def prod.case sum.case not_True_eq_False if_False if_True raiseM_def refl)
  note this [OF assms]
  then show ?thesis by (simp only: show_run_def Let_def catchM_def bindM_def prod.case sum.case is_LogParseError.simps if_True refl)
qed

text \<open>C10. A parsed run cannot be shown. The daemon takes a finished run directory whose client logs parse and hold a line of the
  client's summary, publishes its metrics and prunes, as it does by default: afterwards \<open>fab logs\<close> for this run prints that
  it failed to parse it, because there are no client logs, although its documentation promises the summary of a parsed run.\<close>

theorem parsed_run_not_shown:
  fixes s :: "'r harness"
  assumes d: "d = file_path (path_join dir r)"
    and run: "ready_dir d s" "fs_faults s = []" "disk_process tz d (disk_meta d s) s = Inr lp"
    and side: "node_at (d @ [SUMMARY_FILE]) s \<noteq> Some Dir" "node_at (d @ [SUMMARY_FILE @ ''.tmp'']) s \<noteq> Some Dir"
    and kept: "kept_summary d s \<noteq> []"
  shows "\<exists>t. process_dir tz tb True d s = (Inr Parsed, t) \<and> node_at (d @ [METRICS_FILE]) t = Some (Json (JObj (result_dict lp)))
    \<and> show_run lab dir r t = say_error (lb_testbed lab) (BenchError (''Failed to parse '' @ path_join dir r)
        (LogParseError (''no client-*.log files found under '' @ py_join ''/'' d))) t"
proof -
  obtain u where u: "process_dir tz tb True d s = (case publish_tail d True lp u of
      (Inl e, t) \<Rightarrow> (if is_parse_failure e then report_failure tb d e t else (Inl e, t)) | (Inr x, t) \<Rightarrow> (Inr x, t))"
    "fs_faults u = []" "only (\<lambda>p. p \<in> {d @ [METRICS_FILE], tmp_path (d @ [METRICS_FILE])}) s u"
    using process_publishes [OF run] by blast
  from ready_dirD(5) [OF run(1)] u(3) obtain n where n: "node_at (d @ [READY_MARKER]) u = Some n" "n \<noteq> Dir"
    by (auto simp: only_def tmp_member file_name_defs)
  obtain w where w: "publish_tail d True lp u = bindM (prune_client_logs d) (\<lambda>freed. retM Parsed) w" "fs_faults w = []"
    "only (\<lambda>p. p \<in> {d @ [RESULT_FILE], tmp_path (d @ [RESULT_FILE]), d @ [READY_MARKER]}) u w"
    using tail_nf [OF u(2) n, where prune = True] by auto
  have far: "node_at p w = node_at p s"
    if "p \<notin> {d @ [METRICS_FILE], d @ [METRICS_FILE @ ''.tmp''], d @ [RESULT_FILE], d @ [RESULT_FILE @ ''.tmp''], d @ [READY_MARKER]}" for p
    using that u(3) w(3) by (auto simp: only_def tmp_member)
  have cl: "node_at p w = node_at p s" if "client_path d p" for p
    by (rule far) (rule client_not_published [OF that])
  have "kept_summary d w \<noteq> []" using kept kept_summary_cong [of d w s, OF cl] by simp
  moreover have logs: "client_logs d w = client_logs d s"
    unfolding client_logs_def by (rule glob_cong) (metis cl client_path_def)
  have "prunable d w"
  proof -
    have "path_isdir d w" using ready_dirD(1) [OF run(1)] far [of d] by (auto simp: path_isdir_def)
    moreover have "list_all (\<lambda>n. node_at (d @ [n]) w \<noteq> Some Dir) (client_logs d w)"
      using ready_dirD(6) [OF run(1)] cl [OF client_in_logs(1) [of _ d s, THEN conjunct1]] unfolding logs list_all_iff by auto
    ultimately show ?thesis using side far unfolding prunable_def by (simp add: file_name_defs)
  qed
  ultimately obtain k t where t: "prune_client_logs d w = (Inr k, t)" "client_logs d t = []" "path_isdir d t"
    using prune_clears [OF w(2)] by blast
  then have fin: "process_dir tz tb True d s = (Inr Parsed, t)" using u(1) w(1) by (simp add: bindM_def retM_def)
  then have "node_at (d @ [METRICS_FILE]) t = Some (Json (JObj (result_dict lp)))"
    using process_parsed [OF run, of tb True] by auto
  with fin t(2,3) show ?thesis using show_nothing [of dir r t lab] unfolding d by blast
qed

definition finished_run :: "rat harness" where
  "finished_run = (idle_harness 0)\<lparr>fs_files := [([''logs''], Dir), ([''logs'', ''A''], Dir), ([''logs'', ''A'', ''READY''], Text []),
     ([''logs'', ''A'', ''client-0.log''], Text sample_steady_log)]\<rparr>"

lemma finished_run_facts:
  "node_at p finished_run = (if p = [''logs''] \<or> p = [''logs'', ''A''] then Some Dir
     else if p = [''logs'', ''A'', ''READY''] then Some (Text [])
     else if p = [''logs'', ''A'', ''client-0.log''] then Some (Text sample_steady_log) else None)"
  "names_in [''logs'', ''A''] finished_run = [''READY'', ''client-0.log'']"
  "fs_faults finished_run = []"
  by (auto simp: node_at_def finished_run_def names_in_def idle_harness_def)

lemma finished_run_logs:
  "client_logs [''logs'', ''A''] finished_run = [''client-0.log'']" "replica_logs [''logs'', ''A''] finished_run = []"
proof -
  have e: "ends_with ''.log'' ''client-0.log''" "\<not> starts_with ''client-'' ''READY''" "starts_with ''client-'' ''client-0.log''"
    "\<not> starts_with ''replica-'' ''READY''" "\<not> starts_with ''replica-'' ''client-0.log''" by code_simp+
  show "client_logs [''logs'', ''A''] finished_run = [''client-0.log'']"
    by (simp add: client_logs_def glob_names_def finished_run_facts e)
  show "replica_logs [''logs'', ''A''] finished_run = []"
    by (simp add: replica_logs_def glob_names_def finished_run_facts e)
qed

lemma parsed_run_not_shown_witness:
  "\<exists>lp t. process_dir (\<lambda>_. 0) (\<lambda>e. []) True [''logs'', ''A''] finished_run = (Inr Parsed, t)
     \<and> node_at [''logs'', ''A'', ''metrics.json''] t = Some (Json (JObj (result_dict lp)))
     \<and> show_run demo_lab ''logs'' ''A'' t = say_error (lb_testbed demo_lab) (BenchError ''Failed to parse logs/A''
         (LogParseError ''no client-*.log files found under logs/A'')) t"
proof -
  let ?d = "[''logs'', ''A'']"
  have d: "file_path (path_join ''logs'' ''A'') = ?d" "path_join ''logs'' ''A'' = ''logs/A''" "py_join ''/'' ?d = ''logs/A''"
    by code_simp+
  have rdy: "ready_dir ?d finished_run"
    by (simp add: ready_dir_def path_isdir_def finished_run_facts finished_run_logs file_name_defs)
  have "case process (\<lambda>_. 0) ''logs/A'' True [sample_steady_log] [] (JObj []) of Inl e \<Rightarrow> False | Inr p \<Rightarrow> True" by code_simp
  then obtain lp where "process (\<lambda>_. 0) ''logs/A'' True [sample_steady_log] [] (JObj []) = Inr lp" by (auto split: sum.splits)
  moreover have tr: "translate_newlines sample_steady_log = sample_steady_log" by (rule translate_id) code_simp
  ultimately have dp: "disk_process (\<lambda>_. 0) ?d (disk_meta ?d finished_run) finished_run = Inr lp"
    by (simp add: disk_process_def disk_meta_def d(3) path_isdir_def finished_run_facts finished_run_logs file_name_defs text_at_def)
  have k: "kept_lines ''client-0.log'' sample_steady_log \<noteq> []" by code_simp
  have side: "node_at (?d @ [SUMMARY_FILE]) finished_run \<noteq> Some Dir" "node_at (?d @ [SUMMARY_FILE @ ''.tmp'']) finished_run \<noteq> Some Dir"
    by (simp_all add: finished_run_facts)
  have kept: "kept_summary ?d finished_run \<noteq> []"
    using k by (simp add: kept_summary_def finished_run_logs finished_run_facts text_at_def tr)
  from parsed_run_not_shown [OF d(1) [symmetric] rdy finished_run_facts(3) dp side kept, of "\<lambda>e. []" demo_lab]
  show ?thesis unfolding d METRICS_FILE_def append.simps by blast
qed

end
