(* ===== verification/Spec2Isabelle.thy ===== *)
theory Spec2Isabelle
  imports Prelude PyStr Netem Utils Commands Config Testbed Effects Retry Notifier Log_Text Logs Csv_Text Fs Csv_File
    Csv_Race Parser_Daemon Parser_Publish Argparse Gen_Conf Gen_Inventory Deploy_App Thr_Hist
    Remote_Rows Remote_Testbed Remote_Run Remote_Wait Remote_Sweep Remote_Archive Remote_Keeps Remote_Records
    Remote_Journal Remote_Sessions Csv_Reread Remote_Whole Compute_Sampler
    Fabfile Run_Summary
begin

text \<open>
  This library verifies the Python code that configures, deploys, starts and measures the HotStuff
  replicas of this repository: the benchmark harness under \<open>benchmark/benchmark/\<close>, the tasks of \<open>benchmark/fabfile.py\<close>
  that start it, and the scripts under \<open>scripts/\<close>. The consensus engine itself is C++ and is not part of it.

  How the program works. A user starts a task of \<open>fabfile.py\<close>, which makes a \<open>CloudLabBench\<close> and calls one of its
  operations, the reconciler, the log parser or the daemon. The sweep (\<open>run_from_csv\<close> in \<open>remote.py\<close>) takes the rows of a CSV that the output file does not
  hold as done yet. For each it reads the parameters of the experiment (\<open>config.py\<close>), selects hosts, configures and runs
  the benchmark, fetches and archives the logs, and appends one row to the output; failures of a row become its status.
  It works on the settings and
  the CloudLab manifest (\<open>settings.py\<close>, \<open>manifest.py\<close>, \<open>instance.py\<close>), emulates network latencies with \<open>tc\<close>
  (\<open>netem.py\<close>), composes shell commands (\<open>commands.py\<close>) and runs them over SSH with retries (\<open>retry.py\<close>). One of the
  commands runs \<open>scripts/gen_conf.py\<close>, which writes the configuration of the replicas. On other clusters the same
  configuration is deployed by ansible, with the inventory of \<open>scripts/deploy/gen_inventory.py\<close> and the modules
  \<open>hotstuff_app.py\<close> and \<open>hotstuff_cli.py\<close> that start replicas and clients. After a run the logs lie in a run directory
  marked READY; the parser daemon (\<open>parser_daemon.py\<close>) turns them into \<open>metrics.json\<close> (\<open>logs.py\<close>), prunes the raw
  logs and promotes the row of the run in the results CSV (\<open>reconciler.py\<close>), while the harness appends rows to the
  same file (\<open>csv_writer.py\<close>). \<open>scripts/thr_hist.py\<close> draws a throughput histogram from one client log. E-mails report
  progress (\<open>notifier.py\<close>).

  Conventions. An exception is a value of the datatype \<open>exn\<close>; a function that may raise returns \<open>exn + 'a\<close>, and
  code with effects is a function from the state to such a result and the state left behind, which an exception does
  not undo (\<open>Effects\<close>). A Python dictionary is an association list in insertion order, an int is an \<open>int\<close>, a string
  is a list of characters of which the ASCII ones have their Python meaning. A finite float is a rational number:
  arithmetic is exact and rounding happens only where the code rounds (\<open>round\<close>, format specifications, \<open>timedelta\<close>).
  The file system is a map of paths with a script of faults, so a theorem about all states covers every pattern of
  failing operations.

  The theories, with the code they model:
  \<^item> \<open>Prelude\<close>: exceptions, results, dictionaries; the locale \<open>dictionary\<close> states the laws of a dictionary and is
    interpreted on the association lists. \<open>PyStr\<close>: strings, number printing and parsing, dynamic values; the locale
    \<open>print_parse\<close> is interpreted on the printers and parsers of integers. \<open>Effects\<close>, \<open>Fs\<close>: computations and files;
    \<open>Fs\<close> interprets the locale of the reflexive and transitive relations that computations keep.
  \<^item> \<open>Utils\<close> (\<open>utils.py\<close>), \<open>Config\<close> (\<open>config.py\<close>), \<open>Testbed\<close> (\<open>settings.py\<close>, \<open>manifest.py\<close>, \<open>instance.py\<close>): paths
    and messages, validation of the parameters, and the description of the testbed. Accepted parameters are in range,
    and bad input of every kind is rejected with the module's own error.
  \<^item> \<open>Netem\<close> (\<open>netem.py\<close>): the delay matrix and the \<open>tc\<close> commands. A model of the kernel's classful queue executes
    the commands, and the theorems state the delay that a packet to each address gets.
  \<^item> \<open>Commands\<close> (\<open>commands.py\<close>): command lines and quoting, against a lexer of the POSIX shell; the locale
    \<open>shell_quoting\<close> is interpreted on the quoting function.
  \<^item> \<open>Retry\<close> (\<open>retry.py\<close>), \<open>Notifier\<close> (\<open>notifier.py\<close>): the retry loop refines a contract over the outcomes of
    the calls; the throttle keeps two messages of one key apart.
  \<^item> \<open>Log_Text\<close>, \<open>Logs\<close> (\<open>logs.py\<close>): a matcher for the regular expressions of the log parser, the samples of one
    log, and the metrics of a run with the steady window and the detection of stalls.
  \<^item> \<open>Csv_Text\<close>, \<open>Csv_File\<close> (\<open>csv_writer.py\<close>, \<open>reconciler.py\<close>), \<open>Csv_Race\<close>: the csv format with the round trip of
    its writer and reader (locale \<open>table_file\<close>), appending and reconciling, and the interleavings of appenders and
    reconcilers as a step relation in which a process may die at any point.
  \<^item> \<open>Parser_Daemon\<close>, \<open>Parser_Publish\<close> (\<open>parser_daemon.py\<close>): a pass over the run directories and what it leaves on the
    disk under every fault script.
  \<^item> \<open>Argparse\<close>, \<open>Gen_Conf\<close> (\<open>scripts/gen_conf.py\<close>): argument parsing as the standard library does it for the options
    the scripts use, ports, keys and the files written. \<open>Gen_Inventory\<close> (\<open>scripts/deploy/gen_inventory.py\<close>): the
    inventory and its \<open>host_idx\<close> counters. \<open>Deploy_App\<close> (\<open>scripts/deploy/app/*.py\<close>): the ansible modules.
    \<open>Thr_Hist\<close> (\<open>scripts/thr_hist.py\<close>): dates, the interval loop, outliers, the printed report.
  \<^item> \<open>Remote_Rows\<close>, \<open>Remote_Testbed\<close>, \<open>Remote_Run\<close>, \<open>Remote_Wait\<close>, \<open>Remote_Sweep\<close> (\<open>remote.py\<close>): the rows of the input and
    the output with resuming; the record \<open>harness\<close> of what a \<open>CloudLabBench\<close> keeps (connection pool, interface cache, last
    round trips, counters, notifier) beside the local disk, the record \<open>testbed\<close> of what it is connected to, and the
    operations on connections, logs and latencies; one run; the polling loop; the loop over the rows with its handlers.
  \<^item> \<open>Remote_Archive\<close>, \<open>Remote_Keeps\<close>, \<open>Remote_Records\<close>, \<open>Remote_Journal\<close>, \<open>Remote_Sessions\<close>: what holds of them. READY is created last; the
    locales \<open>keeps_run\<close> and \<open>keeps_sweep\<close> state which elementary steps a predicate must survive to survive a run and a
    sweep, and are interpreted on the connection pool, the counters and the output file; Hoare triples with a
    postcondition for exceptions show that the output file is a journal of one verdict per row, from which the next session
    takes up what is left. \<open>Csv_Reread\<close>, \<open>Remote_Whole\<close>: the journal as a table that is read and written again, and a whole
    call of \<open>run_from_csv\<close> with its reconciliations (locale \<open>quiet_session\<close>), after which no finished record is lost.
  \<^item> \<open>Compute_Sampler\<close> (\<open>compute_sampler.py\<close>): the program that \<open>remote.py\<close> starts on the hosts to read counters of the
    kernel; it survives processes that vanish between two reads, keeps its ticks and ends.
  \<^item> \<open>Fabfile\<close> (\<open>fabfile.py\<close> and the constructor in \<open>remote.py\<close>), \<open>Run_Summary\<close>: the tasks over the record \<open>lab\<close> of what
    the working directory holds, which errors they print and which they let through, the run that \<open>fab logs\<close> shows, and
    what the daemon leaves of it.
  \<^item> This theory composes the command line, the shell, the argument parser, the address file and the script.

  Loops and bounds. Every loop of the harness over data is a structural recursion, so it ends. The wait for the clients
  polls every two seconds up to the duration of the run, and recurses on what is left of it. The daemon's polling loop
  runs until a signal: it takes the number of its passes as fuel and the flag at each look at it as a list. The loop of
  \<open>compute_sampler.py\<close> is a partial function into an option, and \<open>sampler_exits\<close> bounds its samples. The interval loop of
  \<open>thr_hist.py\<close> may run for ever and is a partial function into an option; \<open>histogram_ends\<close> says exactly when it does. Dates are bounded by
  the range of \<open>datetime\<close>, and leaving it is an error value.

  Parameters. What the repository does not contain is an argument of the definitions: the SMTP session, the documents
  read by \<open>json.load\<close> and the XML parser, the time zone, the key generators, the home directories, the start of a
  process, what the fabric connections do to the hosts, the local shell, the clocks and the names of temporary
  directories (the fields of \<open>testbed\<close>), the \<open>AnsibleModule\<close> object, \<open>numpy.percentile\<close>, the operations of
  matplotlib (the fields of \<open>pyplot\<close>), the host name, and the modification times of directories (fields of \<open>lab\<close>).
  Where a theorem relies on them, a hypothesis states what their documentation says, and a witness instantiates it.

  Not modelled. The
  threads of the round-trip probe and the members of a fabric group run one after the other in the model, in the order
  of the list; closing a connection has no effect that the harness sees. The \<open>debug\<close> flag of a sweep is handed on and read nowhere, so it has no
  parameter. The
  \<open>analyse_*\<close>, \<open>make_*\<close>, \<open>audit_stalls\<close> and \<open>strace_probe\<close> programs are one-off reports and tables of parameters of past
  experiments. The C++ engine with its examples, the shell scripts and the ansible playbooks are other languages. Strings
  are lists of 8-bit characters: Unicode white space, digits and line boundaries beyond ASCII are ordinary characters.
  Buffering of written files until they are closed is not modelled, and neither are permissions and links.
\<close>

section \<open>From the harness to the configuration files\<close>

lemma expected_args_lookup:
  "arg (expected_args r a) ''ips'' = PStr (gc_ips_file a)" "str_arg (expected_args r a) ''prefix'' = gc_prefix a"
  "str_arg (expected_args r a) ''nodes'' = ''nodes.txt''" "int_arg (expected_args r a) ''pport'' = gc_pport a"
  "int_arg (expected_args r a) ''cport'' = gc_cport a" "str_arg (expected_args r a) ''keygen'' = path_join r ''hotstuff-keygen''"
  "str_arg (expected_args r a) ''tls_keygen'' = path_join r ''hotstuff-tls-keygen''"
  by (simp_all add: arg_def str_arg_def int_arg_def expected_args_def)

lemma gen_conf_command_words:
  "sh_words (gen_conf r a) = Some (''python3'' # path_join (path_join r ''scripts'') ''gen_conf.py'' # drop 2 (gen_conf_argv r a))"
  unfolding gen_conf_join shq.words_join_quote by (simp add: gen_conf_argv_def)


definition pipeline_disk :: fs where
  "pipeline_disk = \<lparr>fs_files = [([''ips.txt''], Text (ips_file_text [''10.0.0.1'', ''10.0.0.1'']))], fs_faults = []\<rparr>"


end
